(* ===== verification/Prelude.thy ===== *)
theory Prelude
  imports Main "HOL-Library.Multiset"
begin

text \<open>
  What every component shares: Go's fixed-width integers, procedures that thread a state and
  may return an error (the shape of almost every function of the repository, which returns a
  value and an \<open>error\<close>), loops with early return, the predicate \<open>keeps\<close> with its
  introduction rules, and a few facts on lists used as tables.
\<close>

named_theorems keeps_intros "structural rules for invariants of procedures"
named_theorems proc_simps "unfolding rules for procedures"

section \<open>Go integers\<close>

text \<open>
  Go's \<open>int\<close> (64 bits) and \<open>int32\<close> are modelled by \<open>int\<close>; a conversion or an
  addition that can leave the range goes through the explicit wrap-around.
\<close>

definition int32 :: "int \<Rightarrow> int" where
  "int32 x = signed_take_bit 31 x"

definition int64 :: "int \<Rightarrow> int" where
  "int64 x = signed_take_bit 63 x"

definition is_int32 :: "int \<Rightarrow> bool" where
  "is_int32 x \<longleftrightarrow> - 2147483648 \<le> x \<and> x < 2147483648"

definition is_int64 :: "int \<Rightarrow> bool" where
  "is_int64 x \<longleftrightarrow> - 9223372036854775808 \<le> x \<and> x < 9223372036854775808"

lemma int32_id [simp]: "is_int32 x \<Longrightarrow> int32 x = x"
  by (simp add: int32_def is_int32_def signed_take_bit_int_eq_self)

lemma int64_id [simp]: "is_int64 x \<Longrightarrow> int64 x = x"
  by (simp add: int64_def is_int64_def signed_take_bit_int_eq_self)

lemma is_int32_int32 [simp, intro]: "is_int32 (int32 x)"
proof -
  have "- (2 ^ 31) \<le> signed_take_bit 31 x \<and> signed_take_bit 31 x < 2 ^ 31"
    by (simp only: signed_take_bit_int_greater_eq_minus_exp signed_take_bit_int_less_exp simp_thms)
  then show ?thesis by (simp add: is_int32_def int32_def)
qed

lemma is_int64_int64 [simp, intro]: "is_int64 (int64 x)"
proof -
  have "- (2 ^ 63) \<le> signed_take_bit 63 x \<and> signed_take_bit 63 x < 2 ^ 63"
    by (simp only: signed_take_bit_int_greater_eq_minus_exp signed_take_bit_int_less_exp simp_thms)
  then show ?thesis by (simp add: is_int64_def int64_def)
qed

lemma is_int32_is_int64: "is_int32 x \<Longrightarrow> is_int64 x"
  by (simp add: is_int32_def is_int64_def)

lemma int32_zero [simp]: "int32 0 = 0"
  by (simp add: is_int32_def)

section \<open>Procedures: state, error or value\<close>

type_synonym ('s, 'e, 'a) proc = "'s \<Rightarrow> ('e + 'a) \<times> 's"

definition ret :: "'a \<Rightarrow> ('s, 'e, 'a) proc" where
  "ret a = (\<lambda>s. (Inr a, s))"

definition fail :: "'e \<Rightarrow> ('s, 'e, 'a) proc" where
  "fail e = (\<lambda>s. (Inl e, s))"

text \<open>
  \<open>attempt m h k\<close> is Go's \<open>x, err := m(); if err != nil { h }; k\<close>; \<open>seq m k\<close>
  returns the error of \<open>m\<close> to the caller.
\<close>

definition attempt ::
  "('s, 'e, 'a) proc \<Rightarrow> ('e \<Rightarrow> ('s, 'f, 'b) proc) \<Rightarrow> ('a \<Rightarrow> ('s, 'f, 'b) proc) \<Rightarrow> ('s, 'f, 'b) proc" where
  "attempt m h k = (\<lambda>s. case m s of (Inl e, t) \<Rightarrow> h e t | (Inr a, t) \<Rightarrow> k a t)"

definition seq :: "('s, 'e, 'a) proc \<Rightarrow> ('a \<Rightarrow> ('s, 'e, 'b) proc) \<Rightarrow> ('s, 'e, 'b) proc" where
  "seq m k = attempt m fail k"

definition query :: "('s \<Rightarrow> 'a) \<Rightarrow> ('s, 'e, 'a) proc" where
  "query f = (\<lambda>s. (Inr (f s), s))"

definition modify :: "('s \<Rightarrow> 's) \<Rightarrow> ('s, 'e, unit) proc" where
  "modify f = (\<lambda>s. (Inr (), f s))"

text \<open>\<open>for _, x := range xs\<close> with an accumulator; an error of the body leaves the loop.\<close>

fun for_each :: "('x \<Rightarrow> 'b \<Rightarrow> ('s, 'e, 'b) proc) \<Rightarrow> 'x list \<Rightarrow> 'b \<Rightarrow> ('s, 'e, 'b) proc" where
  "for_each f [] b = ret b"
| "for_each f (x # xs) b = seq (f x b) (for_each f xs)"

lemma ret_apply [simp, proc_simps]: "ret a s = (Inr a, s)"
  by (simp add: ret_def)

lemma fail_apply [simp, proc_simps]: "fail e s = (Inl e, s)"
  by (simp add: fail_def)

lemma query_apply [simp, proc_simps]: "query f s = (Inr (f s), s)"
  by (simp add: query_def)

lemma modify_apply [simp, proc_simps]: "modify f s = (Inr (), f s)"
  by (simp add: modify_def)

lemma attempt_apply [proc_simps]:
  "attempt m h k s = (case m s of (Inl e, t) \<Rightarrow> h e t | (Inr a, t) \<Rightarrow> k a t)"
  by (simp add: attempt_def)

lemma seq_apply [proc_simps]:
  "seq m k s = (case m s of (Inl e, t) \<Rightarrow> (Inl e, t) | (Inr a, t) \<Rightarrow> k a t)"
  by (auto simp: seq_def attempt_def fail_def split: prod.splits sum.splits)

lemma attempt_Inl: "m s = (Inl e, t) \<Longrightarrow> attempt m h k s = h e t"
  by (simp add: attempt_def)

lemma attempt_Inr: "m s = (Inr a, t) \<Longrightarrow> attempt m h k s = k a t"
  by (simp add: attempt_def)

lemma attempt_cases:
  assumes "attempt m h k s = (x, u)"
  obtains e t where "m s = (Inl e, t)" "h e t = (x, u)"
  | a t where "m s = (Inr a, t)" "k a t = (x, u)"
  using assms by (auto simp: attempt_apply split: prod.splits sum.splits)

lemma seq_Inr: "seq m k s = (Inr b, t) \<Longrightarrow> \<exists>a u. m s = (Inr a, u) \<and> k a u = (Inr b, t)"
  by (auto simp: seq_apply split: prod.splits sum.splits)

lemma result_eq: "fst p = a \<Longrightarrow> p = (a, snd p)"
  by (cases p) simp

section \<open>Invariants of procedures\<close>

definition keeps :: "('s \<Rightarrow> bool) \<Rightarrow> ('s, 'e, 'a) proc \<Rightarrow> bool" where
  "keeps I m \<longleftrightarrow> (\<forall>s. I s \<longrightarrow> I (snd (m s)))"

lemma keepsI: "(\<And>s. I s \<Longrightarrow> I (snd (m s))) \<Longrightarrow> keeps I m"
  by (simp add: keeps_def)

lemma keepsD: "keeps I m \<Longrightarrow> I s \<Longrightarrow> I (snd (m s))"
  by (simp add: keeps_def)

lemma keeps_ret [keeps_intros]: "keeps I (ret a)"
  by (simp add: keeps_def)

lemma keeps_fail [keeps_intros]: "keeps I (fail e)"
  by (simp add: keeps_def)

lemma keeps_query [keeps_intros]: "keeps I (query f)"
  by (simp add: keeps_def)

lemma keeps_attempt [keeps_intros]:
  assumes "keeps I m" and "\<And>e. keeps I (h e)" and "\<And>a. keeps I (k a)"
  shows "keeps I (attempt m h k)"
proof (rule keepsI)
  fix s assume "I s"
  with assms(1) have "I (snd (m s))" by (rule keepsD)
  then show "I (snd (attempt m h k s))"
    using assms(2,3) by (auto simp: attempt_apply keeps_def split: prod.splits sum.splits)
qed

lemma keeps_seq [keeps_intros]:
  "keeps I m \<Longrightarrow> (\<And>a. keeps I (k a)) \<Longrightarrow> keeps I (seq m k)"
  unfolding seq_def by (intro keeps_intros)

lemma keeps_for_each [keeps_intros]:
  "(\<And>x b. keeps I (f x b)) \<Longrightarrow> keeps I (for_each f xs b)"
  by (induction xs arbitrary: b) (auto intro: keeps_intros)

lemma keeps_if [keeps_intros]:
  "keeps I m \<Longrightarrow> keeps I n \<Longrightarrow> keeps I (if b then m else n)"
  by simp

lemma keeps_option [keeps_intros]:
  "keeps I m \<Longrightarrow> (\<And>a. keeps I (k a)) \<Longrightarrow> keeps I (case x of None \<Rightarrow> m | Some a \<Rightarrow> k a)"
  by (cases x) simp_all

lemma keeps_list [keeps_intros]:
  "keeps I m \<Longrightarrow> (\<And>a as. keeps I (k a as)) \<Longrightarrow> keeps I (case xs of [] \<Rightarrow> m | a # as \<Rightarrow> k a as)"
  by (cases xs) simp_all

lemma keeps_let [keeps_intros]: "(\<And>y. keeps I (m y)) \<Longrightarrow> keeps I (let y = x in m y)"
  by simp

lemma keeps_case_sum [keeps_intros]:
  "(\<And>a. keeps I (f a)) \<Longrightarrow> (\<And>b. keeps I (g b)) \<Longrightarrow> keeps I (case x of Inl a \<Rightarrow> f a | Inr b \<Rightarrow> g b)"
  by (cases x) simp_all

lemma keeps_case_prod [keeps_intros]:
  "(\<And>a b. keeps I (f a b)) \<Longrightarrow> keeps I (case x of (a, b) \<Rightarrow> f a b)"
  by (cases x) simp

section \<open>Pre- and postconditions of procedures\<close>

text \<open>
  \<open>triple P m Q E\<close>: from a state in \<open>P\<close> the procedure ends in \<open>Q a\<close> with the value
  \<open>a\<close> or in \<open>E e\<close> with the error \<open>e\<close>. Every procedure is total, so this is total
  correctness.
\<close>

definition triple ::
  "('s \<Rightarrow> bool) \<Rightarrow> ('s, 'e, 'a) proc \<Rightarrow> ('a \<Rightarrow> 's \<Rightarrow> bool) \<Rightarrow> ('e \<Rightarrow> 's \<Rightarrow> bool) \<Rightarrow> bool" where
  "triple P m Q E \<longleftrightarrow> (\<forall>s. P s \<longrightarrow> (case m s of (Inr a, t) \<Rightarrow> Q a t | (Inl e, t) \<Rightarrow> E e t))"

lemma tripleI:
  "(\<And>s. P s \<Longrightarrow> case m s of (Inr a, t) \<Rightarrow> Q a t | (Inl e, t) \<Rightarrow> E e t) \<Longrightarrow> triple P m Q E"
  by (simp add: triple_def)

lemma tripleD: "triple P m Q E \<Longrightarrow> P s \<Longrightarrow> case m s of (Inr a, t) \<Rightarrow> Q a t | (Inl e, t) \<Rightarrow> E e t"
  by (simp add: triple_def)

lemma tripleD_Inr: "triple P m Q E \<Longrightarrow> P s \<Longrightarrow> m s = (Inr a, t) \<Longrightarrow> Q a t"
  by (auto simp: triple_def)

lemma tripleD_Inl: "triple P m Q E \<Longrightarrow> P s \<Longrightarrow> m s = (Inl e, t) \<Longrightarrow> E e t"
  by (auto simp: triple_def)

lemma triple_ret: "(\<And>s. P s \<Longrightarrow> Q a s) \<Longrightarrow> triple P (ret a) Q E"
  by (simp add: triple_def)

lemma triple_fail: "(\<And>s. P s \<Longrightarrow> E e s) \<Longrightarrow> triple P (fail e) Q E"
  by (simp add: triple_def)

lemma triple_query: "(\<And>s. P s \<Longrightarrow> Q (f s) s) \<Longrightarrow> triple P (query f) Q E"
  by (simp add: triple_def)

lemma triple_modify: "(\<And>s. P s \<Longrightarrow> Q () (f s)) \<Longrightarrow> triple P (modify f) Q E"
  by (simp add: triple_def)

lemma triple_attempt:
  assumes "triple P m R F" and "\<And>e. triple (F e) (h e) Q E" and "\<And>a. triple (R a) (k a) Q E"
  shows "triple P (attempt m h k) Q E"
proof (rule tripleI)
  fix s assume "P s"
  show "case attempt m h k s of (Inr a, t) \<Rightarrow> Q a t | (Inl e, t) \<Rightarrow> E e t"
  proof (cases "fst (m s)")
    case (Inl e)
    then have m: "m s = (Inl e, snd (m s))" by (metis prod.collapse)
    then have "F e (snd (m s))" using assms(1) \<open>P s\<close> by (rule tripleD_Inl [rotated 2])
    from tripleD [OF assms(2) this] show ?thesis by (subst attempt_apply, subst m) simp
  next
    case (Inr a)
    then have m: "m s = (Inr a, snd (m s))" by (metis prod.collapse)
    then have "R a (snd (m s))" using assms(1) \<open>P s\<close> by (rule tripleD_Inr [rotated 2])
    from tripleD [OF assms(3) this] show ?thesis by (subst attempt_apply, subst m) simp
  qed
qed

lemma triple_seq:
  assumes "triple P m R E" and "\<And>a. triple (R a) (k a) Q E"
  shows "triple P (seq m k) Q E"
  unfolding seq_def by (rule triple_attempt [OF assms(1)]) (auto intro: triple_fail assms(2))

lemma triple_if:
  "(b \<Longrightarrow> triple P m Q E) \<Longrightarrow> (\<not> b \<Longrightarrow> triple P n Q E) \<Longrightarrow> triple P (if b then m else n) Q E"
  by simp

lemma triple_weaken:
  assumes "triple P m Q E" and "\<And>s. P' s \<Longrightarrow> P s" and "\<And>a s. Q a s \<Longrightarrow> Q' a s"
    and "\<And>e s. E e s \<Longrightarrow> E' e s"
  shows "triple P' m Q' E'"
proof (rule tripleI)
  fix s assume "P' s"
  then have "case m s of (Inr a, t) \<Rightarrow> Q a t | (Inl e, t) \<Rightarrow> E e t"
    using assms(1,2) by (simp add: triple_def)
  then show "case m s of (Inr a, t) \<Rightarrow> Q' a t | (Inl e, t) \<Rightarrow> E' e t"
    using assms(3,4) by (auto split: prod.splits sum.splits)
qed

text \<open>A loop: the invariant relates the elements already processed to the accumulator.\<close>

lemma triple_for_each:
  assumes "\<And>x ys b. triple (R ys b) (f x b) (R (ys @ [x])) E"
  shows "triple (R zs b) (for_each f xs b) (R (zs @ xs)) E"
proof (induction xs arbitrary: zs b)
  case Nil
  show ?case by (simp add: triple_def)
next
  case (Cons x xs)
  have "triple (R (zs @ [x]) c) (for_each f xs c) (R ((zs @ [x]) @ xs)) E" for c
    by (rule Cons)
  then show ?case by (simp add: triple_seq [OF assms])
qed

section \<open>Lists used as tables\<close>

lemma find_SomeD: "find P xs = Some x \<Longrightarrow> x \<in> set xs \<and> P x"
  by (auto simp: find_Some_iff)

lemma find_None_iff_ball: "find P xs = None \<longleftrightarrow> (\<forall>x \<in> set xs. \<not> P x)"
  by (auto simp: find_None_iff)

lemma distinct_key_find:
  "distinct (map f xs) \<Longrightarrow> x \<in> set xs \<Longrightarrow> find (\<lambda>y. f y = f x) xs = Some x"
  by (induction xs) (auto simp: image_iff)

lemma distinct_filter_key:
  "distinct (map f xs) \<Longrightarrow>
   filter (\<lambda>x. f x = k) xs = (case find (\<lambda>x. f x = k) xs of None \<Rightarrow> [] | Some x \<Rightarrow> [x])"
proof (induction xs)
  case (Cons x xs)
  have "filter (\<lambda>y. f y = f x) xs = []"
    using Cons.prems by (auto simp: filter_empty_conv image_iff)
  with Cons show ?case by auto
qed simp

lemma distinct_map_update:
  "distinct (map f xs) \<Longrightarrow> (\<And>x. x \<in> set xs \<Longrightarrow> f (g x) = f x) \<Longrightarrow> distinct (map f (map g xs))"
  by (simp add: o_def cong: map_cong)

lemma map_update_id: "(\<And>x. x \<in> set xs \<Longrightarrow> f (g x) = f x) \<Longrightarrow> map f (map g xs) = map f xs"
  by simp

lemma find_map_update:
  "(\<And>x. P (g x) = P x) \<Longrightarrow> find P (map g xs) = map_option g (find P xs)"
  by (induction xs) auto

lemma sum_list_nonneg_int: "(\<And>x. x \<in> set xs \<Longrightarrow> 0 \<le> f x) \<Longrightarrow> 0 \<le> sum_list (map f xs :: int list)"
  by (induction xs) auto

lemma sum_list_pos_int: "xs \<noteq> [] \<Longrightarrow> (\<And>x. x \<in> set xs \<Longrightarrow> 0 < f x) \<Longrightarrow> 0 < sum_list (map f xs :: int list)"
proof (induction xs)
  case (Cons x xs)
  then have "0 < f x" by simp
  with Cons show ?case by (cases "xs = []") (auto intro: add_pos_pos)
qed simp

section \<open>sort.Slice\<close>

text \<open>
  The insertion sort that \<open>sort.Slice\<close> runs on short slices: each element moves left past
  the elements it is less than. The sorted prefix is kept last element first. (On longer slices
  the library may order elements that compare equal differently; \<open>sorted_unique\<close> below says
  when the result does not depend on that.)
\<close>

fun go_insert :: "('a \<Rightarrow> 'a \<Rightarrow> bool) \<Rightarrow> 'a \<Rightarrow> 'a list \<Rightarrow> 'a list" where
  "go_insert lt x [] = [x]"
| "go_insert lt x (y # ys) = (if lt x y then y # go_insert lt x ys else x # y # ys)"

definition go_sort :: "('a \<Rightarrow> 'a \<Rightarrow> bool) \<Rightarrow> 'a list \<Rightarrow> 'a list" where
  "go_sort lt xs = rev (fold (go_insert lt) xs [])"

lemma mset_go_insert [simp]: "mset (go_insert lt x ys) = add_mset x (mset ys)"
  by (induction ys) auto

lemma mset_fold_go_insert: "mset (fold (go_insert lt) xs ys) = mset xs + mset ys"
  by (induction xs arbitrary: ys) auto

lemma mset_go_sort [simp]: "mset (go_sort lt xs) = mset xs"
  by (simp add: go_sort_def mset_fold_go_insert)

lemma set_go_sort [simp]: "set (go_sort lt xs) = set xs"
  by (metis mset_go_sort set_mset_mset)

lemma length_go_sort [simp]: "length (go_sort lt xs) = length xs"
  by (metis mset_go_sort size_mset)

text \<open>A strict weak order on the elements of a set.\<close>

definition weak_order_on :: "'a set \<Rightarrow> ('a \<Rightarrow> 'a \<Rightarrow> bool) \<Rightarrow> bool" where
  "weak_order_on A lt \<longleftrightarrow>
     (\<forall>x \<in> A. \<forall>y \<in> A. lt x y \<longrightarrow> \<not> lt y x) \<and>
     (\<forall>x \<in> A. \<forall>y \<in> A. \<forall>z \<in> A. \<not> lt x y \<longrightarrow> \<not> lt y z \<longrightarrow> \<not> lt x z)"

lemma weak_order_asym: "weak_order_on A lt \<Longrightarrow> x \<in> A \<Longrightarrow> y \<in> A \<Longrightarrow> lt x y \<Longrightarrow> \<not> lt y x"
  unfolding weak_order_on_def by blast

lemma weak_order_trans:
  "weak_order_on A lt \<Longrightarrow> x \<in> A \<Longrightarrow> y \<in> A \<Longrightarrow> z \<in> A \<Longrightarrow>
   \<not> lt x y \<Longrightarrow> \<not> lt y z \<Longrightarrow> \<not> lt x z"
  unfolding weak_order_on_def by blast

lemma sorted_go_insert:
  assumes "weak_order_on A lt" and "x \<in> A" and "set ys \<subseteq> A"
    and "sorted_wrt (\<lambda>a b. \<not> lt a b) ys"
  shows "sorted_wrt (\<lambda>a b. \<not> lt a b) (go_insert lt x ys)"
  using assms(3,4)
proof (induction ys)
  case Nil
  then show ?case by simp
next
  case (Cons y ys)
  have set: "set (go_insert lt x ys) = insert x (set ys)"
    by (metis mset_go_insert set_mset_mset set_mset_add_mset_insert)
  show ?case
  proof (cases "lt x y")
    case True
    moreover have "y \<in> A" using Cons.prems(1) by simp
    ultimately have "\<not> lt y x" using weak_order_asym [OF assms(1,2), of y] True by blast
    moreover have "sorted_wrt (\<lambda>a b. \<not> lt a b) (go_insert lt x ys)"
      using Cons.prems by (intro Cons.IH) simp_all
    moreover have "\<forall>z \<in> set ys. \<not> lt y z" using Cons.prems(2) by simp
    ultimately show ?thesis using True by (simp add: set)
  next
    case False
    have "\<not> lt x z" if "z \<in> set ys" for z
    proof -
      have "\<not> lt y z" using Cons.prems(2) that by simp
      moreover have "y \<in> A" "z \<in> A" using Cons.prems(1) that by auto
      ultimately show ?thesis using weak_order_trans [OF assms(1,2), of y z] False by blast
    qed
    with False Cons.prems(2) show ?thesis by simp
  qed
qed

lemma sorted_fold_go_insert:
  "weak_order_on A lt \<Longrightarrow> set xs \<subseteq> A \<Longrightarrow> set ys \<subseteq> A \<Longrightarrow> sorted_wrt (\<lambda>a b. \<not> lt a b) ys \<Longrightarrow>
   sorted_wrt (\<lambda>a b. \<not> lt a b) (fold (go_insert lt) xs ys)"
proof (induction xs arbitrary: ys)
  case Nil
  then show ?case by simp
next
  case (Cons x xs)
  have "set (go_insert lt x ys) = insert x (set ys)"
    by (metis mset_go_insert set_mset_mset set_mset_add_mset_insert)
  with Cons show ?case by (simp add: sorted_go_insert [of A])
qed

lemma sorted_go_sort:
  "weak_order_on (set xs) lt \<Longrightarrow> sorted_wrt (\<lambda>a b. \<not> lt b a) (go_sort lt xs)"
  using sorted_fold_go_insert [of "set xs" lt xs "[]"]
  by (simp add: go_sort_def sorted_wrt_rev)

text \<open>
  When no two elements compare equal there is only one sorted arrangement, so that the
  algorithm behind \<open>sort.Slice\<close> does not matter.
\<close>

lemma sorted_unique:
  assumes "\<And>x y. x \<in> set xs \<Longrightarrow> y \<in> set xs \<Longrightarrow> x \<noteq> y \<Longrightarrow> lt x y \<or> lt y x"
    and "sorted_wrt (\<lambda>a b. \<not> lt b a) xs" and "sorted_wrt (\<lambda>a b. \<not> lt b a) ys"
    and "mset xs = mset ys"
  shows "xs = ys"
  using assms
proof (induction xs arbitrary: ys)
  case Nil
  then show ?case by simp
next
  case (Cons x xs)
  then obtain y ys' where ys: "ys = y # ys'" by (cases ys) auto
  have set: "set (x # xs) = set ys" using Cons.prems(4) by (rule mset_eq_setD)
  have "x = y"
  proof (rule ccontr)
    assume ne: "x \<noteq> y"
    have "y \<in> set xs" using ne set ys by auto
    moreover have "x \<in> set ys'" using ne set ys by auto
    ultimately have "\<not> lt y x" "\<not> lt x y"
      using Cons.prems(2,3) ys by auto
    with Cons.prems(1) [of x y] ne \<open>y \<in> set xs\<close> show False by simp
  qed
  moreover have "xs = ys'"
    using Cons.prems ys \<open>x = y\<close> by (intro Cons.IH) auto
  ultimately show ?case using ys by simp
qed

end
