(* ===== verification/Float64.thy ===== *)
theory Float64
  imports Prelude Complex_Main
begin

text \<open>
  Go's \<open>float64\<close>: IEEE 754 binary64 with rounding to nearest, ties to even. A finite
  value is the rational number it stands for; the sign of zero is not kept (no code modelled
  here divides by a value or formats one whose sign could be observed). Additions and
  multiplications round separately, as on amd64, where the compiler does not fuse them.
\<close>

datatype f64 = Fin rat | PInf | NInf | NaN

section \<open>Rounding\<close>

definition pow2 :: "int \<Rightarrow> rat" where
  "pow2 e = (if 0 \<le> e then 2 ^ nat e else 1 / 2 ^ nat (- e))"

text \<open>The number of binary digits of a positive integer.\<close>

function bit_length :: "int \<Rightarrow> int" where
  "bit_length n = (if n \<le> 0 then 0 else bit_length (n div 2) + 1)"
  by pat_completeness auto
termination
  by (relation "measure nat") auto

declare bit_length.simps [simp del]

text \<open>The exponent of a positive rational: the \<open>e\<close> with \<open>2\<^sup>e \<le> x < 2\<^sup>e\<^sup>+\<^sup>1\<close>.\<close>

definition binade :: "rat \<Rightarrow> int" where
  "binade x = (case quotient_of x of (p, q) \<Rightarrow>
     let e = bit_length p - bit_length q
     in if pow2 e \<le> x then e else e - 1)"

definition round_half_even :: "rat \<Rightarrow> int" where
  "round_half_even y =
     (let f = \<lfloor>y\<rfloor>; d = y - of_int f
      in if d < 1 / 2 then f else if 1 / 2 < d then f + 1 else if even f then f else f + 1)"

definition ulp :: "rat \<Rightarrow> rat" where
  "ulp x = pow2 (max (binade \<bar>x\<bar>) (- 1022) - 52)"

definition rnd64 :: "rat \<Rightarrow> f64" where
  "rnd64 x =
     (if x = 0 then Fin 0
      else let r = of_int (round_half_even (x / ulp x)) * ulp x
           in if r \<noteq> 0 \<and> 1024 \<le> binade \<bar>r\<bar> then (if 0 < r then PInf else NInf) else Fin r)"

section \<open>Arithmetic and comparison\<close>

instantiation f64 :: "{zero, one, plus, minus, times, uminus, ord}"
begin

definition zero_f64 :: f64 where "0 = Fin 0"

definition one_f64 :: f64 where "1 = Fin 1"

fun uminus_f64 :: "f64 \<Rightarrow> f64" where
  "- Fin a = Fin (- a)"
| "- PInf = NInf"
| "- NInf = PInf"
| "- NaN = NaN"

fun plus_f64 :: "f64 \<Rightarrow> f64 \<Rightarrow> f64" where
  "Fin a + Fin b = rnd64 (a + b)"
| "NaN + y = NaN"
| "x + NaN = NaN"
| "PInf + NInf = NaN"
| "NInf + PInf = NaN"
| "PInf + y = PInf"
| "NInf + y = NInf"
| "x + PInf = PInf"
| "x + NInf = NInf"

definition minus_f64 :: "f64 \<Rightarrow> f64 \<Rightarrow> f64" where
  "x - y = x + (- y :: f64)"

fun times_f64 :: "f64 \<Rightarrow> f64 \<Rightarrow> f64" where
  "Fin a * Fin b = rnd64 (a * b)"
| "NaN * y = NaN"
| "x * NaN = NaN"
| "PInf * Fin b = (if b = 0 then NaN else if 0 < b then PInf else NInf)"
| "NInf * Fin b = (if b = 0 then NaN else if 0 < b then NInf else PInf)"
| "Fin a * PInf = (if a = 0 then NaN else if 0 < a then PInf else NInf)"
| "Fin a * NInf = (if a = 0 then NaN else if 0 < a then NInf else PInf)"
| "PInf * PInf = PInf"
| "NInf * NInf = PInf"
| "PInf * NInf = NInf"
| "NInf * PInf = NInf"

fun less_f64 :: "f64 \<Rightarrow> f64 \<Rightarrow> bool" where
  "Fin a < Fin b \<longleftrightarrow> a < b"
| "NaN < y \<longleftrightarrow> False"
| "x < NaN \<longleftrightarrow> False"
| "NInf < NInf \<longleftrightarrow> False"
| "NInf < y \<longleftrightarrow> True"
| "PInf < y \<longleftrightarrow> False"
| "Fin a < PInf \<longleftrightarrow> True"
| "Fin a < NInf \<longleftrightarrow> False"

definition less_eq_f64 :: "f64 \<Rightarrow> f64 \<Rightarrow> bool" where
  "x \<le> y \<longleftrightarrow> x < y \<or> (x = y \<and> x \<noteq> NaN)"

instance ..

end

text \<open>Go's \<open>==\<close> on floats.\<close>

definition feq :: "f64 \<Rightarrow> f64 \<Rightarrow> bool" where
  "feq x y \<longleftrightarrow> x = y \<and> x \<noteq> NaN"

section \<open>Conversions\<close>

definition f64_of_int :: "int \<Rightarrow> f64" where
  "f64_of_int n = rnd64 (of_int n)"

definition trunc_rat :: "rat \<Rightarrow> int" where
  "trunc_rat r = (if 0 \<le> r then \<lfloor>r\<rfloor> else - \<lfloor>- r\<rfloor>)"

text \<open>
  \<open>int64(x)\<close> truncates towards zero; out of range (and for infinities and NaN) the result is
  the smallest value, which is what the amd64 instruction returns.
\<close>

fun int64_of_f64 :: "f64 \<Rightarrow> int" where
  "int64_of_f64 (Fin r) = (if is_int64 (trunc_rat r) then trunc_rat r else - 9223372036854775808)"
| "int64_of_f64 _ = - 9223372036854775808"

text \<open>Go's truncated division on \<open>int\<close>.\<close>

definition quot :: "int \<Rightarrow> int \<Rightarrow> int" where
  "quot a b = sgn a * sgn b * (\<bar>a\<bar> div \<bar>b\<bar>)"

text \<open>\<open>time.Duration.Seconds\<close>: whole seconds and nanoseconds are converted separately.\<close>

definition seconds :: "int \<Rightarrow> f64" where
  "seconds d =
     (let sec = quot d 1000000000; nsec = d - sec * 1000000000
      in f64_of_int sec + rnd64 (of_int nsec / 1000000000))"

section \<open>Order\<close>

lemma f64_less_irrefl [simp]: "\<not> (x :: f64) < x"
  by (cases x) simp_all

lemma f64_less_trans: "(x :: f64) < y \<Longrightarrow> y < z \<Longrightarrow> x < z"
  by (cases x; cases y; cases z) auto

lemma f64_less_asym: "(x :: f64) < y \<Longrightarrow> \<not> y < x"
  using f64_less_trans f64_less_irrefl by blast

lemma f64_less_linear: "x \<noteq> NaN \<Longrightarrow> y \<noteq> NaN \<Longrightarrow> (x :: f64) < y \<or> x = y \<or> y < x"
  by (cases x; cases y) auto

lemma f64_NaN_less [simp]: "\<not> NaN < (y :: f64)" "\<not> (x :: f64) < NaN"
  by (cases y; simp) (cases x; simp)

lemma f64_zero_less_Fin [simp]: "(0 :: f64) < Fin r \<longleftrightarrow> 0 < r"
  by (simp add: zero_f64_def)

lemma f64_less_eq_Fin [simp]: "Fin a \<le> Fin b \<longleftrightarrow> a \<le> b"
  by (auto simp: less_eq_f64_def)

section \<open>Rounding facts\<close>

lemma pow2_pos [simp]: "0 < pow2 e"
  by (simp add: pow2_def)

lemma ulp_pos [simp]: "0 < ulp x"
  by (simp add: ulp_def)

lemma round_half_even_nonneg: "0 \<le> y \<Longrightarrow> 0 \<le> round_half_even y"
  by (auto simp: round_half_even_def Let_def)

lemma round_half_even_of_int [simp]: "round_half_even (of_int n) = n"
  by (simp add: round_half_even_def)

text \<open>Rounding keeps the sign: a sum or product of non-negative numbers is not negative.\<close>

definition nonneg :: "f64 \<Rightarrow> bool" where
  "nonneg x \<longleftrightarrow> (case x of Fin r \<Rightarrow> 0 \<le> r | PInf \<Rightarrow> True | _ \<Rightarrow> False)"

lemma nonneg_simps [simp]: "nonneg (Fin r) \<longleftrightarrow> 0 \<le> r" "nonneg PInf" "\<not> nonneg NInf" "\<not> nonneg NaN"
  by (simp_all add: nonneg_def)

lemma rnd64_nonneg: "0 \<le> x \<Longrightarrow> nonneg (rnd64 x)"
proof -
  assume "0 \<le> x"
  then have "0 \<le> x / ulp x" by (simp add: divide_nonneg_pos)
  then have "(0::rat) \<le> of_int (round_half_even (x / ulp x)) * ulp x"
    by (intro mult_nonneg_nonneg) (auto simp: round_half_even_nonneg less_imp_le)
  then show ?thesis by (auto simp: rnd64_def Let_def)
qed

lemma plus_nonneg: "nonneg x \<Longrightarrow> nonneg y \<Longrightarrow> nonneg (x + y :: f64)"
  by (cases x; cases y) (auto intro: rnd64_nonneg)

lemma times_nonneg_Fin: "nonneg (Fin a) \<Longrightarrow> nonneg (Fin b) \<Longrightarrow> nonneg (Fin a * Fin b)"
  by (simp add: rnd64_nonneg)

lemma nonneg_not_less: "nonneg x \<Longrightarrow> \<not> x < (0 :: f64)"
  by (cases x) (auto simp: zero_f64_def)

text \<open>The result of a comparison with a finite number pins a value down.\<close>

lemma Fin_le_cases: "Fin a \<le> x \<Longrightarrow> (\<exists>r. x = Fin r \<and> a \<le> r) \<or> x = PInf"
  by (cases x) (auto simp: less_eq_f64_def)

text \<open>Integers of at most 53 bits are represented exactly.\<close>

lemma bit_length_le: "n < 2 ^ k \<Longrightarrow> bit_length n \<le> int k"
proof (induction k arbitrary: n)
  case 0
  then show ?case by (simp add: bit_length.simps [of n])
next
  case (Suc k)
  then have "n div 2 < 2 ^ k" by simp
  then have "bit_length (n div 2) \<le> int k" by (rule Suc.IH)
  then show ?case by (simp add: bit_length.simps [of n])
qed

lemma bit_length_one: "bit_length 1 = 1"
  by (simp add: bit_length.simps)

lemma binade_of_int_le:
  assumes "0 < n" and "n < 2 ^ 53"
  shows "binade (of_int n) \<le> 52"
proof -
  have "quotient_of (of_int n) = (n, 1)"
    using quotient_of_int [of n] by (simp add: Rat.of_int_def)
  moreover have "bit_length n \<le> 53"
    using bit_length_le [of n 53] assms by simp
  ultimately show ?thesis by (auto simp: binade_def Let_def bit_length_one)
qed

lemma div_pow2: "e \<le> 0 \<Longrightarrow> x / pow2 e = x * 2 ^ nat (- e)"
  by (cases "e = 0") (simp_all add: pow2_def)

lemma rnd64_exact:
  assumes "x / ulp x = of_int k" and "binade \<bar>x\<bar> < 1024"
  shows "rnd64 x = Fin x"
proof -
  have "of_int k * ulp x = x"
    using assms(1) ulp_pos [of x] by (simp add: field_simps)
  then show ?thesis
    using assms by (auto simp: rnd64_def Let_def)
qed

text \<open>Rounding again changes nothing: the result of a rounding is a double.\<close>

lemma pow2_powi: "pow2 e = 2 powi e"
  by (simp add: pow2_def power_int_def power_inverse inverse_eq_divide power_one_over)

lemma pow2_add: "pow2 (a + b) = pow2 a * pow2 b"
  by (simp add: pow2_powi power_int_add)

lemma pow2_less: "pow2 a < pow2 b \<longleftrightarrow> a < b"
  unfolding pow2_powi by (metis linorder_neqE_linordered_idom less_irrefl one_less_numeral_iff order_less_asym power_int_strict_increasing semiring_norm(76))

lemma pow2_le: "pow2 a \<le> pow2 b \<longleftrightarrow> a \<le> b"
  using pow2_less [of b a] by (simp add: not_less [symmetric])

lemma pow2_Suc: "pow2 (a + 1) = 2 * pow2 a"
  by (simp add: pow2_add) (simp add: pow2_def)

lemma pow2_53: "pow2 (m + 1) = 2 ^ 53 * pow2 (m - 52)"
proof -
  have "pow2 53 = 2 ^ 53" by (simp add: pow2_def)
  then show ?thesis using pow2_add [of 53 "m - 52"] by (simp add: add.commute)
qed

lemma bit_length_bounds:
  "0 < n \<Longrightarrow> 1 \<le> bit_length n \<and> 2 ^ nat (bit_length n - 1) \<le> n \<and> n < 2 ^ nat (bit_length n)"
proof (induction n rule: bit_length.induct)
  case (1 n)
  have bl: "bit_length n = bit_length (n div 2) + 1" using 1(2) by (subst bit_length.simps) simp
  show ?case
  proof (cases "n div 2 = 0")
    case True
    then have "n = 1" using 1 by linarith
    then show ?thesis by (simp add: bit_length_one)
  next
    case False
    define k where "k = bit_length (n div 2)"
    have k: "1 \<le> k" "2 ^ nat (k - 1) \<le> n div 2" "n div 2 < 2 ^ nat k"
      using 1 False unfolding k_def by auto
    have "nat k = Suc (nat (k - 1))" "nat (k + 1) = Suc (nat k)" using k(1) by auto
    then show ?thesis using k bl unfolding k_def [symmetric] by simp linarith
  qed
qed

lemma of_int_pow2: "0 \<le> e \<Longrightarrow> of_int (2 ^ nat e) = pow2 e"
  by (simp add: pow2_def)

lemma bit_length_pow2:
  assumes "0 < n"
  shows "pow2 (bit_length n - 1) \<le> of_int n" and "of_int n < pow2 (bit_length n)"
proof -
  have b: "0 \<le> bit_length n - 1" "0 \<le> bit_length n" "2 ^ nat (bit_length n - 1) \<le> n" "n < 2 ^ nat (bit_length n)"
    using bit_length_bounds [OF assms] by auto
  show "pow2 (bit_length n - 1) \<le> of_int n"
    unfolding of_int_pow2 [OF b(1), symmetric] of_int_le_iff by (rule b(3))
  show "of_int n < pow2 (bit_length n)"
    unfolding of_int_pow2 [OF b(2), symmetric] of_int_less_iff by (rule b(4))
qed

lemma binade_bounds:
  assumes "0 < x"
  shows "pow2 (binade x) \<le> x" and "x < pow2 (binade x + 1)"
proof -
  obtain p q where q: "quotient_of x = (p, q)" by fastforce
  have x: "x = of_int p / of_int q" "0 < q" using quotient_of_div [OF q] quotient_of_denom_pos [OF q] by auto
  then have p: "0 < p" using assms by (simp add: zero_less_divide_iff)
  let ?e = "bit_length p - bit_length q"
  have bp: "pow2 (bit_length p - 1) \<le> of_int p" "of_int p < pow2 (bit_length p)"
  and bq: "pow2 (bit_length q - 1) \<le> of_int q" "of_int q < pow2 (bit_length q)"
    using bit_length_pow2 p x(2) by auto
  have "pow2 (?e - 1) * of_int q \<le> pow2 (?e - 1) * pow2 (bit_length q)" using bq by simp
  also have "\<dots> = pow2 (bit_length p - 1)" by (simp add: pow2_add [symmetric])
  finally have "pow2 (?e - 1) * of_int q \<le> of_int p" using bp(1) by linarith
  then have lo: "pow2 (?e - 1) \<le> x" unfolding x(1) using x(2) by (subst pos_le_divide_eq) simp_all
  have "pow2 (bit_length p) = pow2 (?e + 1) * pow2 (bit_length q - 1)" by (simp add: pow2_add [symmetric])
  also have "\<dots> \<le> pow2 (?e + 1) * of_int q" using bq by simp
  finally have "of_int p < pow2 (?e + 1) * of_int q" using bp(2) by simp
  then have hi: "x < pow2 (?e + 1)" unfolding x(1) using x(2) by (subst pos_divide_less_eq) simp_all
  have b: "binade x = (if pow2 ?e \<le> x then ?e else ?e - 1)" by (simp add: binade_def q Let_def)
  show "pow2 (binade x) \<le> x" "x < pow2 (binade x + 1)" using lo hi by (auto simp: b)
qed

lemma binade_le: "0 < x \<Longrightarrow> x < pow2 (e + 1) \<Longrightarrow> binade x \<le> e"
  using binade_bounds(1) [of x] pow2_less [of "binade x" "e + 1"] by simp

lemma round_half_even_le: "y \<le> of_int k \<Longrightarrow> round_half_even y \<le> k"
proof -
  assume y: "y \<le> of_int k"
  show ?thesis
  proof (cases "y = of_int k")
    case False
    then have "\<lfloor>y\<rfloor> < k" using y by (simp add: floor_less_iff)
    then show ?thesis by (auto simp: round_half_even_def Let_def)
  qed simp
qed

lemma round_half_even_ge: "of_int k \<le> y \<Longrightarrow> k \<le> round_half_even y"
  using le_floor_iff [of k y] by (auto simp: round_half_even_def Let_def)

lemma pow2_diff_int: "a \<le> b \<Longrightarrow> pow2 b / pow2 a = of_int (2 ^ nat (b - a))"
  using of_int_pow2 [of "b - a"] pow2_add [of "b - a" a] pow2_pos [of a] by (simp add: less_imp_neq [symmetric])

lemma rnd64_idem: "rnd64 x = Fin r \<Longrightarrow> rnd64 r = Fin r"
proof (cases "x = 0 \<or> r = 0")
  case True
  assume "rnd64 x = Fin r"
  then show ?thesis using True by (auto simp: rnd64_def)
next
  case False
  assume eq: "rnd64 x = Fin r"
  define m where "m = max (binade \<bar>x\<bar>) (- 1022)"
  define k where "k = round_half_even (x / ulp x)"
  have u: "ulp x = pow2 (m - 52)" by (simp add: ulp_def m_def)
  have r: "r = of_int k * pow2 (m - 52)" and fin: "binade \<bar>r\<bar> < 1024"
    using eq False by (auto simp: rnd64_def Let_def k_def u split: if_splits)
  have xm: "\<bar>x\<bar> < pow2 (m + 1)"
    using binade_bounds(2) [of "\<bar>x\<bar>"] False pow2_le [of "binade \<bar>x\<bar> + 1" "m + 1"] by (simp add: m_def)
  then have "\<bar>x\<bar> < of_int (2 ^ 53) * pow2 (m - 52)" by (simp add: pow2_53)
  then have "x \<le> of_int (2 ^ 53) * pow2 (m - 52)" "of_int (- (2 ^ 53)) * pow2 (m - 52) \<le> x"
    by (simp_all add: abs_less_iff)
  then have "x / ulp x \<le> of_int (2 ^ 53)" "of_int (- (2 ^ 53)) \<le> x / ulp x"
    unfolding u by (simp_all only: pos_divide_le_eq pos_le_divide_eq pow2_pos)
  from round_half_even_le [OF this(1)] round_half_even_ge [OF this(2)]
  have k: "k \<le> 2 ^ 53" "- (2 ^ 53) \<le> k" unfolding k_def by simp_all
  define m' where "m' = max (binade \<bar>r\<bar>) (- 1022)"
  have ur: "ulp r = pow2 (m' - 52)" by (simp add: ulp_def m'_def)
  have int: "\<exists>j. r / ulp r = of_int j" if "r = of_int a * pow2 e" "m' - 52 \<le> e" for a e
  proof -
    have "r / ulp r = of_int a * (pow2 e / pow2 (m' - 52))" using that(1) ur by simp
    also have "\<dots> = of_int (a * 2 ^ nat (e - (m' - 52)))" using pow2_diff_int [OF that(2)] by simp
    finally show ?thesis by blast
  qed
  have r0: "0 < \<bar>r\<bar>" using False by simp
  have "\<exists>j. r / ulp r = of_int j"
  proof (cases "\<bar>k\<bar> = 2 ^ 53")
    case True
    have "k = sgn k * 2 ^ 53" using True by (metis sgn_mult_abs)
    then have k': "of_int k = of_int (sgn k) * (2 ^ 53 :: rat)" by (metis of_int_mult of_int_numeral of_int_power)
    have e: "r = of_int (sgn k) * pow2 (m + 1)" unfolding r pow2_53 k' by simp
    then have "\<bar>r\<bar> < pow2 (m + 1 + 1)"
      using True pow2_less [of "m + 1" "m + 1 + 1"] pow2_pos [of "m + 1"]
      by (auto simp: abs_mult sgn_if abs_of_pos simp del: pow2_pos)
    then have "m' \<le> m + 1" using binade_le [OF r0, of "m + 1"] by (simp add: m'_def m_def)
    then show ?thesis by (intro int [OF e]) simp
  next
    case False
    then have "\<bar>k\<bar> < 2 ^ 53" using k by linarith
    then have "\<bar>of_int k :: rat\<bar> < 2 ^ 53"
      by (metis of_int_abs of_int_less_iff of_int_numeral of_int_power)
    then have "\<bar>r\<bar> < 2 ^ 53 * pow2 (m - 52)" unfolding r by (simp add: abs_mult abs_of_pos [OF pow2_pos])
    also have "\<dots> = pow2 (m + 1)" by (simp add: pow2_53)
    finally have "\<bar>r\<bar> < pow2 (m + 1)" .
    then have "m' \<le> m" using binade_le [OF r0, of m] by (simp add: m'_def m_def)
    then show ?thesis by (intro int [OF r]) simp
  qed
  then show ?thesis using rnd64_exact fin by blast
qed

lemma rnd64_of_int:
  assumes "\<bar>n\<bar> < 2 ^ 53"
  shows "rnd64 (of_int n) = Fin (of_int n)"
proof (cases "n = 0")
  case True
  then show ?thesis by (simp add: rnd64_def)
next
  case False
  let ?e = "max (binade \<bar>of_int n :: rat\<bar>) (- 1022) - 52"
  have bl: "binade (of_int \<bar>n\<bar>) \<le> 52"
    using False assms by (intro binade_of_int_le) auto
  then have "?e \<le> 0" by simp
  then have "(of_int n :: rat) / ulp (of_int n) = of_int (n * 2 ^ nat (- ?e))"
    unfolding ulp_def by (simp add: div_pow2)
  moreover have "binade \<bar>of_int n :: rat\<bar> < 1024"
    using bl by simp
  ultimately show ?thesis by (rule rnd64_exact)
qed

lemma plus_f64_int: "\<bar>a + b\<bar> < 2 ^ 53 \<Longrightarrow> Fin (of_int a) + Fin (of_int b) = Fin (of_int (a + b))"
  using rnd64_of_int [of "a + b"] by simp

lemma times_f64_int: "\<bar>a * b\<bar> < 2 ^ 53 \<Longrightarrow> Fin (of_int a) * Fin (of_int b) = Fin (of_int (a * b))"
  using rnd64_of_int [of "a * b"] by simp

lemma f64_of_int32: "is_int32 n \<Longrightarrow> f64_of_int n = Fin (of_int n)"
  unfolding f64_of_int_def by (rule rnd64_of_int) (auto simp: is_int32_def)

lemma f64_of_int_zero [simp]: "f64_of_int 0 = 0"
  by (simp add: f64_of_int_def rnd64_def zero_f64_def)

lemma seconds_nonneg: "0 \<le> d \<Longrightarrow> nonneg (seconds d)"
proof -
  assume "0 \<le> d"
  then have "quot d 1000000000 = d div 1000000000"
    by (auto simp: quot_def sgn_if)
  then have "seconds d = f64_of_int (d div 1000000000) +
      rnd64 (of_int (d - d div 1000000000 * 1000000000) / 1000000000)"
    by (simp only: seconds_def Let_def)
  also have "d - d div 1000000000 * 1000000000 = d mod 1000000000"
    by (simp add: minus_div_mult_eq_mod)
  finally have "seconds d = f64_of_int (d div 1000000000) + rnd64 (of_int (d mod 1000000000) / 1000000000)" .
  moreover have "nonneg (f64_of_int (d div 1000000000))"
    using \<open>0 \<le> d\<close> by (simp add: f64_of_int_def rnd64_nonneg pos_imp_zdiv_nonneg_iff)
  moreover have "nonneg (rnd64 (of_int (d mod 1000000000) / 1000000000))"
    by (simp add: rnd64_nonneg)
  ultimately show ?thesis by (simp add: plus_nonneg)
qed

end
