(* ===== verification/Json.thy ===== *)
theory Json
  imports Float64
begin

text \<open>
  The values that travel through RabbitMQ and the outbox table. \<open>encoding/json\<close> is
  modelled on trees: a tree stands for the text \<open>json.Marshal\<close> emits for it, so the
  models below say which fields are written, which are read back, what a missing field
  becomes (Go's zero value) and when decoding fails (a value of the wrong kind). Field names are
  matched exactly, as every producer of the repository writes them.
\<close>

datatype json =
    JNull
  | JBool bool
  | JNum rat
  | JStr string
  | JTime int \<comment> \<open>the RFC 3339 string of a \<open>time.Time\<close>, here its Unix nanoseconds\<close>
  | JArr "json list"
  | JObj "(string \<times> json) list"

section \<open>Encoding\<close>

text \<open>\<open>json.Marshal\<close> refuses NaN and the infinities.\<close>

fun enc_f64 :: "f64 \<Rightarrow> json option" where
  "enc_f64 (Fin r) = Some (JNum r)"
| "enc_f64 _ = None"

definition enc_int :: "int \<Rightarrow> json" where
  "enc_int n = JNum (of_int n)"

fun enc_all :: "('a \<Rightarrow> json option) \<Rightarrow> 'a list \<Rightarrow> json list option" where
  "enc_all f [] = Some []"
| "enc_all f (x # xs) =
     (case f x of None \<Rightarrow> None
      | Some j \<Rightarrow> (case enc_all f xs of None \<Rightarrow> None | Some js \<Rightarrow> Some (j # js)))"

text \<open>A nil slice is written as \<open>null\<close>; the model's empty list is the nil slice.\<close>

definition enc_list :: "('a \<Rightarrow> json option) \<Rightarrow> 'a list \<Rightarrow> json option" where
  "enc_list f xs = (if xs = [] then Some JNull else map_option JArr (enc_all f xs))"

section \<open>Decoding\<close>

text \<open>
  A field that is absent or \<open>null\<close> leaves the destination at the value it has (the zero
  value here); a value of another kind is an error.
\<close>

definition jfield :: "string \<Rightarrow> (string \<times> json) list \<Rightarrow> json" where
  "jfield k fs = (case map_of (rev fs) k of None \<Rightarrow> JNull | Some v \<Rightarrow> v)"

fun dec_int :: "json \<Rightarrow> int option" where
  "dec_int JNull = Some 0"
| "dec_int (JNum r) = (if of_int \<lfloor>r\<rfloor> = r \<and> is_int64 \<lfloor>r\<rfloor> then Some \<lfloor>r\<rfloor> else None)"
| "dec_int _ = None"

text \<open>A number beyond the range of \<open>float64\<close> is an error; any other is rounded.\<close>

fun dec_f64 :: "json \<Rightarrow> f64 option" where
  "dec_f64 JNull = Some 0"
| "dec_f64 (JNum r) = (case rnd64 r of Fin x \<Rightarrow> Some (Fin x) | _ \<Rightarrow> None)"
| "dec_f64 _ = None"

fun dec_bool :: "json \<Rightarrow> bool option" where
  "dec_bool JNull = Some False"
| "dec_bool (JBool b) = Some b"
| "dec_bool _ = None"

fun dec_str :: "json \<Rightarrow> string option" where
  "dec_str JNull = Some []"
| "dec_str (JStr s) = Some s"
| "dec_str _ = None"

text \<open>The zero \<open>time.Time\<close>, year 1, in Unix nanoseconds.\<close>

definition zero_time :: int where
  "zero_time = - 62135596800000000000"

fun dec_time :: "json \<Rightarrow> int option" where
  "dec_time JNull = Some zero_time"
| "dec_time (JTime t) = Some t"
| "dec_time _ = None"

fun dec_all :: "(json \<Rightarrow> 'a option) \<Rightarrow> json list \<Rightarrow> 'a list option" where
  "dec_all f [] = Some []"
| "dec_all f (x # xs) =
     (case f x of None \<Rightarrow> None
      | Some a \<Rightarrow> (case dec_all f xs of None \<Rightarrow> None | Some as \<Rightarrow> Some (a # as)))"

fun dec_list :: "(json \<Rightarrow> 'a option) \<Rightarrow> json \<Rightarrow> 'a list option" where
  "dec_list f JNull = Some []"
| "dec_list f (JArr xs) = dec_all f xs"
| "dec_list f _ = None"

section \<open>Round trips\<close>

text \<open>A double that survives the printed form: rounding its value gives it back.\<close>

definition f64_ok :: "f64 \<Rightarrow> bool" where
  "f64_ok x \<longleftrightarrow> (case x of Fin r \<Rightarrow> rnd64 r = Fin r | _ \<Rightarrow> False)"

lemma f64_ok_Fin: "f64_ok x \<longleftrightarrow> (\<exists>r. x = Fin r \<and> rnd64 r = Fin r)"
  by (cases x) (simp_all add: f64_ok_def)

lemma f64_ok_zero [simp]: "f64_ok 0" "f64_ok (Fin 0)"
  by (simp_all add: f64_ok_def zero_f64_def rnd64_def)

lemma f64_ok_rnd64: "rnd64 x = Fin r \<Longrightarrow> f64_ok (Fin r)"
  by (simp add: f64_ok_def rnd64_idem)

lemma dec_enc_int: "is_int64 n \<Longrightarrow> dec_int (enc_int n) = Some n"
  by (simp add: enc_int_def)

lemma enc_f64_Some: "f64_ok x \<Longrightarrow> \<exists>j. enc_f64 x = Some j \<and> dec_f64 j = Some x"
  by (auto simp: f64_ok_Fin)

lemma dec_enc_all:
  "(\<And>x. x \<in> set xs \<Longrightarrow> \<exists>j. f x = Some j \<and> g j = Some x) \<Longrightarrow>
   \<exists>js. enc_all f xs = Some js \<and> dec_all g js = Some xs"
proof (induction xs)
  case Nil
  then show ?case by simp
next
  case (Cons x xs)
  then obtain js where "enc_all f xs = Some js" "dec_all g js = Some xs" by auto
  moreover obtain j where "f x = Some j" "g j = Some x"
    using Cons.prems [of x] by auto
  ultimately show ?case by simp
qed

lemma dec_enc_list:
  "(\<And>x. x \<in> set xs \<Longrightarrow> \<exists>j. f x = Some j \<and> g j = Some x) \<Longrightarrow>
   \<exists>j. enc_list f xs = Some j \<and> dec_list g j = Some xs"
  using dec_enc_all [of xs f g] by (auto simp: enc_list_def)

end
