(* ===== verification/Schema.thy ===== *)
theory Schema
  imports Json
begin

text \<open>
  The data model: the structs of \<open>data/models.go\<close> and \<open>data/repository.go\<close>, and the
  database of \<open>bakery.sql\<close> as a record of tables. A table is the list of its rows, in
  insertion order; SQL statements act on it row by row and check the constraints that
  \<open>bakery.sql\<close> declares. PostgreSQL itself is not under \<open>src/\<close>: what the network and the
  server may do to a statement is a schedule of faults in the state, and the conversion of a
  float parameter to a \<open>numeric\<close> column is a function of the environment.
\<close>

section \<open>Structs of the data package\<close>

record Customer =
  c_ID :: int
  c_Name :: string
  c_Email :: string
  c_Password :: string
  c_CreatedAt :: int
  c_UpdatedAt :: int

record Bread =
  b_ID :: int
  b_Name :: string
  b_Price :: f64
  b_Quantity :: int
  b_CreatedAt :: int
  b_UpdatedAt :: int
  b_Image :: string
  b_Description :: string
  b_Type :: string
  b_Status :: string

record OrderItem =
  oi_BreadID :: int
  oi_QuantityRequested :: int
  oi_QuantityFulfilled :: int
  oi_BidPrice :: f64
  oi_Status :: string

record BuyOrder =
  o_ID :: int
  o_CustomerID :: int
  o_BuyOrderUUID :: string
  o_Customer :: Customer
  o_Breads :: "Bread list"
  o_Status :: string
  o_SequenceNumber :: int
  o_BidPrice :: f64
  o_AllowPartial :: bool
  o_SkipUnavailableItems :: bool
  o_MatchedItems :: "OrderItem list"
  o_CreatedAt :: int
  o_UpdatedAt :: int

record BreadMaker =
  m_ID :: int
  m_Name :: string
  m_Email :: string
  m_CreatedAt :: int
  m_UpdatedAt :: int

record MakeOrder =
  mo_ID :: int
  mo_BreadMakerID :: int
  mo_MakeOrderUUID :: string
  mo_Breads :: "Bread list"
  mo_CreatedAt :: int
  mo_UpdatedAt :: int

record OutboxMessage =
  om_ID :: int
  om_Payload :: json
  om_Sent :: bool
  om_CreatedAt :: int

record PendingMakeOrder =
  p_ID :: int
  p_BreadID :: int
  p_RequestedQuantity :: int
  p_Status :: string
  p_Source :: string
  p_CreatedAt :: int
  p_UpdatedAt :: int

record DashboardStats =
  TotalOrders :: int
  TotalRevenue :: f64
  TotalProducts :: int
  TotalCustomers :: int
  TotalBreadMakers :: int
  LowStockCount :: int

record AdminUser =
  a_ID :: int
  a_Username :: string
  a_Email :: string
  a_Password :: string
  a_Role :: string
  a_CreatedAt :: int
  a_UpdatedAt :: int

record InvoiceItem =
  ii_ID :: int
  ii_InvoiceID :: int
  ii_BreadID :: int
  ii_BreadName :: string
  ii_Quantity :: int
  ii_UnitPrice :: f64
  ii_Total :: f64

record Invoice =
  inv_ID :: int
  inv_BuyOrderID :: int
  inv_CustomerID :: int
  inv_InvoiceNumber :: string
  inv_Subtotal :: f64
  inv_Tax :: f64
  inv_Total :: f64
  inv_Status :: string
  inv_CreatedAt :: int
  inv_DueDate :: int
  inv_PaidAt :: "int option"
  inv_Items :: "InvoiceItem list"

text \<open>Go's zero values, which \<open>var x T\<close> and composite literals start from.\<close>

definition zero_Customer :: Customer where
  "zero_Customer = \<lparr>c_ID = 0, c_Name = [], c_Email = [], c_Password = [],
     c_CreatedAt = zero_time, c_UpdatedAt = zero_time\<rparr>"

definition zero_Bread :: Bread where
  "zero_Bread = \<lparr>b_ID = 0, b_Name = [], b_Price = 0, b_Quantity = 0, b_CreatedAt = zero_time,
     b_UpdatedAt = zero_time, b_Image = [], b_Description = [], b_Type = [], b_Status = []\<rparr>"

definition zero_BuyOrder :: BuyOrder where
  "zero_BuyOrder = \<lparr>o_ID = 0, o_CustomerID = 0, o_BuyOrderUUID = [], o_Customer = zero_Customer,
     o_Breads = [], o_Status = [], o_SequenceNumber = 0, o_BidPrice = 0, o_AllowPartial = False,
     o_SkipUnavailableItems = False, o_MatchedItems = [], o_CreatedAt = zero_time,
     o_UpdatedAt = zero_time\<rparr>"

definition zero_MakeOrder :: MakeOrder where
  "zero_MakeOrder = \<lparr>mo_ID = 0, mo_BreadMakerID = 0, mo_MakeOrderUUID = [], mo_Breads = [],
     mo_CreatedAt = zero_time, mo_UpdatedAt = zero_time\<rparr>"

section \<open>Errors\<close>

datatype db_err =
    DriverError
  | ErrNoRows
  | DataError \<comment> \<open>out of range for the column, or too long\<close>
  | CheckViolation
  | UniqueViolation
  | ForeignKeyViolation
  | ScanError
  | HashError
  | ErrInsufficientStock
  | Wrapped string db_err

text \<open>\<open>errors.Is\<close> looks through the wrapping that \<open>fmt.Errorf\<close> with \<open>%w\<close> adds.\<close>

fun errors_Is :: "db_err \<Rightarrow> db_err \<Rightarrow> bool" where
  "errors_Is (Wrapped m e) t \<longleftrightarrow> Wrapped m e = t \<or> errors_Is e t"
| "errors_Is e t \<longleftrightarrow> e = t"

section \<open>Rows of bakery.sql\<close>

text \<open>A value of a \<open>numeric\<close> column with two fractional digits, in hundredths.\<close>

datatype numeric = Amount int | NumNaN

record bread_row =
  br_id :: int
  br_name :: string
  br_price :: numeric
  br_quantity :: int
  br_description :: string
  br_type :: string
  br_status :: string
  br_created_at :: int
  br_updated_at :: int
  br_image :: "string option"

record bread_maker_row =
  bm_id :: int
  bm_name :: string
  bm_email :: string
  bm_created_at :: int
  bm_updated_at :: int

record make_order_row =
  mk_id :: int
  mk_bread_maker_id :: int
  mk_uuid :: string

record make_detail_row =
  md_make_order_id :: int
  md_bread_id :: int
  md_quantity :: int

record pending_row =
  pd_id :: int
  pd_bread_id :: int
  pd_requested_quantity :: int
  pd_status :: string
  pd_source :: string
  pd_created_at :: int
  pd_updated_at :: int

record customer_row =
  cu_id :: int
  cu_name :: string
  cu_email :: string
  cu_password :: string
  cu_created_at :: int
  cu_updated_at :: int

record buy_order_row =
  bo_id :: int
  bo_customer_id :: int
  bo_uuid :: string
  bo_status :: string

record order_detail_row =
  od_buy_order_id :: int
  od_bread_id :: int
  od_quantity :: int
  od_price :: numeric
  od_status :: string
  od_created_at :: int
  od_updated_at :: int

record outbox_row =
  ob_id :: int
  ob_payload :: json
  ob_sent :: bool
  ob_created_at :: int

record admin_row =
  ad_id :: int
  ad_username :: string
  ad_email :: string
  ad_password :: string
  ad_role :: string
  ad_created_at :: int
  ad_updated_at :: int

record invoice_row =
  iv_id :: int
  iv_buy_order_id :: int
  iv_customer_id :: int
  iv_number :: string
  iv_subtotal :: numeric
  iv_tax :: numeric
  iv_total :: numeric
  iv_status :: string
  iv_created_at :: int
  iv_due_date :: int
  iv_paid_at :: "int option"

record invoice_item_row =
  it_id :: int
  it_invoice_id :: int
  it_bread_id :: int
  it_bread_name :: string
  it_quantity :: int
  it_unit_price :: numeric
  it_total :: numeric

section \<open>The database\<close>

datatype seq_name = BreadSeq | MakerSeq | MakeSeq | PendingSeq | CustomerSeq | BuySeq
  | OutboxSeq | AdminSeq | InvoiceSeq | ItemSeq

text \<open>
  What may happen to a statement: it is lost before the server runs it, the reply is lost
  after it ran, or the connection breaks after some rows of a result were delivered.
\<close>

datatype fault = NoFault | LostRequest | LostReply | CutAfter nat

record db =
  bread_t :: "bread_row list"
  bread_maker_t :: "bread_maker_row list"
  make_order_t :: "make_order_row list"
  make_details_t :: "make_detail_row list"
  pending_t :: "pending_row list"
  customer_t :: "customer_row list"
  buy_order_t :: "buy_order_row list"
  order_details_t :: "order_detail_row list"
  outbox_t :: "outbox_row list"
  admin_t :: "admin_row list"
  invoice_t :: "invoice_row list"
  invoice_items_t :: "invoice_item_row list"
  seqs :: "seq_name \<Rightarrow> int"
  now :: int
  faults :: "fault list"
  to_numeric :: "nat \<Rightarrow> f64 \<Rightarrow> numeric option"

type_synonym 'a repo = "(db, db_err, 'a) proc"

section \<open>Statements\<close>

text \<open>\<open>QueryRow\<close> and \<open>Exec\<close>: one round trip, with the next fault of the schedule.\<close>

definition stmt :: "'a repo \<Rightarrow> 'a repo" where
  "stmt f = (\<lambda>s. case faults s of
       [] \<Rightarrow> f s
     | g # gs \<Rightarrow>
         (let t = s\<lparr>faults := gs\<rparr> in
          case g of
            NoFault \<Rightarrow> f t
          | LostRequest \<Rightarrow> (Inl DriverError, t)
          | LostReply \<Rightarrow> (Inl DriverError, snd (f t))
          | CutAfter n \<Rightarrow> (Inl DriverError, snd (f t))))"

text \<open>
  \<open>Query\<close> and the loop over \<open>rows.Next()\<close>: the rows that arrived, and whether
  \<open>rows.Err()\<close> is set after the loop because the connection broke.
\<close>

definition query_rows :: "(db \<Rightarrow> 'r list) \<Rightarrow> ('r list \<times> bool) repo" where
  "query_rows f = (\<lambda>s. case faults s of
       [] \<Rightarrow> (Inr (f s, False), s)
     | g # gs \<Rightarrow>
         (let t = s\<lparr>faults := gs\<rparr> in
          case g of
            NoFault \<Rightarrow> (Inr (f t, False), t)
          | LostRequest \<Rightarrow> (Inl DriverError, t)
          | LostReply \<Rightarrow> (Inl DriverError, t)
          | CutAfter n \<Rightarrow> (Inr (take n (f t), n < length (f t)), t)))"

text \<open>\<open>QueryRow(...).Scan\<close>: the first row, or \<open>sql.ErrNoRows\<close>.\<close>

definition query_row :: "(db \<Rightarrow> 'r list) \<Rightarrow> 'r repo" where
  "query_row f = stmt (\<lambda>s. case f s of [] \<Rightarrow> (Inl ErrNoRows, s) | r # rs \<Rightarrow> (Inr r, s))"

definition nextval :: "seq_name \<Rightarrow> int repo" where
  "nextval n = (\<lambda>s. (Inr (seqs s n), s\<lparr>seqs := (seqs s)(n := seqs s n + 1)\<rparr>))"

text \<open>\<open>check c\<close> rejects the statement with the first constraint that fails.\<close>

definition check :: "(db \<Rightarrow> db_err option) \<Rightarrow> unit repo" where
  "check c = (\<lambda>s. case c s of None \<Rightarrow> (Inr (), s) | Some e \<Rightarrow> (Inl e, s))"

text \<open>A write that is refused when a constraint fails.\<close>

definition guarded :: "(db \<Rightarrow> db_err option) \<Rightarrow> (db \<Rightarrow> db) \<Rightarrow> unit repo" where
  "guarded c f = (\<lambda>s. case c s of None \<Rightarrow> (Inr (), f s) | Some e \<Rightarrow> (Inl e, s))"

section \<open>Transactions\<close>

text \<open>
  A rollback gives the tables back; sequences are not transactional, and neither are the clock
  and the schedule of faults.
\<close>

definition rollback :: "db \<Rightarrow> db \<Rightarrow> db" where
  "rollback s0 s = s0\<lparr>seqs := seqs s, now := now s, faults := faults s\<rparr>"

text \<open>
  \<open>BeginTx\<close>, the body, \<open>Commit\<close>, with the deferred \<open>Rollback\<close> on every error. The
  first argument says what a rollback restores; the next two wrap the errors of
  \<open>BeginTx\<close> and of \<open>Commit\<close>. When the reply to
  \<open>Commit\<close> is lost the caller sees an error although the transaction took effect.
\<close>

definition transaction_with ::
  "(db \<Rightarrow> db \<Rightarrow> db) \<Rightarrow> (db_err \<Rightarrow> 'e) \<Rightarrow> (db_err \<Rightarrow> 'e) \<Rightarrow> (db, 'e, 'a) proc \<Rightarrow> (db, 'e, 'a) proc" where
  "transaction_with rb wb wc body = (\<lambda>s.
     case stmt (ret ()) s of
       (Inl e, s1) \<Rightarrow> (Inl (wb e), s1)
     | (Inr u, s1) \<Rightarrow>
         (case body s1 of
            (Inl e, s2) \<Rightarrow> (Inl e, rb s1 s2)
          | (Inr a, s2) \<Rightarrow>
              (case faults s2 of
                 [] \<Rightarrow> (Inr a, s2)
               | g # gs \<Rightarrow>
                   (let t = s2\<lparr>faults := gs\<rparr> in
                    case g of
                      NoFault \<Rightarrow> (Inr a, t)
                    | LostRequest \<Rightarrow> (Inl (wc DriverError), rb s1 t)
                    | LostReply \<Rightarrow> (Inl (wc DriverError), t)
                    | CutAfter n \<Rightarrow> (Inl (wc DriverError), t)))))"

definition transaction ::
  "(db_err \<Rightarrow> 'e) \<Rightarrow> (db_err \<Rightarrow> 'e) \<Rightarrow> (db, 'e, 'a) proc \<Rightarrow> (db, 'e, 'a) proc" where
  "transaction = transaction_with rollback"

section \<open>Invariants of the tables\<close>

text \<open>A predicate on the tables does not look at sequences, the clock or the faults.\<close>

definition table_pred :: "(db \<Rightarrow> bool) \<Rightarrow> bool" where
  "table_pred I \<longleftrightarrow> (\<forall>s q n f. I (s\<lparr>seqs := q, now := n, faults := f\<rparr>) = I s)"

lemma table_pred_faults: "table_pred I \<Longrightarrow> I (s\<lparr>faults := f\<rparr>) = I s"
proof -
  assume "table_pred I"
  then have "I (s\<lparr>seqs := seqs s, now := now s, faults := f\<rparr>) = I s"
    unfolding table_pred_def by blast
  then show ?thesis by simp
qed

lemma table_pred_seqs: "table_pred I \<Longrightarrow> I (s\<lparr>seqs := q\<rparr>) = I s"
proof -
  assume "table_pred I"
  then have "I (s\<lparr>seqs := q, now := now s, faults := faults s\<rparr>) = I s"
    unfolding table_pred_def by blast
  then show ?thesis by simp
qed

lemma table_pred_rollback: "table_pred I \<Longrightarrow> I (rollback s0 s) = I s0"
  by (simp add: table_pred_def rollback_def)

lemma keeps_stmt [keeps_intros]: "table_pred I \<Longrightarrow> keeps I f \<Longrightarrow> keeps I (stmt f)"
  by (auto simp: keeps_def stmt_def Let_def table_pred_faults split: list.split fault.split)

lemma keeps_query_rows [keeps_intros]: "table_pred I \<Longrightarrow> keeps I (query_rows f)"
  by (auto simp: keeps_def query_rows_def Let_def table_pred_faults split: list.split fault.split)

lemma keeps_query_row [keeps_intros]: "table_pred I \<Longrightarrow> keeps I (query_row f)"
  unfolding query_row_def
  by (rule keeps_stmt) (auto simp: keeps_def split: list.split)

lemma keeps_nextval [keeps_intros]: "table_pred I \<Longrightarrow> keeps I (nextval n)"
  by (simp add: keeps_def nextval_def table_pred_seqs)

lemma keeps_check [keeps_intros]: "keeps I (check c)"
  by (auto simp: keeps_def check_def split: option.split)

lemma keeps_transaction_with:
  assumes "table_pred I" and "keeps I body" and "\<And>s t. I s \<Longrightarrow> I t \<Longrightarrow> I (rb s t)"
  shows "keeps I (transaction_with rb wb wc body)"
proof (rule keepsI)
  fix s assume "I s"
  have "keeps I (stmt (ret ()))"
    using assms(1) by (intro keeps_intros)
  with \<open>I s\<close> have 1: "I (snd (stmt (ret ()) s))" by (simp add: keepsD)
  obtain r s1 where r: "stmt (ret ()) s = (r, s1)" by (cases "stmt (ret ()) s")
  with 1 have "I s1" by simp
  then have "I (snd (body s1))" using assms(2) by (rule keepsD[rotated])
  with r \<open>I s1\<close> show "I (snd (transaction_with rb wb wc body s))"
    by (auto simp: transaction_with_def Let_def table_pred_faults assms(1,3)
        split: sum.split prod.split list.split fault.split)
qed

lemma keeps_transaction [keeps_intros]:
  "table_pred I \<Longrightarrow> keeps I body \<Longrightarrow> keeps I (transaction wb wc body)"
  unfolding transaction_def by (rule keeps_transaction_with) (simp_all add: table_pred_rollback)

lemma keeps_guarded [keeps_intros]:
  "(\<And>s. I s \<Longrightarrow> c s = None \<Longrightarrow> I (f s)) \<Longrightarrow> keeps I (guarded c f)"
  by (auto simp: keeps_def guarded_def split: option.splits)

section \<open>Triples of statements and transactions\<close>

text \<open>
  A statement may also fail without effect, or take effect and fail all the same.
\<close>

lemma triple_stmt:
  assumes "table_pred P" and "triple P f Q E" and "\<And>s. P s \<Longrightarrow> E DriverError s"
    and "\<And>a s. Q a s \<Longrightarrow> E DriverError s" and "\<And>e s. E e s \<Longrightarrow> E DriverError s"
  shows "triple P (stmt f) Q E"
proof (rule tripleI)
  fix s assume "P s"
  have P: "P (s\<lparr>faults := g\<rparr>)" for g
    using \<open>P s\<close> by (simp add: table_pred_faults [OF assms(1)])
  have f: "case f t of (Inr a, u) \<Rightarrow> Q a u | (Inl e, u) \<Rightarrow> E e u" if "P t" for t
    using assms(2) that by (simp add: triple_def)
  have after: "E DriverError (snd (f t))" if "P t" for t
    using f [OF that] assms(4,5) by (cases "f t") (auto split: sum.splits)
  show "case stmt f s of (Inr a, t) \<Rightarrow> Q a t | (Inl e, t) \<Rightarrow> E e t"
    using f [OF \<open>P s\<close>] f [OF P] after [OF P] assms(3) [OF P]
    by (simp add: stmt_def Let_def split: list.split fault.split)
qed

lemma triple_query_row:
  assumes "table_pred P" and "\<And>s. P s \<Longrightarrow> E DriverError s"
    and "\<And>s. P s \<Longrightarrow> f s = [] \<Longrightarrow> E ErrNoRows s"
    and "\<And>s r rs. P s \<Longrightarrow> f s = r # rs \<Longrightarrow> Q r s"
  shows "triple P (query_row f) Q E"
proof -
  have "triple P (query_row f) (\<lambda>r s. P s \<and> Q r s) (\<lambda>e s. P s \<and> E e s)"
    unfolding query_row_def
    using assms by (intro triple_stmt) (auto simp: triple_def split: list.split)
  then show ?thesis by (rule triple_weaken) auto
qed

lemma triple_guarded:
  assumes "\<And>s. P s \<Longrightarrow> c s = None \<Longrightarrow> Q () (f s)" and "\<And>s e. P s \<Longrightarrow> c s = Some e \<Longrightarrow> E e s"
  shows "triple P (guarded c f) Q E"
  using assms by (auto simp: triple_def guarded_def split: option.split)

lemma triple_check:
  assumes "\<And>s. P s \<Longrightarrow> c s = None \<Longrightarrow> Q () s" and "\<And>s e. P s \<Longrightarrow> c s = Some e \<Longrightarrow> E e s"
  shows "triple P (check c) Q E"
  using assms by (auto simp: triple_def check_def split: option.split)

text \<open>
  A transaction either leaves the tables as they were and fails, or does what its body does;
  the second can come with an error only when that error is the one of a commit.
\<close>

lemma triple_transaction:
  assumes tP: "table_pred P" and body: "triple P body Q F" and tQ: "\<And>a. table_pred (Q a)"
    and err: "\<And>e s. P s \<Longrightarrow> E e s" and commit: "\<And>a s. Q a s \<Longrightarrow> E (wc DriverError) s"
  shows "triple P (transaction wb wc body) Q E"
proof (rule tripleI)
  fix s assume "P s"
  have start: "\<exists>r g. stmt (ret ()) s = (r, s\<lparr>faults := g\<rparr>)"
  proof (cases "faults s")
    case Nil
    then have "stmt (ret ()) s = (Inr (), s\<lparr>faults := faults s\<rparr>)" by (simp add: stmt_def)
    then show ?thesis by blast
  next
    case (Cons g gs)
    then show ?thesis by (cases g) (auto simp: stmt_def Let_def)
  qed
  then obtain r g where r: "stmt (ret ()) s = (r, s\<lparr>faults := g\<rparr>)" by blast
  have P: "P (s\<lparr>faults := g\<rparr>)" using \<open>P s\<close> by (simp add: table_pred_faults [OF tP])
  have undone: "E e (rollback (s\<lparr>faults := g\<rparr>) t)" for e t
    using P by (intro err) (simp add: table_pred_rollback [OF tP])
  obtain b t where b: "body (s\<lparr>faults := g\<rparr>) = (b, t)" by (cases "body (s\<lparr>faults := g\<rparr>)")
  have "Q a t" if "b = Inr a" for a
    using body P b that by (auto simp: triple_def)
  with r b P undone err commit show "case transaction wb wc body s of (Inr a, t) \<Rightarrow> Q a t | (Inl e, t) \<Rightarrow> E e t"
    by (auto simp: transaction_def transaction_with_def Let_def table_pred_faults [OF tQ]
        split: sum.split list.split fault.split)
qed

section \<open>Without faults\<close>

lemma stmt_no_fault: "faults s = [] \<Longrightarrow> stmt f s = f s"
  by (simp add: stmt_def)

lemma query_rows_no_fault: "faults s = [] \<Longrightarrow> query_rows f s = (Inr (f s, False), s)"
  by (simp add: query_rows_def)

lemma query_row_no_fault:
  "faults s = [] \<Longrightarrow> query_row f s = (case f s of [] \<Rightarrow> (Inl ErrNoRows, s) | r # rs \<Rightarrow> (Inr r, s))"
  by (simp add: query_row_def stmt_no_fault)

lemma transaction_no_fault:
  assumes "faults s = []" and "faults (snd (body s)) = []"
  shows "transaction wb wc body s =
    (case body s of (Inl e, s2) \<Rightarrow> (Inl e, rollback s s2) | (Inr a, s2) \<Rightarrow> (Inr a, s2))"
  using assms by (cases "body s") (simp add: transaction_def transaction_with_def stmt_no_fault split: sum.split)

lemmas no_fault_simps = stmt_no_fault query_rows_no_fault query_row_no_fault

text \<open>\<open>seqs\<close>, the clock and the faults aside, a rollback is the old state.\<close>

lemma rollback_tables [simp]:
  "bread_t (rollback s0 s) = bread_t s0"
  "bread_maker_t (rollback s0 s) = bread_maker_t s0"
  "make_order_t (rollback s0 s) = make_order_t s0"
  "make_details_t (rollback s0 s) = make_details_t s0"
  "pending_t (rollback s0 s) = pending_t s0"
  "customer_t (rollback s0 s) = customer_t s0"
  "buy_order_t (rollback s0 s) = buy_order_t s0"
  "order_details_t (rollback s0 s) = order_details_t s0"
  "outbox_t (rollback s0 s) = outbox_t s0"
  "admin_t (rollback s0 s) = admin_t s0"
  "invoice_t (rollback s0 s) = invoice_t s0"
  "invoice_items_t (rollback s0 s) = invoice_items_t s0"
  "faults (rollback s0 s) = faults s"
  by (simp_all add: rollback_def)

section \<open>Numeric columns read back\<close>

text \<open>The driver parses the decimal text: the nearest double.\<close>

fun f64_of_numeric :: "numeric \<Rightarrow> f64" where
  "f64_of_numeric (Amount c) = rnd64 (of_int c / 100)"
| "f64_of_numeric NumNaN = NaN"

fun num_scale :: "numeric \<Rightarrow> int \<Rightarrow> numeric" where
  "num_scale (Amount c) n = Amount (c * n)"
| "num_scale NumNaN n = NumNaN"

fun num_add :: "numeric \<Rightarrow> numeric \<Rightarrow> numeric" where
  "num_add (Amount a) (Amount b) = Amount (a + b)"
| "num_add _ _ = NumNaN"

definition num_sum :: "numeric list \<Rightarrow> numeric" where
  "num_sum xs = foldr num_add xs (Amount 0)"

end
