(* ===== verification/Constraints.thy ===== *)
theory Constraints
  imports Schema
begin

text \<open>
  The constraints of \<open>bakery.sql\<close>: what makes a row acceptable, what an insertion checks
  (ranges and CHECK clauses, then keys, then references), and the invariant \<open>db_inv\<close> that
  the tables satisfy because every statement is checked this way.
\<close>

section \<open>Rows\<close>

definition fits :: "nat \<Rightarrow> string \<Rightarrow> bool" where
  "fits n s \<longleftrightarrow> length s \<le> n"

text \<open>
  A value of a column \<open>numeric(p, 2)\<close> has at most \<open>p\<close> digits, two of them after the point; such a
  column also takes \<open>NaN\<close>.
\<close>

fun fits_numeric :: "nat \<Rightarrow> numeric \<Rightarrow> bool" where
  "fits_numeric p (Amount c) \<longleftrightarrow> \<bar>c\<bar> < 10 ^ p"
| "fits_numeric p NumNaN \<longleftrightarrow> True"

definition bread_statuses :: "string list" where
  "bread_statuses = [''available'', ''unavailable'', ''discontinued'', ''out_of_stock'', ''processing'']"

definition bread_row_error :: "bread_row \<Rightarrow> db_err option" where
  "bread_row_error r =
     (if \<not> (is_int32 (br_id r) \<and> is_int32 (br_quantity r) \<and> fits 255 (br_name r)
             \<and> fits 255 (br_description r) \<and> fits 255 (br_type r) \<and> fits 50 (br_status r)
             \<and> (case br_image r of None \<Rightarrow> True | Some i \<Rightarrow> fits 255 i)
             \<and> fits_numeric 10 (br_price r))
      then Some DataError
      else if br_quantity r < 0 then Some CheckViolation
      else if br_status r \<notin> set bread_statuses then Some CheckViolation
      else None)"

definition buy_order_statuses :: "string list" where
  "buy_order_statuses = [''pending'', ''processing'', ''processed'', ''partially_processed'',
     ''failed'', ''rejected'']"

definition buy_order_row_error :: "buy_order_row \<Rightarrow> db_err option" where
  "buy_order_row_error r =
     (if \<not> (is_int32 (bo_id r) \<and> is_int32 (bo_customer_id r) \<and> fits 255 (bo_uuid r) \<and> fits 50 (bo_status r))
      then Some DataError
      else if bo_status r \<notin> set buy_order_statuses then Some CheckViolation
      else None)"

definition order_detail_row_error :: "order_detail_row \<Rightarrow> db_err option" where
  "order_detail_row_error r =
     (if is_int32 (od_buy_order_id r) \<and> is_int32 (od_bread_id r) \<and> is_int32 (od_quantity r)
         \<and> fits_numeric 10 (od_price r)
      then None else Some DataError)"

definition pending_row_error :: "pending_row \<Rightarrow> db_err option" where
  "pending_row_error r =
     (if \<not> (is_int32 (pd_id r) \<and> is_int32 (pd_bread_id r) \<and> is_int32 (pd_requested_quantity r)
             \<and> fits 20 (pd_status r) \<and> fits 50 (pd_source r))
      then Some DataError
      else if pd_status r \<notin> set [''pending'', ''fulfilled'', ''rejected''] then Some CheckViolation
      else if pd_source r \<notin> set [''auto'', ''admin''] then Some CheckViolation
      else None)"

definition customer_row_error :: "customer_row \<Rightarrow> db_err option" where
  "customer_row_error r =
     (if is_int32 (cu_id r) \<and> fits 255 (cu_name r) \<and> fits 255 (cu_email r) \<and> fits 255 (cu_password r)
      then None else Some DataError)"

definition maker_row_error :: "bread_maker_row \<Rightarrow> db_err option" where
  "maker_row_error r =
     (if is_int32 (bm_id r) \<and> fits 255 (bm_name r) \<and> fits 255 (bm_email r)
      then None else Some DataError)"

definition make_order_row_error :: "make_order_row \<Rightarrow> db_err option" where
  "make_order_row_error r =
     (if is_int32 (mk_id r) \<and> is_int32 (mk_bread_maker_id r) \<and> fits 255 (mk_uuid r)
      then None else Some DataError)"

definition make_detail_row_error :: "make_detail_row \<Rightarrow> db_err option" where
  "make_detail_row_error r =
     (if is_int32 (md_make_order_id r) \<and> is_int32 (md_bread_id r) \<and> is_int32 (md_quantity r)
      then None else Some DataError)"

definition admin_row_error :: "admin_row \<Rightarrow> db_err option" where
  "admin_row_error r =
     (if is_int32 (ad_id r) \<and> fits 255 (ad_username r) \<and> fits 255 (ad_email r)
         \<and> fits 255 (ad_password r) \<and> fits 50 (ad_role r)
      then None else Some DataError)"

definition invoice_row_error :: "invoice_row \<Rightarrow> db_err option" where
  "invoice_row_error r =
     (if \<not> (is_int32 (iv_id r) \<and> is_int32 (iv_buy_order_id r) \<and> is_int32 (iv_customer_id r)
             \<and> fits 50 (iv_number r) \<and> fits 50 (iv_status r)
             \<and> fits_numeric 12 (iv_subtotal r) \<and> fits_numeric 12 (iv_tax r) \<and> fits_numeric 12 (iv_total r))
      then Some DataError
      else if iv_status r \<notin> set [''pending'', ''issued'', ''paid'', ''overdue'', ''cancelled'']
      then Some CheckViolation
      else None)"

definition invoice_item_row_error :: "invoice_item_row \<Rightarrow> db_err option" where
  "invoice_item_row_error r =
     (if is_int32 (it_id r) \<and> is_int32 (it_invoice_id r) \<and> is_int32 (it_bread_id r)
         \<and> fits 255 (it_bread_name r) \<and> is_int32 (it_quantity r)
         \<and> fits_numeric 10 (it_unit_price r) \<and> fits_numeric 10 (it_total r)
      then None else Some DataError)"

section \<open>Insertions\<close>

text \<open>\<open>also_check\<close> runs the checks of an insertion one after the other.\<close>

definition and_then :: "db_err option \<Rightarrow> db_err option \<Rightarrow> db_err option" where
  "and_then a b = (case a of Some e \<Rightarrow> Some e | None \<Rightarrow> b)"

definition unless :: "bool \<Rightarrow> db_err \<Rightarrow> db_err option" where
  "unless b e = (if b then None else Some e)"

definition insert_bread_error :: "bread_row \<Rightarrow> db \<Rightarrow> db_err option" where
  "insert_bread_error r s = and_then (bread_row_error r)
     (unless (br_id r \<notin> br_id ` set (bread_t s)) UniqueViolation)"

definition insert_customer_error :: "customer_row \<Rightarrow> db \<Rightarrow> db_err option" where
  "insert_customer_error r s = and_then (customer_row_error r)
     (unless (cu_id r \<notin> cu_id ` set (customer_t s) \<and> cu_email r \<notin> cu_email ` set (customer_t s)) UniqueViolation)"

definition insert_maker_error :: "bread_maker_row \<Rightarrow> db \<Rightarrow> db_err option" where
  "insert_maker_error r s = and_then (maker_row_error r)
     (unless (bm_id r \<notin> bm_id ` set (bread_maker_t s)) UniqueViolation)"

definition insert_buy_order_error :: "buy_order_row \<Rightarrow> db \<Rightarrow> db_err option" where
  "insert_buy_order_error r s = and_then (buy_order_row_error r)
     (and_then (unless (bo_id r \<notin> bo_id ` set (buy_order_t s) \<and> bo_uuid r \<notin> bo_uuid ` set (buy_order_t s)) UniqueViolation)
        (unless (bo_customer_id r \<in> cu_id ` set (customer_t s)) ForeignKeyViolation))"

definition insert_detail_error :: "order_detail_row \<Rightarrow> db \<Rightarrow> db_err option" where
  "insert_detail_error r s = and_then (order_detail_row_error r)
     (and_then (unless ((od_buy_order_id r, od_bread_id r)
                   \<notin> (\<lambda>d. (od_buy_order_id d, od_bread_id d)) ` set (order_details_t s)) UniqueViolation)
        (unless (od_buy_order_id r \<in> bo_id ` set (buy_order_t s) \<and> od_bread_id r \<in> br_id ` set (bread_t s))
           ForeignKeyViolation))"

definition insert_make_order_error :: "make_order_row \<Rightarrow> db \<Rightarrow> db_err option" where
  "insert_make_order_error r s = and_then (make_order_row_error r)
     (and_then (unless (mk_id r \<notin> mk_id ` set (make_order_t s)) UniqueViolation)
        (unless (mk_bread_maker_id r \<in> bm_id ` set (bread_maker_t s)) ForeignKeyViolation))"

definition insert_make_detail_error :: "make_detail_row \<Rightarrow> db \<Rightarrow> db_err option" where
  "insert_make_detail_error r s = and_then (make_detail_row_error r)
     (and_then (unless ((md_make_order_id r, md_bread_id r)
                   \<notin> (\<lambda>d. (md_make_order_id d, md_bread_id d)) ` set (make_details_t s)) UniqueViolation)
        (unless (md_make_order_id r \<in> mk_id ` set (make_order_t s) \<and> md_bread_id r \<in> br_id ` set (bread_t s))
           ForeignKeyViolation))"

definition insert_pending_error :: "pending_row \<Rightarrow> db \<Rightarrow> db_err option" where
  "insert_pending_error r s = and_then (pending_row_error r)
     (and_then (unless (pd_id r \<notin> pd_id ` set (pending_t s)) UniqueViolation)
        (unless (pd_bread_id r \<in> br_id ` set (bread_t s)) ForeignKeyViolation))"

definition insert_outbox_error :: "outbox_row \<Rightarrow> db \<Rightarrow> db_err option" where
  "insert_outbox_error r s = and_then (unless (is_int32 (ob_id r)) DataError)
     (unless (ob_id r \<notin> ob_id ` set (outbox_t s)) UniqueViolation)"

definition insert_admin_error :: "admin_row \<Rightarrow> db \<Rightarrow> db_err option" where
  "insert_admin_error r s = and_then (admin_row_error r)
     (unless (ad_id r \<notin> ad_id ` set (admin_t s) \<and> ad_username r \<notin> ad_username ` set (admin_t s)
        \<and> ad_email r \<notin> ad_email ` set (admin_t s)) UniqueViolation)"

definition insert_invoice_error :: "invoice_row \<Rightarrow> db \<Rightarrow> db_err option" where
  "insert_invoice_error r s = and_then (invoice_row_error r)
     (and_then (unless (iv_id r \<notin> iv_id ` set (invoice_t s) \<and> iv_number r \<notin> iv_number ` set (invoice_t s)) UniqueViolation)
        (unless (iv_buy_order_id r \<in> bo_id ` set (buy_order_t s) \<and> iv_customer_id r \<in> cu_id ` set (customer_t s))
           ForeignKeyViolation))"

definition insert_item_error :: "invoice_item_row \<Rightarrow> db \<Rightarrow> db_err option" where
  "insert_item_error r s = and_then (invoice_item_row_error r)
     (and_then (unless (it_id r \<notin> it_id ` set (invoice_items_t s)) UniqueViolation)
        (unless (it_invoice_id r \<in> iv_id ` set (invoice_t s) \<and> it_bread_id r \<in> br_id ` set (bread_t s))
           ForeignKeyViolation))"

section \<open>The invariant\<close>

definition bread_inv :: "db \<Rightarrow> bool" where
  "bread_inv s \<longleftrightarrow> (\<forall>r \<in> set (bread_t s). bread_row_error r = None) \<and> distinct (map br_id (bread_t s))"

definition accounts_inv :: "db \<Rightarrow> bool" where
  "accounts_inv s \<longleftrightarrow>
     (\<forall>r \<in> set (customer_t s). customer_row_error r = None)
     \<and> distinct (map cu_id (customer_t s)) \<and> distinct (map cu_email (customer_t s))
     \<and> (\<forall>r \<in> set (bread_maker_t s). maker_row_error r = None) \<and> distinct (map bm_id (bread_maker_t s))
     \<and> (\<forall>r \<in> set (admin_t s). admin_row_error r = None)
     \<and> distinct (map ad_id (admin_t s)) \<and> distinct (map ad_username (admin_t s))
     \<and> distinct (map ad_email (admin_t s))"

definition orders_inv :: "db \<Rightarrow> bool" where
  "orders_inv s \<longleftrightarrow>
     (\<forall>r \<in> set (buy_order_t s). buy_order_row_error r = None \<and> bo_customer_id r \<in> cu_id ` set (customer_t s))
     \<and> distinct (map bo_id (buy_order_t s)) \<and> distinct (map bo_uuid (buy_order_t s))
     \<and> (\<forall>d \<in> set (order_details_t s). order_detail_row_error d = None
          \<and> od_buy_order_id d \<in> bo_id ` set (buy_order_t s) \<and> od_bread_id d \<in> br_id ` set (bread_t s))
     \<and> distinct (map (\<lambda>d. (od_buy_order_id d, od_bread_id d)) (order_details_t s))"

definition supply_inv :: "db \<Rightarrow> bool" where
  "supply_inv s \<longleftrightarrow>
     (\<forall>r \<in> set (make_order_t s). make_order_row_error r = None
        \<and> mk_bread_maker_id r \<in> bm_id ` set (bread_maker_t s))
     \<and> distinct (map mk_id (make_order_t s))
     \<and> (\<forall>d \<in> set (make_details_t s). make_detail_row_error d = None
          \<and> md_make_order_id d \<in> mk_id ` set (make_order_t s) \<and> md_bread_id d \<in> br_id ` set (bread_t s))
     \<and> distinct (map (\<lambda>d. (md_make_order_id d, md_bread_id d)) (make_details_t s))
     \<and> (\<forall>r \<in> set (pending_t s). pending_row_error r = None \<and> pd_bread_id r \<in> br_id ` set (bread_t s))
     \<and> distinct (map pd_id (pending_t s))"

definition billing_inv :: "db \<Rightarrow> bool" where
  "billing_inv s \<longleftrightarrow>
     (\<forall>r \<in> set (invoice_t s). invoice_row_error r = None
        \<and> iv_buy_order_id r \<in> bo_id ` set (buy_order_t s) \<and> iv_customer_id r \<in> cu_id ` set (customer_t s))
     \<and> distinct (map iv_id (invoice_t s)) \<and> distinct (map iv_number (invoice_t s))
     \<and> (\<forall>r \<in> set (invoice_items_t s). invoice_item_row_error r = None
          \<and> it_invoice_id r \<in> iv_id ` set (invoice_t s) \<and> it_bread_id r \<in> br_id ` set (bread_t s))
     \<and> distinct (map it_id (invoice_items_t s))
     \<and> (\<forall>r \<in> set (outbox_t s). is_int32 (ob_id r)) \<and> distinct (map ob_id (outbox_t s))"

definition db_inv :: "db \<Rightarrow> bool" where
  "db_inv s \<longleftrightarrow> bread_inv s \<and> accounts_inv s \<and> orders_inv s \<and> supply_inv s \<and> billing_inv s"

lemmas inv_defs = bread_inv_def accounts_inv_def orders_inv_def supply_inv_def billing_inv_def

lemma table_pred_db_inv [simp]: "table_pred db_inv"
  by (simp add: table_pred_def db_inv_def inv_defs)

lemma db_inv_bread: "db_inv s \<Longrightarrow> bread_inv s"
  by (simp add: db_inv_def)

section \<open>Checked insertions keep the invariant\<close>

lemma and_then_None: "and_then a b = None \<longleftrightarrow> a = None \<and> b = None"
  by (auto simp: and_then_def split: option.splits)

lemma unless_None: "unless b e = None \<longleftrightarrow> b"
  by (simp add: unless_def)

lemmas check_simps = and_then_None unless_None

lemma insert_bread_inv:
  "db_inv s \<Longrightarrow> insert_bread_error r s = None \<Longrightarrow> db_inv (s\<lparr>bread_t := bread_t s @ [r]\<rparr>)"
  by (simp add: db_inv_def inv_defs insert_bread_error_def check_simps)

lemma insert_customer_inv:
  "db_inv s \<Longrightarrow> insert_customer_error r s = None \<Longrightarrow> db_inv (s\<lparr>customer_t := customer_t s @ [r]\<rparr>)"
  by (simp add: db_inv_def inv_defs insert_customer_error_def check_simps)

lemma insert_maker_inv:
  "db_inv s \<Longrightarrow> insert_maker_error r s = None \<Longrightarrow> db_inv (s\<lparr>bread_maker_t := bread_maker_t s @ [r]\<rparr>)"
  by (simp add: db_inv_def inv_defs insert_maker_error_def check_simps)

lemma insert_buy_order_inv:
  "db_inv s \<Longrightarrow> insert_buy_order_error r s = None \<Longrightarrow> db_inv (s\<lparr>buy_order_t := buy_order_t s @ [r]\<rparr>)"
  by (simp add: db_inv_def inv_defs insert_buy_order_error_def check_simps)

lemma insert_detail_inv:
  "db_inv s \<Longrightarrow> insert_detail_error r s = None \<Longrightarrow> db_inv (s\<lparr>order_details_t := order_details_t s @ [r]\<rparr>)"
  by (simp add: db_inv_def inv_defs insert_detail_error_def check_simps)

lemma insert_make_order_inv:
  "db_inv s \<Longrightarrow> insert_make_order_error r s = None \<Longrightarrow> db_inv (s\<lparr>make_order_t := make_order_t s @ [r]\<rparr>)"
  by (simp add: db_inv_def inv_defs insert_make_order_error_def check_simps)

lemma insert_make_detail_inv:
  "db_inv s \<Longrightarrow> insert_make_detail_error r s = None \<Longrightarrow> db_inv (s\<lparr>make_details_t := make_details_t s @ [r]\<rparr>)"
  by (simp add: db_inv_def inv_defs insert_make_detail_error_def check_simps)

lemma insert_pending_inv:
  "db_inv s \<Longrightarrow> insert_pending_error r s = None \<Longrightarrow> db_inv (s\<lparr>pending_t := pending_t s @ [r]\<rparr>)"
  by (simp add: db_inv_def inv_defs insert_pending_error_def check_simps)

lemma insert_outbox_inv:
  "db_inv s \<Longrightarrow> insert_outbox_error r s = None \<Longrightarrow> db_inv (s\<lparr>outbox_t := outbox_t s @ [r]\<rparr>)"
  by (simp add: db_inv_def inv_defs insert_outbox_error_def check_simps)

lemma insert_admin_inv:
  "db_inv s \<Longrightarrow> insert_admin_error r s = None \<Longrightarrow> db_inv (s\<lparr>admin_t := admin_t s @ [r]\<rparr>)"
  by (simp add: db_inv_def inv_defs insert_admin_error_def check_simps)

lemma insert_invoice_inv:
  "db_inv s \<Longrightarrow> insert_invoice_error r s = None \<Longrightarrow> db_inv (s\<lparr>invoice_t := invoice_t s @ [r]\<rparr>)"
  by (simp add: db_inv_def inv_defs insert_invoice_error_def check_simps)

lemma insert_item_inv:
  "db_inv s \<Longrightarrow> insert_item_error r s = None \<Longrightarrow> db_inv (s\<lparr>invoice_items_t := invoice_items_t s @ [r]\<rparr>)"
  by (simp add: db_inv_def inv_defs insert_item_error_def check_simps)

lemmas insert_inv = insert_bread_inv insert_customer_inv insert_maker_inv insert_buy_order_inv
  insert_detail_inv insert_make_order_inv insert_make_detail_inv insert_pending_inv
  insert_outbox_inv insert_admin_inv insert_invoice_inv insert_item_inv

section \<open>Updates and deletions\<close>

text \<open>\<open>UPDATE ... WHERE P\<close>: every matching row is rewritten, unless one of the new rows is refused.\<close>

fun first_error :: "('r \<Rightarrow> db_err option) \<Rightarrow> 'r list \<Rightarrow> db_err option" where
  "first_error c [] = None"
| "first_error c (r # rs) = (case c r of None \<Rightarrow> first_error c rs | Some e \<Rightarrow> Some e)"

definition update_where :: "('r \<Rightarrow> bool) \<Rightarrow> ('r \<Rightarrow> 'r) \<Rightarrow> 'r list \<Rightarrow> 'r list" where
  "update_where P g rs = map (\<lambda>r. if P r then g r else r) rs"

definition update_error :: "('r \<Rightarrow> db_err option) \<Rightarrow> ('r \<Rightarrow> bool) \<Rightarrow> ('r \<Rightarrow> 'r) \<Rightarrow> 'r list \<Rightarrow> db_err option" where
  "update_error c P g rs = first_error c (map g (filter P rs))"

lemma first_error_None: "first_error c rs = None \<longleftrightarrow> (\<forall>r \<in> set rs. c r = None)"
  by (induction rs) (auto split: option.splits)

lemma update_error_None: "update_error c P g rs = None \<longleftrightarrow> (\<forall>r \<in> set rs. P r \<longrightarrow> c (g r) = None)"
  by (auto simp: update_error_def first_error_None)

lemma map_update_where:
  assumes "\<And>r. P r \<Longrightarrow> k (g r) = k r"
  shows "map k (update_where P g rs) = map k rs"
  unfolding update_where_def by (rule map_update_id) (simp add: assms)

lemma image_update_where:
  assumes "\<And>r. P r \<Longrightarrow> k (g r) = k r"
  shows "k ` set (update_where P g rs) = k ` set rs"
  using map_update_where [of P k g rs, OF assms] by (metis set_map)

lemma ball_update_where:
  "(\<And>r. r \<in> set rs \<Longrightarrow> Q r) \<Longrightarrow> (\<And>r. r \<in> set rs \<Longrightarrow> P r \<Longrightarrow> Q (g r)) \<Longrightarrow> \<forall>r \<in> set (update_where P g rs). Q r"
  by (auto simp: update_where_def)

lemma update_bread_inv:
  assumes "db_inv s" and "update_error bread_row_error P g (bread_t s) = None" and id: "\<And>r. br_id (g r) = br_id r"
  shows "db_inv (s\<lparr>bread_t := update_where P g (bread_t s)\<rparr>)"
proof -
  have "\<forall>r \<in> set (update_where P g (bread_t s)). bread_row_error r = None"
    using assms(1,2) by (intro ball_update_where) (auto simp: db_inv_def inv_defs update_error_None)
  with assms(1) show ?thesis
    by (simp add: db_inv_def inv_defs image_update_where [of P br_id g, OF id] map_update_where [of P br_id g, OF id])
qed

lemma update_buy_order_inv:
  assumes "db_inv s" and "update_error buy_order_row_error P g (buy_order_t s) = None"
    and id: "\<And>r. bo_id (g r) = bo_id r" and uuid: "\<And>r. bo_uuid (g r) = bo_uuid r"
    and cust: "\<And>r. bo_customer_id (g r) = bo_customer_id r"
  shows "db_inv (s\<lparr>buy_order_t := update_where P g (buy_order_t s)\<rparr>)"
proof -
  have "\<forall>r \<in> set (update_where P g (buy_order_t s)).
      buy_order_row_error r = None \<and> bo_customer_id r \<in> cu_id ` set (customer_t s)"
    using assms(1,2) by (intro ball_update_where) (auto simp: db_inv_def inv_defs update_error_None cust)
  with assms(1) show ?thesis
    by (simp add: db_inv_def inv_defs image_update_where [of P bo_id g, OF id]
        map_update_where [of P bo_id g, OF id] map_update_where [of P bo_uuid g, OF uuid])
qed

lemma update_detail_inv:
  assumes "db_inv s" and "update_error order_detail_row_error P g (order_details_t s) = None"
    and keys: "\<And>d. od_buy_order_id (g d) = od_buy_order_id d" "\<And>d. od_bread_id (g d) = od_bread_id d"
  shows "db_inv (s\<lparr>order_details_t := update_where P g (order_details_t s)\<rparr>)"
proof -
  have "\<forall>d \<in> set (update_where P g (order_details_t s)). order_detail_row_error d = None
          \<and> od_buy_order_id d \<in> bo_id ` set (buy_order_t s) \<and> od_bread_id d \<in> br_id ` set (bread_t s)"
    using assms(1,2) by (intro ball_update_where) (auto simp: db_inv_def inv_defs update_error_None keys)
  with assms(1) show ?thesis
    by (simp add: db_inv_def inv_defs map_update_where [of P "\<lambda>d. (od_buy_order_id d, od_bread_id d)" g] keys)
qed

lemma update_pending_inv:
  assumes "db_inv s" and "update_error pending_row_error P g (pending_t s) = None"
    and keys: "\<And>r. pd_id (g r) = pd_id r" "\<And>r. pd_bread_id (g r) = pd_bread_id r"
  shows "db_inv (s\<lparr>pending_t := update_where P g (pending_t s)\<rparr>)"
proof -
  have "\<forall>r \<in> set (update_where P g (pending_t s)).
      pending_row_error r = None \<and> pd_bread_id r \<in> br_id ` set (bread_t s)"
    using assms(1,2) by (intro ball_update_where) (auto simp: db_inv_def inv_defs update_error_None keys)
  with assms(1) show ?thesis
    by (simp add: db_inv_def inv_defs map_update_where [of P pd_id g, OF keys(1)])
qed

lemma update_outbox_inv:
  assumes "db_inv s" and "\<And>r. ob_id (g r) = ob_id r"
  shows "db_inv (s\<lparr>outbox_t := update_where P g (outbox_t s)\<rparr>)"
proof -
  have "\<forall>r \<in> set (update_where P g (outbox_t s)). is_int32 (ob_id r)"
    using assms by (intro ball_update_where) (auto simp: db_inv_def inv_defs)
  with assms(1) show ?thesis
    by (simp add: db_inv_def inv_defs map_update_where [of P ob_id g, OF assms(2)])
qed

text \<open>A bread that other tables refer to cannot be deleted.\<close>

definition bread_referenced :: "int \<Rightarrow> db \<Rightarrow> bool" where
  "bread_referenced i s \<longleftrightarrow>
     i \<in> od_bread_id ` set (order_details_t s) \<or> i \<in> md_bread_id ` set (make_details_t s)
     \<or> i \<in> pd_bread_id ` set (pending_t s) \<or> i \<in> it_bread_id ` set (invoice_items_t s)"

lemma delete_bread_inv:
  assumes "db_inv s" and "\<not> bread_referenced i s"
  shows "db_inv (s\<lparr>bread_t := filter (\<lambda>r. br_id r \<noteq> i) (bread_t s)\<rparr>)"
  using assms
  by (auto simp: db_inv_def inv_defs bread_referenced_def distinct_map_filter image_iff)
    (metis+)

lemma delete_outbox_inv: "db_inv s \<Longrightarrow> db_inv (s\<lparr>outbox_t := filter P (outbox_t s)\<rparr>)"
  by (auto simp: db_inv_def inv_defs distinct_map_filter)

end
