(* ===== verification/Inventory.thy ===== *)
theory Inventory
  imports Constraints
begin

text \<open>
  The bread table of \<open>data/models.go\<close>: every repository method that reads or writes it,
  the constraints it lives under, the stock it represents, and the proof that stock never goes
  negative and moves only by what the methods report.
\<close>

section \<open>SQL on the bread table\<close>

definition sql_update_bread :: "int \<Rightarrow> (bread_row \<Rightarrow> bread_row) \<Rightarrow> unit repo" where
  "sql_update_bread i g =
     guarded (\<lambda>s. update_error bread_row_error (\<lambda>r. br_id r = i) g (bread_t s))
       (\<lambda>s. s\<lparr>bread_t := update_where (\<lambda>r. br_id r = i) g (bread_t s)\<rparr>)"

definition param_numeric :: "nat \<Rightarrow> f64 \<Rightarrow> numeric repo" where
  "param_numeric p x =
     seq (query to_numeric) (\<lambda>conv. case conv p x of None \<Rightarrow> fail DataError | Some v \<Rightarrow> ret v)"

definition param_int4 :: "int \<Rightarrow> unit repo" where
  "param_int4 n = check (\<lambda>s. if is_int32 n then None else Some DataError)"

definition select_quantity :: "int \<Rightarrow> db \<Rightarrow> int list" where
  "select_quantity i s = map br_quantity (filter (\<lambda>r. br_id r = i) (bread_t s))"

section \<open>Repository methods\<close>

definition InsertBread :: "Bread \<Rightarrow> int repo" where
  "InsertBread bread = stmt
     (seq (param_numeric 10 (b_Price bread)) (\<lambda>p.
      seq (nextval BreadSeq) (\<lambda>i.
      seq (query now) (\<lambda>t.
          let r = \<lparr>br_id = i, br_name = b_Name bread, br_price = p,
                    br_quantity = b_Quantity bread, br_description = b_Description bread,
                    br_type = b_Type bread, br_status = b_Status bread,
                    br_created_at = t, br_updated_at = t,
                    br_image = Some (b_Image bread)\<rparr>
           in seq (guarded (insert_bread_error r) (\<lambda>s. s\<lparr>bread_t := bread_t s @ [r]\<rparr>))
                (\<lambda>_. ret i)))))"

text \<open>
  \<open>AdjustBreadQuantity\<close>: a read, Go arithmetic with a cap at 100, and a separate update. The
  flag of the source is false whenever an error is returned, so it is the value here.
\<close>

definition adjust_read :: "int \<Rightarrow> int repo" where
  "adjust_read breadID = query_row (select_quantity breadID)"

definition adjust_new :: "int \<Rightarrow> int \<Rightarrow> db_err + int \<times> bool" where
  "adjust_new currentQuantity quantityChange =
     (let newQuantity = int64 (currentQuantity + quantityChange)
      in if newQuantity < 0 then Inl ErrInsufficientStock
         else if 100 < newQuantity then Inr (100, False)
         else Inr (newQuantity, True))"

definition adjust_write :: "int \<Rightarrow> int \<Rightarrow> bool \<Rightarrow> bool repo" where
  "adjust_write breadID newQuantity countBread =
     attempt (stmt (seq (param_int4 newQuantity)
                (\<lambda>_. sql_update_bread breadID (\<lambda>r. r\<lparr>br_quantity := newQuantity\<rparr>))))
       (\<lambda>e. if e = CheckViolation then fail ErrInsufficientStock else fail e)
       (\<lambda>_. ret countBread)"

definition AdjustBreadQuantity :: "int \<Rightarrow> int \<Rightarrow> bool repo" where
  "AdjustBreadQuantity breadID quantityChange =
     seq (adjust_read breadID) (\<lambda>currentQuantity.
       case adjust_new currentQuantity quantityChange of
         Inl e \<Rightarrow> fail e
       | Inr (q, countBread) \<Rightarrow> adjust_write breadID q countBread)"

definition AdjustBreadPrice :: "int \<Rightarrow> f64 \<Rightarrow> unit repo" where
  "AdjustBreadPrice breadID newPrice = stmt
     (seq (param_numeric 10 newPrice) (\<lambda>p. sql_update_bread breadID (\<lambda>r. r\<lparr>br_price := p\<rparr>)))"

text \<open>\<open>UPDATE bread SET quantity = quantity - $1, updated_at = NOW() WHERE id = $2\<close>\<close>

definition sql_deduct :: "int \<Rightarrow> int \<Rightarrow> unit repo" where
  "sql_deduct breadID n = stmt
     (seq (param_int4 n) (\<lambda>_.
      seq (query now) (\<lambda>t.
      sql_update_bread breadID (\<lambda>r. r\<lparr>br_quantity := br_quantity r - n, br_updated_at := t\<rparr>))))"

text \<open>
  \<open>FulfillOrderItem\<close>. The row lock of \<open>SELECT ... FOR UPDATE\<close> is held from the read to the
  commit, which is why the whole transaction is one step of the model.
\<close>

definition fulfill_item :: "int \<Rightarrow> int \<Rightarrow> int repo" where
  "fulfill_item breadID requestedQty =
     attempt (query_row (select_quantity breadID))
       (\<lambda>e. fail (Wrapped ''lock bread'' e))
       (\<lambda>currentQty.
          let fulfilled = (if currentQty < requestedQty then currentQty else requestedQty)
          in if fulfilled \<le> 0 then fail ErrInsufficientStock
             else attempt (sql_deduct breadID fulfilled)
                    (\<lambda>e. fail (Wrapped ''deduct bread'' e))
                    (\<lambda>_. ret fulfilled))"

definition FulfillOrderItem :: "int \<Rightarrow> int \<Rightarrow> int repo" where
  "FulfillOrderItem breadID requestedQty =
     transaction (Wrapped ''begin transaction'') (Wrapped ''commit'') (fulfill_item breadID requestedQty)"

definition UpdateBread :: "Bread \<Rightarrow> unit repo" where
  "UpdateBread bread = stmt
     (seq (param_numeric 10 (b_Price bread)) (\<lambda>p.
      seq (param_int4 (b_Quantity bread)) (\<lambda>_.
      seq (query now) (\<lambda>t.
          sql_update_bread (b_ID bread) (\<lambda>r. r\<lparr>br_name := b_Name bread, br_price := p,
            br_quantity := b_Quantity bread, br_description := b_Description bread,
            br_type := b_Type bread, br_image := Some (b_Image bread), br_updated_at := t\<rparr>)))))"

definition DeleteBread :: "int \<Rightarrow> unit repo" where
  "DeleteBread breadID = stmt
     (guarded (\<lambda>s. if breadID \<in> br_id ` set (bread_t s) \<and> bread_referenced breadID s
                 then Some ForeignKeyViolation else None)
       (\<lambda>s. s\<lparr>bread_t := filter (\<lambda>r. br_id r \<noteq> breadID) (bread_t s)\<rparr>))"

section \<open>Reading breads\<close>

text \<open>\<open>rows.Scan\<close> with \<open>sql.NullString\<close> for the image, and its default.\<close>

definition scan_bread :: "bread_row \<Rightarrow> Bread" where
  "scan_bread r = \<lparr>b_ID = br_id r, b_Name = br_name r, b_Price = f64_of_numeric (br_price r),
     b_Quantity = br_quantity r, b_CreatedAt = br_created_at r, b_UpdatedAt = br_updated_at r,
     b_Image = (case br_image r of Some i \<Rightarrow> i | None \<Rightarrow> ''/images/default.png''),
     b_Description = br_description r, b_Type = br_type r, b_Status = br_status r\<rparr>"

definition GetAvailableBread :: "Bread list repo" where
  "GetAvailableBread =
     seq (query_rows (\<lambda>s. filter (\<lambda>r. 0 \<le> br_quantity r) (bread_t s)))
       (\<lambda>(rows, broken). ret (map scan_bread rows))"

definition GetBreadByID :: "int \<Rightarrow> Bread repo" where
  "GetBreadByID breadID =
     seq (query_row (\<lambda>s. filter (\<lambda>r. br_id r = breadID) (bread_t s))) (\<lambda>r. ret (scan_bread r))"

text \<open>
  \<open>GetLowStockBread\<close> scans the image into a plain string, which fails on NULL; the rows come
  in ascending order of quantity (in table order among equals).
\<close>

fun scan_low_stock :: "bread_row list \<Rightarrow> db_err + Bread list" where
  "scan_low_stock [] = Inr []"
| "scan_low_stock (r # rs) =
     (case br_image r of
        None \<Rightarrow> Inl ScanError
      | Some i \<Rightarrow> (case scan_low_stock rs of Inl e \<Rightarrow> Inl e | Inr bs \<Rightarrow> Inr (scan_bread r # bs)))"

definition GetLowStockBread :: "int \<Rightarrow> Bread list repo" where
  "GetLowStockBread threshold =
     seq (query_rows (\<lambda>s. sort_key br_quantity (filter (\<lambda>r. br_quantity r < threshold) (bread_t s))))
       (\<lambda>(rows, broken). case scan_low_stock rows of Inl e \<Rightarrow> fail e | Inr bs \<Rightarrow> ret bs)"


section \<open>The bread table stays well formed\<close>

lemma table_pred_bread_inv [simp]: "table_pred bread_inv"
  by (simp add: table_pred_def bread_inv_def)

lemma bread_row_ok_quantity: "bread_row_error r = None \<Longrightarrow> 0 \<le> br_quantity r \<and> is_int32 (br_quantity r)"
  by (auto simp: bread_row_error_def split: if_splits)

lemma bread_inv_quantity:
  "bread_inv s \<Longrightarrow> r \<in> set (bread_t s) \<Longrightarrow> 0 \<le> br_quantity r \<and> is_int32 (br_quantity r)"
  by (simp add: bread_inv_def bread_row_ok_quantity)

lemma keeps_sql_update_bread:
  "(\<And>r. br_id (g r) = br_id r) \<Longrightarrow> keeps db_inv (sql_update_bread i g)"
  unfolding sql_update_bread_def by (intro keeps_guarded update_bread_inv)

lemma keeps_param_numeric [keeps_intros]: "keeps I (param_numeric p x)"
  unfolding param_numeric_def by (intro keeps_intros)

lemma keeps_param_int4 [keeps_intros]: "keeps I (param_int4 n)"
  unfolding param_int4_def by (rule keeps_check)

lemma keeps_AdjustBreadQuantity: "keeps db_inv (AdjustBreadQuantity i q)"
  unfolding AdjustBreadQuantity_def adjust_read_def adjust_write_def param_int4_def
  by (intro keeps_intros keeps_sql_update_bread) simp_all

lemma keeps_AdjustBreadPrice: "keeps db_inv (AdjustBreadPrice i p)"
  unfolding AdjustBreadPrice_def param_numeric_def
  by (intro keeps_intros keeps_sql_update_bread) simp_all

lemma keeps_FulfillOrderItem: "keeps db_inv (FulfillOrderItem i q)"
  unfolding FulfillOrderItem_def fulfill_item_def sql_deduct_def param_int4_def
  by (intro keeps_intros keeps_sql_update_bread) simp_all

lemma keeps_UpdateBread: "keeps db_inv (UpdateBread b)"
  unfolding UpdateBread_def param_numeric_def param_int4_def
  by (intro keeps_intros keeps_sql_update_bread) simp_all

lemma delete_absent_bread: "i \<notin> br_id ` set (bread_t s) \<Longrightarrow> filter (\<lambda>r. br_id r \<noteq> i) (bread_t s) = bread_t s"
  by (rule filter_True) auto

lemma keeps_DeleteBread: "keeps db_inv (DeleteBread i)"
  unfolding DeleteBread_def
  by (intro keeps_intros) (auto simp: delete_absent_bread split: if_splits intro: delete_bread_inv)

lemma keeps_InsertBread: "keeps db_inv (InsertBread b)"
  unfolding InsertBread_def param_numeric_def
  by (intro keeps_intros insert_inv) simp_all

lemma keeps_GetAvailableBread: "keeps db_inv GetAvailableBread"
  unfolding GetAvailableBread_def by (intro keeps_intros) simp_all

lemma keeps_GetBreadByID: "keeps db_inv (GetBreadByID i)"
  unfolding GetBreadByID_def by (intro keeps_intros) simp_all

lemma keeps_GetLowStockBread: "keeps db_inv (GetLowStockBread n)"
  unfolding GetLowStockBread_def by (intro keeps_intros) simp_all

lemmas keeps_inventory = keeps_AdjustBreadQuantity keeps_AdjustBreadPrice keeps_FulfillOrderItem
  keeps_UpdateBread keeps_DeleteBread keeps_InsertBread keeps_GetAvailableBread keeps_GetBreadByID
  keeps_GetLowStockBread

section \<open>Stock\<close>

definition quantity_of :: "bread_row list \<Rightarrow> int \<Rightarrow> int option" where
  "quantity_of T i = map_option br_quantity (find (\<lambda>r. br_id r = i) T)"

definition stock :: "db \<Rightarrow> int \<Rightarrow> int option" where
  "stock s = quantity_of (bread_t s)"

lemma quantity_of_update:
  assumes "\<And>r. br_id (g r) = br_id r"
  shows "quantity_of (update_where (\<lambda>r. br_id r = i) g T) j =
    (if j = i then map_option (\<lambda>r. br_quantity (g r)) (find (\<lambda>r. br_id r = i) T) else quantity_of T j)"
proof -
  have "find (\<lambda>r. br_id r = j) (update_where (\<lambda>r. br_id r = i) g T) =
      map_option (\<lambda>r. if br_id r = i then g r else r) (find (\<lambda>r. br_id r = j) T)"
    unfolding update_where_def by (rule find_map_update) (simp add: assms)
  then show ?thesis
    by (cases "find (\<lambda>r. br_id r = j) T") (auto simp: quantity_of_def dest: find_SomeD)
qed

lemma quantity_of_change:
  assumes "\<And>r. br_id (g r) = br_id r" and "\<And>r. br_quantity (g r) = h (br_quantity r)"
    and "quantity_of T i = Some q"
  shows "quantity_of (update_where (\<lambda>r. br_id r = i) g T) = (quantity_of T)(i \<mapsto> h q)"
proof
  fix j
  have "map_option (\<lambda>r. br_quantity (g r)) (find (\<lambda>r. br_id r = i) T) = Some (h q)"
    using assms(2,3) by (auto simp: quantity_of_def)
  then show "quantity_of (update_where (\<lambda>r. br_id r = i) g T) j = ((quantity_of T)(i \<mapsto> h q)) j"
    using quantity_of_update [of g i T j, OF assms(1)] by simp
qed

lemma find_conv_filter: "find P xs = (case filter P xs of [] \<Rightarrow> None | x # _ \<Rightarrow> Some x)"
  by (induction xs) auto

lemma select_quantity_find:
  "(case select_quantity i s of [] \<Rightarrow> None | q # _ \<Rightarrow> Some q) = stock s i"
  by (auto simp: select_quantity_def stock_def quantity_of_def find_conv_filter split: list.split)

lemma select_quantity_Nil: "select_quantity i s = [] \<Longrightarrow> stock s i = None"
  using select_quantity_find [of i s] by simp

lemma select_quantity_Cons: "select_quantity i s = q # qs \<Longrightarrow> stock s i = Some q"
  using select_quantity_find [of i s] by simp

lemma stock_nonneg: "bread_inv s \<Longrightarrow> stock s i = Some q \<Longrightarrow> 0 \<le> q \<and> is_int32 q"
  by (auto simp: stock_def quantity_of_def dest!: find_SomeD bread_inv_quantity)

text \<open>
  What a reservation of \<open>n\<close> units may do to the stock: \<open>m\<close> units, at most what was asked and
  at most what there is, and at least one, leave the one bread asked for.
\<close>

definition reserved :: "(int \<Rightarrow> int option) \<Rightarrow> int \<Rightarrow> int \<Rightarrow> int \<Rightarrow> (int \<Rightarrow> int option) \<Rightarrow> bool" where
  "reserved st i n m st' \<longleftrightarrow>
     (\<exists>q. st i = Some q \<and> m = min q n \<and> 0 < m \<and> st' = st(i \<mapsto> q - m))"

text \<open>
  What a reservation may do to the stock under any faults: only the one bread moves, never up,
  and down by at least what the answer reports.
\<close>

definition takes :: "(int \<Rightarrow> int option) \<Rightarrow> int \<Rightarrow> int \<Rightarrow> (int \<Rightarrow> int option) \<Rightarrow> bool" where
  "takes st i m st' \<longleftrightarrow> (\<forall>j. j \<noteq> i \<longrightarrow> st' j = st j) \<and>
     (case st i of None \<Rightarrow> m = 0 \<and> st' i = None | Some q \<Rightarrow> \<exists>r. st' i = Some r \<and> r \<le> q - m)"

lemma takes_refl [simp]: "takes st i 0 st"
  by (simp add: takes_def split: option.split)

lemma takes_trans: "takes st i a st' \<Longrightarrow> takes st' i b st'' \<Longrightarrow> takes st i (a + b) st''"
  by (auto simp: takes_def split: option.splits)

lemma takes_less: "takes st i m st' \<Longrightarrow> 0 \<le> m \<Longrightarrow> takes st i 0 st'"
  by (auto simp: takes_def split: option.splits)

lemma reserved_takes:
  "reserved st i n m st' \<Longrightarrow> takes st i m st' \<and> 0 < m \<and> m \<le> n"
  by (auto simp: reserved_def takes_def)

text \<open>The same for a series of reservations that reports \<open>f i\<close> units of bread \<open>i\<close>.\<close>

definition takes_all :: "(int \<Rightarrow> int option) \<Rightarrow> (int \<Rightarrow> int) \<Rightarrow> (int \<Rightarrow> int option) \<Rightarrow> bool" where
  "takes_all st f st' \<longleftrightarrow> (\<forall>i. case st i of None \<Rightarrow> f i = 0 \<and> st' i = None | Some q \<Rightarrow> \<exists>r. st' i = Some r \<and> r \<le> q - f i)"

lemma takes_all_refl [simp]: "takes_all st (\<lambda>_. 0) st"
  by (simp add: takes_all_def split: option.split)

lemma takes_takes_all: "takes st i m st' \<Longrightarrow> takes_all st (\<lambda>j. if j = i then m else 0) st'"
  by (auto simp: takes_def takes_all_def split: option.splits)

lemma takes_all_trans:
  assumes "takes_all st f st'" and "takes_all st' g st''"
  shows "takes_all st (\<lambda>i. f i + g i) st''"
  unfolding takes_all_def
proof
  fix i
  from assms have "case st i of None \<Rightarrow> f i = 0 \<and> st' i = None | Some q \<Rightarrow> \<exists>r. st' i = Some r \<and> r \<le> q - f i"
    "case st' i of None \<Rightarrow> g i = 0 \<and> st'' i = None | Some q \<Rightarrow> \<exists>r. st'' i = Some r \<and> r \<le> q - g i"
    by (simp_all add: takes_all_def)
  then show "case st i of None \<Rightarrow> f i + g i = 0 \<and> st'' i = None
      | Some q \<Rightarrow> \<exists>r. st'' i = Some r \<and> r \<le> q - (f i + g i)"
    by (cases "st i") auto
qed

lemma triple_param_int4:
  "(\<And>s. P s \<Longrightarrow> is_int32 n \<Longrightarrow> Q () s) \<Longrightarrow> (\<And>s. P s \<Longrightarrow> E DataError s) \<Longrightarrow> triple P (param_int4 n) Q E"
  unfolding param_int4_def by (rule triple_check) (auto split: if_splits)

lemma table_pred_stock [simp]: "table_pred (\<lambda>s. stock s = st)" "table_pred (\<lambda>s. stock s = st \<and> p)"
  "table_pred (\<lambda>s. reserved st i n m (stock s))"
  by (simp_all add: table_pred_def stock_def)

lemma update_bread_triple:
  assumes "\<And>r. br_id (g r) = br_id r" and "\<And>r. br_quantity (g r) = h (br_quantity r)"
  shows "triple (\<lambda>s. stock s = st \<and> st i = Some q) (sql_update_bread i g)
    (\<lambda>_ s. st i = Some q \<and> stock s = st(i \<mapsto> h q)) (\<lambda>_ s. stock s = st)"
  unfolding sql_update_bread_def
  using quantity_of_change [of g h, OF assms] by (intro triple_guarded) (auto simp: stock_def)

lemma sql_deduct_triple:
  "triple (\<lambda>s. stock s = st \<and> st i = Some q) (sql_deduct i m)
     (\<lambda>_ s. st i = Some q \<and> stock s = st(i \<mapsto> q - m)) (\<lambda>_ _. True)"
  unfolding sql_deduct_def
  by (intro triple_stmt triple_seq [where R = "\<lambda>_ s. stock s = st \<and> st i = Some q"]
      triple_param_int4 triple_query triple_weaken [OF update_bread_triple [where h = "\<lambda>q. q - m"]])
    auto

lemma select_quantity_triple:
  "triple (\<lambda>s. stock s = st) (query_row (select_quantity i))
     (\<lambda>q s. stock s = st \<and> st i = Some q) (\<lambda>_ s. stock s = st)"
  by (rule triple_query_row) (auto dest: select_quantity_Cons)

lemma FulfillOrderItem_triple:
  "triple (\<lambda>s. stock s = st) (FulfillOrderItem i n)
     (\<lambda>m s. reserved st i n m (stock s))
     (\<lambda>e s. stock s = st \<or> e = Wrapped ''commit'' DriverError \<and> (\<exists>m. reserved st i n m (stock s)))"
  unfolding FulfillOrderItem_def
proof (rule triple_transaction)
  show "triple (\<lambda>s. stock s = st) (fulfill_item i n) (\<lambda>m s. reserved st i n m (stock s)) (\<lambda>_ _. True)"
    unfolding fulfill_item_def Let_def
    by (intro triple_attempt [OF select_quantity_triple] triple_if triple_fail
        triple_attempt [OF sql_deduct_triple] triple_ret) (auto simp: reserved_def min_def)
qed auto

section \<open>What the methods return when the database answers\<close>

lemma bread_row_error_None:
  "bread_row_error r = None \<longleftrightarrow>
     is_int32 (br_id r) \<and> is_int32 (br_quantity r) \<and> fits 255 (br_name r)
     \<and> fits 255 (br_description r) \<and> fits 255 (br_type r) \<and> fits 50 (br_status r)
     \<and> (case br_image r of None \<Rightarrow> True | Some i \<Rightarrow> fits 255 i) \<and> fits_numeric 10 (br_price r)
     \<and> 0 \<le> br_quantity r \<and> br_status r \<in> set bread_statuses"
  by (auto simp: bread_row_error_def)

lemma select_rows_eq:
  "bread_inv s \<Longrightarrow> filter (\<lambda>r. br_id r = i) (bread_t s) =
    (case find (\<lambda>r. br_id r = i) (bread_t s) of None \<Rightarrow> [] | Some r \<Rightarrow> [r])"
  by (rule distinct_filter_key) (simp add: bread_inv_def)

lemma select_quantity_eq:
  "bread_inv s \<Longrightarrow> select_quantity i s = (case stock s i of None \<Rightarrow> [] | Some q \<Rightarrow> [q])"
  by (auto simp: select_quantity_def select_rows_eq stock_def quantity_of_def split: option.split)

lemma sql_deduct_result:
  assumes "bread_inv s" and "faults s = []" and "stock s i = Some q" and "0 < m" and "m \<le> q"
  shows "\<exists>t. sql_deduct i m s = (Inr (), t) \<and> faults t = []"
proof -
  obtain r where r: "find (\<lambda>r. br_id r = i) (bread_t s) = Some r" "br_quantity r = q"
    using assms(3) by (auto simp: stock_def quantity_of_def)
  then have "bread_row_error r = None"
    using assms(1) by (auto simp: bread_inv_def dest: find_SomeD)
  then have "bread_row_error (r\<lparr>br_quantity := q - m, br_updated_at := now s\<rparr>) = None" "is_int32 m"
    using r(2) assms(4,5) by (auto simp: bread_row_error_None is_int32_def)
  then show ?thesis
    using r assms(2)
    by (simp add: sql_deduct_def no_fault_simps seq_apply param_int4_def check_def
        sql_update_bread_def guarded_def update_error_def select_rows_eq [OF assms(1)])
qed

lemma fulfill_item_result:
  assumes "bread_inv s" and "faults s = []"
  shows "\<exists>t. fulfill_item i n s =
    (case stock s i of
       None \<Rightarrow> Inl (Wrapped ''lock bread'' ErrNoRows)
     | Some q \<Rightarrow> if min q n \<le> 0 then Inl ErrInsufficientStock else Inr (min q n), t) \<and> faults t = []"
proof (cases "stock s i")
  case None
  then show ?thesis
    using assms(2) select_quantity_eq [OF assms(1), of i]
    by (simp add: fulfill_item_def attempt_apply no_fault_simps)
next
  case (Some q)
  have start: "query_row (select_quantity i) s = (Inr q, s)"
    using Some assms(2) select_quantity_eq [OF assms(1), of i] by (simp add: no_fault_simps)
  have m: "(if q < n then q else n) = min q n" by simp
  show ?thesis
  proof (cases "min q n \<le> 0")
    case True
    then show ?thesis using Some assms(2) by (simp add: fulfill_item_def attempt_apply start m)
  next
    case False
    then obtain t where "sql_deduct i (min q n) s = (Inr (), t)" "faults t = []"
      using sql_deduct_result [OF assms Some, of "min q n"] by (auto simp: not_le)
    with False show ?thesis using Some by (simp add: fulfill_item_def attempt_apply start m Let_def)
  qed
qed

lemma FulfillOrderItem_result:
  assumes "bread_inv s" and "faults s = []"
  shows "fst (FulfillOrderItem i n s) =
    (case stock s i of
       None \<Rightarrow> Inl (Wrapped ''lock bread'' ErrNoRows)
     | Some q \<Rightarrow> if min q n \<le> 0 then Inl ErrInsufficientStock else Inr (min q n))"
proof -
  obtain t where "fulfill_item i n s =
    (case stock s i of
       None \<Rightarrow> Inl (Wrapped ''lock bread'' ErrNoRows)
     | Some q \<Rightarrow> if min q n \<le> 0 then Inl ErrInsufficientStock else Inr (min q n), t)" "faults t = []"
    using fulfill_item_result [OF assms] by blast
  then show ?thesis
    using assms(2)
    by (auto simp: FulfillOrderItem_def transaction_no_fault split: option.split sum.split)
qed

section \<open>AdjustBreadQuantity\<close>

lemma adjust_write_triple:
  "triple (\<lambda>s. stock s = st \<and> st i = Some q) (adjust_write i n b)
     (\<lambda>c s. c = b \<and> st i = Some q \<and> stock s = st(i \<mapsto> n))
     (\<lambda>e s. stock s = st \<or> e = DriverError \<and> st i = Some q \<and> stock s = st(i \<mapsto> n))"
  unfolding adjust_write_def
proof (rule triple_attempt)
  let ?E = "\<lambda>e s. stock s = st \<or> e = DriverError \<and> st i = Some q \<and> stock s = st(i \<mapsto> n)"
  show "triple (\<lambda>s. stock s = st \<and> st i = Some q)
      (stmt (seq (param_int4 n) (\<lambda>_. sql_update_bread i (\<lambda>r. r\<lparr>br_quantity := n\<rparr>))))
      (\<lambda>_ s. st i = Some q \<and> stock s = st(i \<mapsto> n)) ?E"
    by (intro triple_stmt triple_seq [where R = "\<lambda>_ s. stock s = st \<and> st i = Some q"]
        triple_param_int4 triple_weaken [OF update_bread_triple [where h = "\<lambda>_. n"]]) auto
qed (auto intro: triple_ret triple_fail)

text \<open>
  With the read and the update taken together, the stock moves to the capped sum or not at
  all; the flag says whether the cap cut anything off.
\<close>

lemma AdjustBreadQuantity_triple:
  "triple (\<lambda>s. stock s = st) (AdjustBreadQuantity i d)
     (\<lambda>c s. \<exists>q n. st i = Some q \<and> adjust_new q d = Inr (n, c) \<and> stock s = st(i \<mapsto> n))
     (\<lambda>e s. stock s = st \<or> e = DriverError \<and>
        (\<exists>q n c. st i = Some q \<and> adjust_new q d = Inr (n, c) \<and> stock s = st(i \<mapsto> n)))"
  unfolding AdjustBreadQuantity_def adjust_read_def
proof (rule triple_seq)
  let ?Q = "\<lambda>c s. \<exists>q n. st i = Some q \<and> adjust_new q d = Inr (n, c) \<and> stock s = st(i \<mapsto> n)"
  let ?E = "\<lambda>e s. stock s = st \<or> e = DriverError \<and>
        (\<exists>q n c. st i = Some q \<and> adjust_new q d = Inr (n, c) \<and> stock s = st(i \<mapsto> n))"
  show "triple (\<lambda>s. stock s = st) (query_row (select_quantity i))
      (\<lambda>q s. stock s = st \<and> st i = Some q) ?E"
    by (rule triple_weaken [OF select_quantity_triple]) auto
  show "triple (\<lambda>s. stock s = st \<and> st i = Some q)
     (case adjust_new q d of Inl e \<Rightarrow> fail e | Inr (n, c) \<Rightarrow> adjust_write i n c) ?Q ?E" for q
    by (auto split: sum.split intro!: triple_fail
        triple_weaken [OF adjust_write_triple [where st = st and q = q]])
qed

lemma adjust_new_bounds: "adjust_new q d = Inr (n, c) \<Longrightarrow> 0 \<le> n \<and> n \<le> 100 \<and> (c \<longleftrightarrow> int64 (q + d) \<le> 100)"
  by (auto simp: adjust_new_def Let_def split: if_splits)

end
