(* ===== verification/Orders.thy ===== *)
theory Orders
  imports Inventory
begin

text \<open>
  Buy orders, make orders and the replenishment requests of \<open>data/models.go\<close>: insertion in one
  transaction, reading back, the fulfilment transaction, and what these do to orders and stock.
\<close>

section \<open>SQL on the order tables\<close>

definition sql_update_order :: "(buy_order_row \<Rightarrow> bool) \<Rightarrow> (buy_order_row \<Rightarrow> buy_order_row) \<Rightarrow> unit repo" where
  "sql_update_order P g = guarded (\<lambda>s. update_error buy_order_row_error P g (buy_order_t s))
     (\<lambda>s. s\<lparr>buy_order_t := update_where P g (buy_order_t s)\<rparr>)"

definition sql_update_detail :: "int \<Rightarrow> int \<Rightarrow> (order_detail_row \<Rightarrow> order_detail_row) \<Rightarrow> unit repo" where
  "sql_update_detail i j g =
     (let P = (\<lambda>d. od_buy_order_id d = i \<and> od_bread_id d = j)
      in guarded (\<lambda>s. update_error order_detail_row_error P g (order_details_t s))
           (\<lambda>s. s\<lparr>order_details_t := update_where P g (order_details_t s)\<rparr>))"

section \<open>Buy orders\<close>

definition UpdateOrderStatus :: "string \<Rightarrow> string \<Rightarrow> unit repo" where
  "UpdateOrderStatus buyOrderUUID status =
     stmt (sql_update_order (\<lambda>r. bo_uuid r = buyOrderUUID) (\<lambda>r. r\<lparr>bo_status := status\<rparr>))"

text \<open>\<open>SUM(od.price * od.quantity)\<close> over the join, computed by the server in \<open>numeric\<close>.\<close>

definition order_total :: "int \<Rightarrow> db \<Rightarrow> numeric" where
  "order_total orderID s =
     num_sum (concat (map (\<lambda>bo. map (\<lambda>od. num_scale (od_price od) (od_quantity od))
         (filter (\<lambda>od. od_buy_order_id od = bo_id bo) (order_details_t s)))
       (filter (\<lambda>bo. bo_id bo = orderID) (buy_order_t s))))"

definition GetOrderTotalCost :: "int \<Rightarrow> f64 repo" where
  "GetOrderTotalCost orderID =
     attempt (query_row (\<lambda>s. [order_total orderID s]))
       (\<lambda>e. if errors_Is e ErrNoRows then ret 0 else fail e)
       (\<lambda>total. ret (f64_of_numeric total))"

definition insert_order_header :: "BuyOrder \<Rightarrow> int repo" where
  "insert_order_header order = stmt
     (seq (nextval BuySeq) (\<lambda>i.
        let r = \<lparr>bo_id = i, bo_customer_id = o_CustomerID order, bo_uuid = o_BuyOrderUUID order,
                  bo_status = ''processing''\<rparr>
        in seq (guarded (insert_buy_order_error r) (\<lambda>s. s\<lparr>buy_order_t := buy_order_t s @ [r]\<rparr>))
             (\<lambda>_. ret i)))"

definition insert_order_detail :: "int \<Rightarrow> Bread \<Rightarrow> unit repo" where
  "insert_order_detail newID bread =
     seq (query now) (\<lambda>t. stmt
       (seq (param_numeric 10 (b_Price bread)) (\<lambda>p.
          let r = \<lparr>od_buy_order_id = newID, od_bread_id = b_ID bread, od_quantity = b_Quantity bread,
                    od_price = p, od_status = ''pending'', od_created_at = t, od_updated_at = t\<rparr>
          in guarded (insert_detail_error r) (\<lambda>s. s\<lparr>order_details_t := order_details_t s @ [r]\<rparr>))))"

definition InsertBuyOrder :: "BuyOrder \<Rightarrow> Bread list \<Rightarrow> int repo" where
  "InsertBuyOrder order breads = transaction id id
     (seq (insert_order_header order) (\<lambda>newID.
      seq (for_each (\<lambda>bread _. insert_order_detail newID bread) breads ()) (\<lambda>_.
      ret newID)))"

section \<open>Reading buy orders\<close>

text \<open>\<open>COALESCE(NULLIF(status, ''), 'processing')\<close> and the columns of the header.\<close>

definition scan_order :: "buy_order_row \<Rightarrow> BuyOrder" where
  "scan_order r = zero_BuyOrder\<lparr>o_ID := bo_id r, o_CustomerID := bo_customer_id r,
     o_BuyOrderUUID := bo_uuid r,
     o_Status := (if bo_status r = [] then ''processing'' else bo_status r)\<rparr>"

definition detail_bread :: "order_detail_row \<Rightarrow> Bread" where
  "detail_bread d = zero_Bread\<lparr>b_ID := od_bread_id d, b_Quantity := od_quantity d,
     b_Price := f64_of_numeric (od_price d)\<rparr>"

text \<open>The loop over the details scans the times of each row into the order itself.\<close>

definition scan_details :: "order_detail_row list \<Rightarrow> BuyOrder \<Rightarrow> BuyOrder" where
  "scan_details rows order =
     (fold (\<lambda>d ord. ord\<lparr>o_CreatedAt := od_created_at d, o_UpdatedAt := od_updated_at d\<rparr>) rows order)
       \<lparr>o_Breads := map detail_bread rows\<rparr>"

definition details_of :: "int \<Rightarrow> db \<Rightarrow> order_detail_row list" where
  "details_of i s = filter (\<lambda>d. od_buy_order_id d = i) (order_details_t s)"

definition load_order :: "(buy_order_row \<Rightarrow> bool) \<Rightarrow> BuyOrder repo" where
  "load_order P =
     seq (query_row (\<lambda>s. filter P (buy_order_t s))) (\<lambda>r.
     seq (query_rows (details_of (bo_id r))) (\<lambda>(rows, broken).
     ret (scan_details rows (scan_order r))))"

definition GetBuyOrderByID :: "int \<Rightarrow> BuyOrder repo" where
  "GetBuyOrderByID orderID = load_order (\<lambda>r. bo_id r = orderID)"

definition GetBuyOrderByUUID :: "string \<Rightarrow> BuyOrder repo" where
  "GetBuyOrderByUUID orderUUID = load_order (\<lambda>r. bo_uuid r = orderUUID)"

definition GetAllBuyOrders :: "BuyOrder list repo" where
  "GetAllBuyOrders =
     seq (query_rows buy_order_t) (\<lambda>(headers, broken).
       for_each (\<lambda>r orders.
           seq (query_rows (details_of (bo_id r))) (\<lambda>(rows, cut).
           ret (orders @ [scan_details rows (scan_order r)])))
         headers [])"

text \<open>
  \<open>GetCustomerOrders\<close> drops an order whose details could not be queried (\<open>continue\<close>).
\<close>

definition GetCustomerOrders :: "int \<Rightarrow> BuyOrder list repo" where
  "GetCustomerOrders customerID =
     seq (query_rows (\<lambda>s. rev (sort_key bo_id (filter (\<lambda>r. bo_customer_id r = customerID) (buy_order_t s)))))
       (\<lambda>(headers, broken).
       for_each (\<lambda>r orders.
           attempt (query_rows (details_of (bo_id r)))
             (\<lambda>e. ret orders)
             (\<lambda>(rows, cut). ret (orders @ [scan_details rows (scan_order r)])))
         headers [])"

section \<open>Make orders\<close>

definition insert_make_header :: "MakeOrder \<Rightarrow> int repo" where
  "insert_make_header order = stmt
     (seq (nextval MakeSeq) (\<lambda>i.
        let r = \<lparr>mk_id = i, mk_bread_maker_id = mo_BreadMakerID order, mk_uuid = mo_MakeOrderUUID order\<rparr>
        in seq (guarded (insert_make_order_error r) (\<lambda>s. s\<lparr>make_order_t := make_order_t s @ [r]\<rparr>))
             (\<lambda>_. ret i)))"

definition insert_make_detail :: "int \<Rightarrow> Bread \<Rightarrow> unit repo" where
  "insert_make_detail newID bread = stmt
     (let r = \<lparr>md_make_order_id = newID, md_bread_id = b_ID bread, md_quantity = b_Quantity bread\<rparr>
      in guarded (insert_make_detail_error r) (\<lambda>s. s\<lparr>make_details_t := make_details_t s @ [r]\<rparr>))"

text \<open>
  \<open>AdjustBreadQuantity\<close> runs on the pool and not in the transaction, so that a rollback does
  not undo it: the bread table keeps what it had become.
\<close>

definition rollback_but_bread :: "db \<Rightarrow> db \<Rightarrow> db" where
  "rollback_but_bread s0 s = (rollback s0 s)\<lparr>bread_t := bread_t s\<rparr>"

definition InsertMakeOrder :: "MakeOrder \<Rightarrow> Bread list \<Rightarrow> int repo" where
  "InsertMakeOrder order breads = transaction_with rollback_but_bread id id
     (seq (insert_make_header order) (\<lambda>newID.
      seq (for_each (\<lambda>bread _.
             seq (insert_make_detail newID bread) (\<lambda>_.
             seq (AdjustBreadQuantity (b_ID bread) (b_Quantity bread)) (\<lambda>_. ret ())))
           breads ()) (\<lambda>_.
      ret newID)))"

text \<open>
  \<open>SELECT *\<close> delivers the five columns of \<open>make_order\<close>; \<open>Scan\<close> is given three
  destinations and fails on every row.
\<close>

definition make_order_columns :: nat where
  "make_order_columns = 5"

definition scan_star :: "nat \<Rightarrow> make_order_row \<Rightarrow> db_err + MakeOrder" where
  "scan_star destinations r =
     (if destinations \<noteq> make_order_columns then Inl ScanError
      else Inr (zero_MakeOrder\<lparr>mo_ID := mk_id r, mo_BreadMakerID := mk_bread_maker_id r,
                 mo_MakeOrderUUID := mk_uuid r\<rparr>))"

definition make_details_of :: "int \<Rightarrow> db \<Rightarrow> make_detail_row list" where
  "make_details_of i s = filter (\<lambda>d. md_make_order_id d = i) (make_details_t s)"

definition GetMakeOrderByID :: "int \<Rightarrow> MakeOrder repo" where
  "GetMakeOrderByID orderID =
     seq (query_row (\<lambda>s. filter (\<lambda>r. mk_id r = orderID) (make_order_t s))) (\<lambda>r.
     case scan_star 3 r of
       Inl e \<Rightarrow> fail e
     | Inr order \<Rightarrow>
         seq (query_rows (make_details_of orderID)) (\<lambda>(rows, broken).
         seq (for_each (\<lambda>d breads.
                seq (GetBreadByID (md_bread_id d)) (\<lambda>b.
                ret (breads @ [b\<lparr>b_Quantity := md_quantity d\<rparr>]))) rows []) (\<lambda>breads.
         ret (order\<lparr>mo_Breads := breads\<rparr>))))"

text \<open>A bread that cannot be read is left out, and so is an order whose details cannot be queried.\<close>

definition load_make_orders :: "(db \<Rightarrow> make_order_row list) \<Rightarrow> MakeOrder list repo" where
  "load_make_orders f =
     seq (query_rows f) (\<lambda>(headers, broken).
       for_each (\<lambda>r orders.
           attempt (query_rows (make_details_of (mk_id r)))
             (\<lambda>e. ret orders)
             (\<lambda>(rows, cut).
               seq (for_each (\<lambda>d breads.
                      attempt (GetBreadByID (md_bread_id d)) (\<lambda>e. ret breads)
                        (\<lambda>b. ret (breads @ [b\<lparr>b_Quantity := md_quantity d\<rparr>]))) rows []) (\<lambda>breads.
               ret (orders @ [zero_MakeOrder\<lparr>mo_ID := mk_id r, mo_BreadMakerID := mk_bread_maker_id r,
                                mo_MakeOrderUUID := mk_uuid r, mo_Breads := breads\<rparr>]))))
         headers [])"

definition GetMakerOrders :: "int \<Rightarrow> MakeOrder list repo" where
  "GetMakerOrders makerID =
     load_make_orders (\<lambda>s. rev (sort_key mk_id (filter (\<lambda>r. mk_bread_maker_id r = makerID) (make_order_t s))))"

definition GetAllMakeOrders :: "MakeOrder list repo" where
  "GetAllMakeOrders = load_make_orders (\<lambda>s. rev (sort_key mk_id (make_order_t s)))"

section \<open>Replenishment requests\<close>

definition InsertPendingMakeOrder :: "PendingMakeOrder \<Rightarrow> int repo" where
  "InsertPendingMakeOrder order = stmt
     (seq (nextval PendingSeq) (\<lambda>i.
      seq (query now) (\<lambda>t.
        let r = \<lparr>pd_id = i, pd_bread_id = p_BreadID order,
                  pd_requested_quantity = p_RequestedQuantity order, pd_status = p_Status order,
                  pd_source = p_Source order, pd_created_at = t, pd_updated_at = t\<rparr>
        in seq (guarded (insert_pending_error r) (\<lambda>s. s\<lparr>pending_t := pending_t s @ [r]\<rparr>))
             (\<lambda>_. ret i))))"

definition scan_pending :: "pending_row \<Rightarrow> PendingMakeOrder" where
  "scan_pending r = \<lparr>p_ID = pd_id r, p_BreadID = pd_bread_id r,
     p_RequestedQuantity = pd_requested_quantity r, p_Status = pd_status r, p_Source = pd_source r,
     p_CreatedAt = pd_created_at r, p_UpdatedAt = pd_updated_at r\<rparr>"

text \<open>Despite its name it only reads; a negative LIMIT is refused by the server.\<close>

definition ClaimPendingMakeOrders :: "int \<Rightarrow> PendingMakeOrder list repo" where
  "ClaimPendingMakeOrders n =
     (if n < 0 then stmt (fail DataError)
      else seq (query_rows (\<lambda>s. take (nat n) (sort_key pd_created_at
                  (filter (\<lambda>r. pd_status r = ''pending'') (pending_t s)))))
             (\<lambda>(rows, broken). ret (map scan_pending rows)))"

definition UpdatePendingMakeOrderStatus :: "int \<Rightarrow> string \<Rightarrow> unit repo" where
  "UpdatePendingMakeOrderStatus i status = stmt
     (seq (query now) (\<lambda>t.
        let P = (\<lambda>r. pd_id r = i); g = (\<lambda>r. r\<lparr>pd_status := status, pd_updated_at := t\<rparr>)
        in guarded (\<lambda>s. update_error pending_row_error P g (pending_t s))
             (\<lambda>s. s\<lparr>pending_t := update_where P g (pending_t s)\<rparr>)))"

section \<open>FulfillOrderTx\<close>

record tally =
  totalRequested :: int
  totalFulfilled :: int
  hasRejected :: bool

definition mark_detail :: "string \<Rightarrow> int \<Rightarrow> int \<Rightarrow> unit repo" where
  "mark_detail status i j = stmt
     (seq (query now) (\<lambda>t. sql_update_detail i j (\<lambda>d. d\<lparr>od_status := status, od_updated_at := t\<rparr>)))"

definition settle_detail :: "int \<Rightarrow> string \<Rightarrow> int \<Rightarrow> int \<Rightarrow> unit repo" where
  "settle_detail n status i j = stmt
     (seq (param_int4 n) (\<lambda>_.
      seq (query now) (\<lambda>t.
      sql_update_detail i j (\<lambda>d. d\<lparr>od_quantity := n, od_status := status, od_updated_at := t\<rparr>))))"

definition wrap :: "string \<Rightarrow> 'a repo \<Rightarrow> 'a repo" where
  "wrap msg m = attempt m (\<lambda>e. fail (Wrapped msg e)) ret"

definition fulfill_tx_item :: "BuyOrder \<Rightarrow> Bread \<Rightarrow> tally \<Rightarrow> tally repo" where
  "fulfill_tx_item order bread a =
     (let a = a\<lparr>totalRequested := int64 (totalRequested a + b_Quantity bread)\<rparr> in
      seq (wrap ''lock bread'' (query_row (select_quantity (b_ID bread)))) (\<lambda>currentQty.
      if currentQty = 0 then
        (if o_SkipUnavailableItems order \<or> o_AllowPartial order
         then seq (wrap ''mark skipped order_detail'' (mark_detail ''skipped'' (o_ID order) (b_ID bread)))
                (\<lambda>_. ret a)
         else seq (wrap ''mark rejected order_detail'' (mark_detail ''rejected'' (o_ID order) (b_ID bread)))
                (\<lambda>_. ret (a\<lparr>hasRejected := True\<rparr>)))
      else
        (let fulfillQty = (if currentQty < b_Quantity bread then currentQty else b_Quantity bread) in
         seq (wrap ''deduct bread'' (sql_deduct (b_ID bread) fulfillQty)) (\<lambda>_.
         seq (wrap ''update order_detail'' (settle_detail fulfillQty
                (if fulfillQty < b_Quantity bread then ''partially_fulfilled'' else ''fulfilled'')
                (o_ID order) (b_ID bread))) (\<lambda>_.
         ret (a\<lparr>totalFulfilled := int64 (totalFulfilled a + fulfillQty)\<rparr>))))))"

definition order_status :: "BuyOrder \<Rightarrow> tally \<Rightarrow> string" where
  "order_status order a =
     (if hasRejected a \<and> \<not> o_AllowPartial order then ''rejected''
      else if totalFulfilled a = totalRequested a \<and> 0 < totalRequested a then ''processed''
      else if 0 < totalFulfilled a then ''partially_processed''
      else ''failed'')"

definition zero_tally :: tally where
  "zero_tally = \<lparr>totalRequested = 0, totalFulfilled = 0, hasRejected = False\<rparr>"

definition FulfillOrderTx :: "BuyOrder \<Rightarrow> unit repo" where
  "FulfillOrderTx order = transaction (Wrapped ''begin transaction'') id
     (seq (for_each (fulfill_tx_item order) (go_sort (\<lambda>x y. b_ID x < b_ID y) (o_Breads order)) zero_tally) (\<lambda>a.
      wrap ''update order status'' (stmt
        (sql_update_order (\<lambda>r. bo_id r = o_ID order) (\<lambda>r. r\<lparr>bo_status := order_status order a\<rparr>)))))"


section \<open>The invariant\<close>

lemma keeps_sql_update_order:
  "(\<And>r. bo_id (g r) = bo_id r) \<Longrightarrow> (\<And>r. bo_uuid (g r) = bo_uuid r) \<Longrightarrow>
   (\<And>r. bo_customer_id (g r) = bo_customer_id r) \<Longrightarrow> keeps db_inv (sql_update_order P g)"
  unfolding sql_update_order_def by (intro keeps_guarded update_buy_order_inv)

lemma keeps_sql_update_detail:
  "(\<And>d. od_buy_order_id (g d) = od_buy_order_id d) \<Longrightarrow> (\<And>d. od_bread_id (g d) = od_bread_id d) \<Longrightarrow>
   keeps db_inv (sql_update_detail i j g)"
  unfolding sql_update_detail_def Let_def by (intro keeps_guarded update_detail_inv)

lemma keeps_wrap [keeps_intros]: "keeps I m \<Longrightarrow> keeps I (wrap msg m)"
  unfolding wrap_def by (intro keeps_intros)

lemma keeps_UpdateOrderStatus: "keeps db_inv (UpdateOrderStatus u st)"
  unfolding UpdateOrderStatus_def by (intro keeps_intros keeps_sql_update_order) simp_all

lemma keeps_GetOrderTotalCost: "keeps db_inv (GetOrderTotalCost i)"
  unfolding GetOrderTotalCost_def by (intro keeps_intros) simp_all

lemma keeps_InsertBuyOrder: "keeps db_inv (InsertBuyOrder order breads)"
  unfolding InsertBuyOrder_def insert_order_header_def insert_order_detail_def Let_def
  by (intro keeps_intros insert_inv) simp_all

lemma keeps_load_order: "keeps db_inv (load_order P)"
  unfolding load_order_def by (intro keeps_intros) simp_all

lemma keeps_GetBuyOrderByID: "keeps db_inv (GetBuyOrderByID i)"
  unfolding GetBuyOrderByID_def by (rule keeps_load_order)

lemma keeps_GetBuyOrderByUUID: "keeps db_inv (GetBuyOrderByUUID u)"
  unfolding GetBuyOrderByUUID_def by (rule keeps_load_order)

lemma keeps_GetAllBuyOrders: "keeps db_inv GetAllBuyOrders"
  unfolding GetAllBuyOrders_def by (intro keeps_intros) simp_all

lemma keeps_GetCustomerOrders: "keeps db_inv (GetCustomerOrders i)"
  unfolding GetCustomerOrders_def by (intro keeps_intros) simp_all

lemma keeps_load_make_orders: "keeps db_inv (load_make_orders f)"
  unfolding load_make_orders_def by (intro keeps_intros keeps_GetBreadByID) simp_all

lemma keeps_GetMakerOrders: "keeps db_inv (GetMakerOrders i)"
  unfolding GetMakerOrders_def by (rule keeps_load_make_orders)

lemma keeps_GetAllMakeOrders: "keeps db_inv GetAllMakeOrders"
  unfolding GetAllMakeOrders_def by (rule keeps_load_make_orders)

lemma keeps_GetMakeOrderByID: "keeps db_inv (GetMakeOrderByID i)"
  unfolding GetMakeOrderByID_def by (intro keeps_intros keeps_GetBreadByID) simp_all

lemma keeps_InsertPendingMakeOrder: "keeps db_inv (InsertPendingMakeOrder p)"
  unfolding InsertPendingMakeOrder_def Let_def by (intro keeps_intros insert_inv) simp_all

lemma keeps_ClaimPendingMakeOrders: "keeps db_inv (ClaimPendingMakeOrders n)"
  unfolding ClaimPendingMakeOrders_def by (intro keeps_intros) simp_all

lemma keeps_UpdatePendingMakeOrderStatus: "keeps db_inv (UpdatePendingMakeOrderStatus i st)"
  unfolding UpdatePendingMakeOrderStatus_def Let_def by (intro keeps_intros update_pending_inv) simp_all

lemma keeps_sql_deduct: "keeps db_inv (sql_deduct i n)"
  unfolding sql_deduct_def param_int4_def
  by (intro keeps_intros keeps_sql_update_bread) simp_all

lemma keeps_fulfill_tx_item: "keeps db_inv (fulfill_tx_item order b a)"
  unfolding fulfill_tx_item_def mark_detail_def settle_detail_def param_int4_def Let_def
  by (intro keeps_intros keeps_sql_update_detail keeps_sql_deduct) simp_all

lemma keeps_FulfillOrderTx: "keeps db_inv (FulfillOrderTx order)"
  unfolding FulfillOrderTx_def
  by (intro keeps_intros keeps_fulfill_tx_item keeps_sql_update_order) simp_all

text \<open>
  A make order can be rolled back while the bread it added stays: the invariant holds all the
  same because \<open>AdjustBreadQuantity\<close> does not change which breads there are.
\<close>

definition same_breads :: "int list \<Rightarrow> db \<Rightarrow> bool" where
  "same_breads ids s \<longleftrightarrow> db_inv s \<and> map br_id (bread_t s) = ids"

lemma table_pred_same_breads [simp]: "table_pred (same_breads ids)"
  using table_pred_db_inv by (simp add: table_pred_def same_breads_def)

lemma keeps_same_breads:
  "keeps db_inv m \<Longrightarrow> keeps (\<lambda>s. map br_id (bread_t s) = ids) m \<Longrightarrow> keeps (same_breads ids) m"
  by (simp add: keeps_def same_breads_def)

lemma bread_ids_update: "keeps (\<lambda>s. map br_id (bread_t s) = ids) (sql_update_bread i (\<lambda>r. r\<lparr>br_quantity := n\<rparr>))"
  unfolding sql_update_bread_def by (intro keeps_guarded) (simp add: map_update_where)

lemma table_pred_ids [simp]: "table_pred (\<lambda>s. map br_id (bread_t s) = ids)"
  by (simp add: table_pred_def)

lemma bread_ids_AdjustBreadQuantity: "keeps (\<lambda>s. map br_id (bread_t s) = ids) (AdjustBreadQuantity i q)"
  unfolding AdjustBreadQuantity_def adjust_read_def adjust_write_def param_int4_def
  by (intro keeps_intros bread_ids_update) simp_all

lemma replace_breads_inv:
  assumes "db_inv s" and "bread_inv t" and "map br_id (bread_t t) = map br_id (bread_t s)"
  shows "db_inv (s\<lparr>bread_t := bread_t t\<rparr>)"
proof -
  have "br_id ` set (bread_t t) = br_id ` set (bread_t s)"
    using assms(3) by (metis set_map)
  with assms(1,2) show ?thesis by (simp add: db_inv_def inv_defs)
qed

lemma rollback_but_bread_inv:
  assumes "same_breads ids s" and "same_breads ids t"
  shows "same_breads ids (rollback_but_bread s t)"
proof -
  have "db_inv (rollback s t)"
    using assms(1) by (simp add: same_breads_def table_pred_rollback)
  then have "db_inv ((rollback s t)\<lparr>bread_t := bread_t t\<rparr>)"
    using assms by (intro replace_breads_inv) (simp_all add: same_breads_def db_inv_bread)
  with assms show ?thesis by (simp add: same_breads_def rollback_but_bread_def)
qed

lemma keeps_InsertMakeOrder: "keeps db_inv (InsertMakeOrder order breads)"
proof (rule keepsI)
  fix s assume "db_inv s"
  let ?ids = "map br_id (bread_t s)"
  have "keeps (same_breads ?ids) (InsertMakeOrder order breads)"
    unfolding InsertMakeOrder_def insert_make_header_def insert_make_detail_def Let_def
    by (intro keeps_transaction_with rollback_but_bread_inv keeps_intros keeps_same_breads [OF keeps_AdjustBreadQuantity bread_ids_AdjustBreadQuantity])
      (auto simp: same_breads_def intro: insert_inv)
  then show "db_inv (snd (InsertMakeOrder order breads s))"
    using \<open>db_inv s\<close> keepsD [of "same_breads ?ids" _ s] by (auto simp: same_breads_def)
qed

lemmas keeps_orders = keeps_UpdateOrderStatus keeps_GetOrderTotalCost keeps_InsertBuyOrder
  keeps_GetBuyOrderByID keeps_GetBuyOrderByUUID keeps_GetAllBuyOrders keeps_GetCustomerOrders
  keeps_GetMakerOrders keeps_GetAllMakeOrders keeps_GetMakeOrderByID keeps_InsertPendingMakeOrder
  keeps_ClaimPendingMakeOrders keeps_UpdatePendingMakeOrderStatus keeps_FulfillOrderTx
  keeps_InsertMakeOrder

section \<open>What InsertBuyOrder stores\<close>

text \<open>The row of a bread of an order, with the price as the column keeps it.\<close>

definition stored_as :: "(nat \<Rightarrow> f64 \<Rightarrow> numeric option) \<Rightarrow> int \<Rightarrow> Bread \<Rightarrow> order_detail_row \<Rightarrow> bool" where
  "stored_as conv i b d \<longleftrightarrow> od_buy_order_id d = i \<and> od_bread_id d = b_ID b
     \<and> od_quantity d = b_Quantity b \<and> conv 10 (b_Price b) = Some (od_price d) \<and> od_status d = ''pending''"

text \<open>
  \<open>order_added order conv B D i ys\<close>: on top of the headers \<open>B\<close> and the details \<open>D\<close>
  there are the header \<open>i\<close> of the order and the details of the breads \<open>ys\<close>, and nothing
  else.
\<close>

definition order_added ::
  "BuyOrder \<Rightarrow> (nat \<Rightarrow> f64 \<Rightarrow> numeric option) \<Rightarrow> buy_order_row list \<Rightarrow> order_detail_row list
     \<Rightarrow> int \<Rightarrow> Bread list \<Rightarrow> db \<Rightarrow> bool" where
  "order_added order conv B D i ys s \<longleftrightarrow>
     buy_order_t s = B @ [\<lparr>bo_id = i, bo_customer_id = o_CustomerID order, bo_uuid = o_BuyOrderUUID order,
                           bo_status = ''processing''\<rparr>]
     \<and> i \<notin> bo_id ` set B \<and> o_BuyOrderUUID order \<notin> bo_uuid ` set B
     \<and> (\<exists>ds. order_details_t s = D @ ds \<and> list_all2 (stored_as conv i) ys ds)
     \<and> to_numeric s = conv"

lemma table_pred_order_added [simp]: "table_pred (order_added order conv B D i ys)"
  by (simp add: table_pred_def order_added_def)

lemma triple_nextval:
  "table_pred P \<Longrightarrow> triple P (nextval n) (\<lambda>i s. P s) E"
  by (simp add: triple_def nextval_def table_pred_seqs)

lemma triple_param_numeric:
  "(\<And>s p. P s \<Longrightarrow> to_numeric s k x = Some p \<Longrightarrow> Q p s) \<Longrightarrow> (\<And>s. P s \<Longrightarrow> E DataError s) \<Longrightarrow>
   triple P (param_numeric k x) Q E"
  by (auto simp: triple_def param_numeric_def seq_apply split: option.splits)

lemma insert_order_header_triple:
  "triple (\<lambda>s. buy_order_t s = B \<and> order_details_t s = D \<and> to_numeric s = conv)
     (insert_order_header order) (\<lambda>i s. order_added order conv B D i [] s) (\<lambda>_ _. True)"
proof -
  let ?P = "\<lambda>s. buy_order_t s = B \<and> order_details_t s = D \<and> to_numeric s = conv"
  have P: "table_pred ?P" by (simp add: table_pred_def)
  show ?thesis
    unfolding insert_order_header_def Let_def
    by (rule triple_stmt [OF P], rule triple_seq [OF triple_nextval [OF P]],
        rule triple_seq [where R = "\<lambda>_ s. order_added order conv B D _ [] s"],
        rule triple_guarded)
      (auto simp: order_added_def insert_buy_order_error_def check_simps intro!: triple_ret)
qed

lemma insert_order_detail_triple:
  "triple (order_added order conv B D i ys) (insert_order_detail i b)
     (\<lambda>_. order_added order conv B D i (ys @ [b])) (\<lambda>_ _. True)"
  unfolding insert_order_detail_def Let_def
proof (rule triple_seq [where R = "\<lambda>_. order_added order conv B D i ys"])
  fix t
  let ?P = "order_added order conv B D i ys"
  let ?r = "\<lambda>p. \<lparr>od_buy_order_id = i, od_bread_id = b_ID b, od_quantity = b_Quantity b,
              od_price = p, od_status = ''pending'', od_created_at = t, od_updated_at = t\<rparr>"
  have step: "order_added order conv B D i (ys @ [b]) (s\<lparr>order_details_t := order_details_t s @ [?r p]\<rparr>)"
    if added: "?P s" and p: "conv 10 (b_Price b) = Some p" for s p
  proof -
    obtain ds where ds: "order_details_t s = D @ ds" "list_all2 (stored_as conv i) ys ds"
      using added by (auto simp: order_added_def)
    have "list_all2 (stored_as conv i) (ys @ [b]) (ds @ [?r p])"
      using ds(2) p by (intro list_all2_appendI) (simp_all add: stored_as_def)
    then show ?thesis using added ds(1) by (simp add: order_added_def)
  qed
  show "triple ?P (stmt (seq (param_numeric 10 (b_Price b))
      (\<lambda>p. guarded (insert_detail_error (?r p)) (\<lambda>s. s\<lparr>order_details_t := order_details_t s @ [?r p]\<rparr>))))
      (\<lambda>_. order_added order conv B D i (ys @ [b])) (\<lambda>_ _. True)"
  proof (rule triple_stmt)
    show "triple ?P (seq (param_numeric 10 (b_Price b))
      (\<lambda>p. guarded (insert_detail_error (?r p)) (\<lambda>s. s\<lparr>order_details_t := order_details_t s @ [?r p]\<rparr>)))
      (\<lambda>_. order_added order conv B D i (ys @ [b])) (\<lambda>_ _. True)"
      by (rule triple_seq [where R = "\<lambda>p s. ?P s \<and> conv 10 (b_Price b) = Some p"])
        (auto intro!: triple_param_numeric triple_guarded step, simp add: order_added_def)
  qed simp_all
qed (auto intro: triple_query)

lemma InsertBuyOrder_triple:
  "triple (\<lambda>s. buy_order_t s = B \<and> order_details_t s = D \<and> to_numeric s = conv)
     (InsertBuyOrder order breads) (\<lambda>i. order_added order conv B D i breads)
     (\<lambda>e s. buy_order_t s = B \<and> order_details_t s = D
        \<or> e = DriverError \<and> (\<exists>i. order_added order conv B D i breads s))"
  unfolding InsertBuyOrder_def
proof (rule triple_transaction)
  let ?A = "order_added order conv B D"
  have loop: "triple (?A i ([] :: Bread list)) (for_each (\<lambda>b _. insert_order_detail i b) breads ())
      (\<lambda>_. ?A i ([] @ breads)) (\<lambda>_ _. True)" for i
    using triple_for_each [of "\<lambda>ys _. ?A i ys" "\<lambda>b _. insert_order_detail i b" "\<lambda>_ _. True"
        "[]" "()" breads] insert_order_detail_triple
    by simp
  show "triple (\<lambda>s. buy_order_t s = B \<and> order_details_t s = D \<and> to_numeric s = conv)
     (seq (insert_order_header order) (\<lambda>newID.
      seq (for_each (\<lambda>bread _. insert_order_detail newID bread) breads ()) (\<lambda>_. ret newID)))
     (\<lambda>i. ?A i breads) (\<lambda>_ _. True)"
    by (rule triple_seq [OF insert_order_header_triple], rule triple_seq [OF loop])
      (auto intro: triple_ret)
qed (auto simp: table_pred_def order_added_def)

section \<open>Reading back\<close>

lemma details_of_added:
  assumes "db_inv s" and "order_added order conv (buy_order_t s) (order_details_t s) i ys t"
  shows "list_all2 (stored_as conv i) ys (details_of i t)"
proof -
  obtain ds where ds: "order_details_t t = order_details_t s @ ds" "list_all2 (stored_as conv i) ys ds"
    using assms(2) by (auto simp: order_added_def)
  have "filter (\<lambda>d. od_buy_order_id d = i) (order_details_t s) = []"
    using assms by (auto simp: filter_empty_conv db_inv_def orders_inv_def order_added_def)
  moreover have "filter (\<lambda>d. od_buy_order_id d = i) ds = ds"
    using ds(2) by (auto simp: filter_id_conv list_all2_conv_all_nth in_set_conv_nth stored_as_def)
  ultimately show ?thesis using ds by (simp add: details_of_def)
qed

lemma scan_details_header [simp]:
  "o_ID (scan_details rows ord) = o_ID ord" "o_CustomerID (scan_details rows ord) = o_CustomerID ord"
  "o_BuyOrderUUID (scan_details rows ord) = o_BuyOrderUUID ord" "o_Status (scan_details rows ord) = o_Status ord"
  "o_Breads (scan_details rows ord) = map detail_bread rows"
proof -
  have "o_ID (fold (\<lambda>d ord. ord\<lparr>o_CreatedAt := od_created_at d, o_UpdatedAt := od_updated_at d\<rparr>) rows ord) = o_ID ord
    \<and> o_CustomerID (fold (\<lambda>d ord. ord\<lparr>o_CreatedAt := od_created_at d, o_UpdatedAt := od_updated_at d\<rparr>) rows ord) = o_CustomerID ord
    \<and> o_BuyOrderUUID (fold (\<lambda>d ord. ord\<lparr>o_CreatedAt := od_created_at d, o_UpdatedAt := od_updated_at d\<rparr>) rows ord) = o_BuyOrderUUID ord
    \<and> o_Status (fold (\<lambda>d ord. ord\<lparr>o_CreatedAt := od_created_at d, o_UpdatedAt := od_updated_at d\<rparr>) rows ord) = o_Status ord"
    by (induction rows arbitrary: ord) simp_all
  then show "o_ID (scan_details rows ord) = o_ID ord" "o_CustomerID (scan_details rows ord) = o_CustomerID ord"
    "o_BuyOrderUUID (scan_details rows ord) = o_BuyOrderUUID ord" "o_Status (scan_details rows ord) = o_Status ord"
    "o_Breads (scan_details rows ord) = map detail_bread rows"
    by (simp_all add: scan_details_def)
qed

text \<open>What the price of a bread becomes when it is stored and read again.\<close>

definition read_back :: "(nat \<Rightarrow> f64 \<Rightarrow> numeric option) \<Rightarrow> Bread \<Rightarrow> Bread \<Rightarrow> bool" where
  "read_back conv b c \<longleftrightarrow> b_ID c = b_ID b \<and> b_Quantity c = b_Quantity b
     \<and> map_option f64_of_numeric (conv 10 (b_Price b)) = Some (b_Price c)"

lemma stored_read_back: "stored_as conv i b d \<Longrightarrow> read_back conv b (detail_bread d)"
  by (simp add: stored_as_def read_back_def detail_bread_def)

lemma load_added_order:
  assumes "db_inv s" and "faults t = []"
    and added: "order_added order conv (buy_order_t s) (order_details_t s) i breads t"
  shows "\<exists>ord. GetBuyOrderByUUID (o_BuyOrderUUID order) t = (Inr ord, t) \<and> o_ID ord = i
    \<and> o_CustomerID ord = o_CustomerID order \<and> o_BuyOrderUUID ord = o_BuyOrderUUID order
    \<and> o_Status ord = ''processing'' \<and> list_all2 (read_back conv) breads (o_Breads ord)"
proof -
  let ?h = "\<lparr>bo_id = i, bo_customer_id = o_CustomerID order, bo_uuid = o_BuyOrderUUID order, bo_status = ''processing''\<rparr>"
  have "filter (\<lambda>r. bo_uuid r = o_BuyOrderUUID order) (buy_order_t s) = []"
    using added by (auto simp: order_added_def filter_empty_conv image_iff)
  then have "filter (\<lambda>r. bo_uuid r = o_BuyOrderUUID order) (buy_order_t t) = [?h]"
    using added by (simp add: order_added_def)
  then have "GetBuyOrderByUUID (o_BuyOrderUUID order) t =
      (Inr (scan_details (details_of i t) (scan_order ?h)), t)"
    using assms(2) by (simp add: GetBuyOrderByUUID_def load_order_def seq_apply no_fault_simps)
  moreover have "list_all2 (read_back conv) breads (map detail_bread (details_of i t))"
    using details_of_added [OF assms(1) added]
    by (auto simp: list_all2_conv_all_nth stored_read_back)
  ultimately show ?thesis by (simp add: scan_order_def)
qed

lemma InsertBuyOrder_stores:
  "InsertBuyOrder order breads s = (Inr i, t) \<Longrightarrow>
   order_added order (to_numeric s) (buy_order_t s) (order_details_t s) i breads t"
  using tripleD_Inr [OF InsertBuyOrder_triple, of s "buy_order_t s" "order_details_t s" "to_numeric s"] by simp


text \<open>
  C16: \<open>InsertBuyOrder\<close> is all or nothing under every schedule of lost requests and lost
  replies: when it returns an error the order tables are what they were, unless the error is
  the lost reply to the commit, and then the whole order is there.
\<close>

theorem InsertBuyOrder_atomic:
  "case InsertBuyOrder order breads s of
     (Inr i, t) \<Rightarrow> order_added order (to_numeric s) (buy_order_t s) (order_details_t s) i breads t
   | (Inl e, t) \<Rightarrow> buy_order_t t = buy_order_t s \<and> order_details_t t = order_details_t s
       \<or> e = DriverError \<and> (\<exists>i. order_added order (to_numeric s) (buy_order_t s) (order_details_t s) i breads t)"
  using tripleD [OF InsertBuyOrder_triple, of s "buy_order_t s" "order_details_t s" "to_numeric s"] by simp

section \<open>What FulfillOrderTx does\<close>

text \<open>The fulfilment of one bread as a function of the stock, without the database.\<close>

definition fulfill_step ::
  "BuyOrder \<Rightarrow> Bread \<Rightarrow> (int \<Rightarrow> int option) \<times> tally \<Rightarrow> (int \<Rightarrow> int option) \<times> tally" where
  "fulfill_step order b x =
     (let st = fst x; a = (snd x)\<lparr>totalRequested := int64 (totalRequested (snd x) + b_Quantity b)\<rparr> in
      case st (b_ID b) of
        None \<Rightarrow> (st, a)
      | Some q \<Rightarrow>
          if q = 0 then (st, if o_SkipUnavailableItems order \<or> o_AllowPartial order then a else a\<lparr>hasRejected := True\<rparr>)
          else (st(b_ID b \<mapsto> q - min q (b_Quantity b)),
                a\<lparr>totalFulfilled := int64 (totalFulfilled a + min q (b_Quantity b))\<rparr>))"

lemma triple_wrap:
  assumes "triple P m Q (\<lambda>_ _. True)"
  shows "triple P (wrap msg m) Q (\<lambda>_ _. True)"
  unfolding wrap_def by (rule triple_attempt [OF assms]) (auto intro: triple_fail triple_ret)

lemma stock_update_detail:
  "triple (\<lambda>s. stock s = st) (sql_update_detail i j g) (\<lambda>_ s. stock s = st) (\<lambda>_ _. True)"
  unfolding sql_update_detail_def Let_def by (intro triple_guarded) (simp_all add: stock_def)

lemma mark_detail_triple: "triple (\<lambda>s. stock s = st) (mark_detail v i j) (\<lambda>_ s. stock s = st) (\<lambda>_ _. True)"
  unfolding mark_detail_def
  by (intro triple_stmt triple_seq [where R = "\<lambda>_ s. stock s = st"] triple_query stock_update_detail) simp_all

lemma settle_detail_triple: "triple (\<lambda>s. stock s = st) (settle_detail n v i j) (\<lambda>_ s. stock s = st) (\<lambda>_ _. True)"
  unfolding settle_detail_def
  by (intro triple_stmt triple_seq [where R = "\<lambda>_ s. stock s = st"] triple_query triple_param_int4
      stock_update_detail) simp_all

lemma fulfill_tx_item_triple:
  "triple (\<lambda>s. stock s = st) (fulfill_tx_item order b a)
     (\<lambda>c s. (stock s, c) = fulfill_step order b (st, a)) (\<lambda>_ _. True)"
  unfolding fulfill_tx_item_def Let_def
proof (rule triple_seq [where R = "\<lambda>q s. stock s = st \<and> st (b_ID b) = Some q"])
  show "triple (\<lambda>s. stock s = st) (wrap ''lock bread'' (query_row (select_quantity (b_ID b))))
     (\<lambda>q s. stock s = st \<and> st (b_ID b) = Some q) (\<lambda>_ _. True)"
    by (rule triple_wrap, rule triple_weaken [OF select_quantity_triple]) auto
next
  fix q
  let ?a = "a\<lparr>totalRequested := int64 (totalRequested a + b_Quantity b)\<rparr>"
  let ?f = "if q < b_Quantity b then q else b_Quantity b"
  let ?P = "\<lambda>s. stock s = st \<and> st (b_ID b) = Some q"
  let ?Q = "\<lambda>c s. (stock s, c) = fulfill_step order b (st, a)"
  have mark: "triple ?P (wrap m (mark_detail v i j)) (\<lambda>_ s. stock s = st) (\<lambda>_ _. True)" for m v i j
    by (rule triple_weaken [OF triple_wrap [OF mark_detail_triple [where st = st]]]) auto
  have deduct: "triple ?P (wrap m (sql_deduct (b_ID b) ?f)) (\<lambda>_ s. st (b_ID b) = Some q \<and> stock s = st(b_ID b \<mapsto> q - ?f)) (\<lambda>_ _. True)" for m
    by (rule triple_wrap, rule sql_deduct_triple)
  show "triple ?P
     (if q = 0 then
        (if o_SkipUnavailableItems order \<or> o_AllowPartial order
         then seq (wrap ''mark skipped order_detail'' (mark_detail ''skipped'' (o_ID order) (b_ID b))) (\<lambda>_. ret ?a)
         else seq (wrap ''mark rejected order_detail'' (mark_detail ''rejected'' (o_ID order) (b_ID b)))
                (\<lambda>_. ret (?a\<lparr>hasRejected := True\<rparr>)))
      else seq (wrap ''deduct bread'' (sql_deduct (b_ID b) ?f)) (\<lambda>_.
         seq (wrap ''update order_detail'' (settle_detail ?f
                (if ?f < b_Quantity b then ''partially_fulfilled'' else ''fulfilled'') (o_ID order) (b_ID b))) (\<lambda>_.
         ret (?a\<lparr>totalFulfilled := int64 (totalFulfilled ?a + ?f)\<rparr>)))) ?Q (\<lambda>_ _. True)"
  proof (cases "st (b_ID b) = Some q")
    case True
    have min: "?f = min q (b_Quantity b)" by simp
    show ?thesis
      using True
      by (intro triple_if triple_seq [OF mark] triple_seq [OF deduct]
          triple_seq [where R = "\<lambda>_ s. stock s = st(b_ID b \<mapsto> q - ?f)"] triple_ret
          triple_wrap triple_weaken [OF settle_detail_triple [where st = "st(b_ID b \<mapsto> q - ?f)"]])
        (auto simp: fulfill_step_def Let_def min)
  qed (simp add: triple_def)
qed

definition fulfilled_as :: "BuyOrder \<Rightarrow> (int \<Rightarrow> int option) \<Rightarrow> Bread list \<Rightarrow> tally \<Rightarrow> db \<Rightarrow> bool" where
  "fulfilled_as order st ys a s \<longleftrightarrow> (stock s, a) = fold (fulfill_step order) ys (st, zero_tally)"

lemma fulfill_loop_triple:
  "triple (\<lambda>s. stock s = st) (for_each (fulfill_tx_item order) bs zero_tally)
     (fulfilled_as order st bs) (\<lambda>_ _. True)"
proof -
  have step: "triple (fulfilled_as order st ys a) (fulfill_tx_item order b a)
      (fulfilled_as order st (ys @ [b])) (\<lambda>_ _. True)" for ys a b
  proof (rule tripleI)
    fix s assume s: "fulfilled_as order st ys a s"
    have "case fulfill_tx_item order b a s of
        (Inr c, t) \<Rightarrow> (stock t, c) = fulfill_step order b (stock s, a) | (Inl e, t) \<Rightarrow> True"
      by (rule tripleD [OF fulfill_tx_item_triple]) simp
    with s show "case fulfill_tx_item order b a s of
        (Inr c, t) \<Rightarrow> fulfilled_as order st (ys @ [b]) c t | (Inl e, t) \<Rightarrow> True"
      by (auto simp: fulfilled_as_def split: prod.splits sum.splits)
  qed
  have "triple (fulfilled_as order st [] zero_tally) (for_each (fulfill_tx_item order) bs zero_tally)
      (fulfilled_as order st ([] @ bs)) (\<lambda>_ _. True)"
    using step by (rule triple_for_each)
  then show ?thesis by (rule triple_weaken) (auto simp: fulfilled_as_def)
qed

definition sorted_breads :: "BuyOrder \<Rightarrow> Bread list" where
  "sorted_breads order = go_sort (\<lambda>x y. b_ID x < b_ID y) (o_Breads order)"

definition has_status :: "int \<Rightarrow> string \<Rightarrow> db \<Rightarrow> bool" where
  "has_status i v s \<longleftrightarrow> (\<forall>r \<in> set (buy_order_t s). bo_id r = i \<longrightarrow> bo_status r = v)"

lemma FulfillOrderTx_triple:
  "triple (\<lambda>s. stock s = st \<and> buy_order_t s = B) (FulfillOrderTx order)
     (\<lambda>_ s. \<exists>a. fulfilled_as order st (sorted_breads order) a s \<and> has_status (o_ID order) (order_status order a) s)
     (\<lambda>e s. stock s = st \<and> buy_order_t s = B \<or> e = DriverError \<and>
        (\<exists>a. fulfilled_as order st (sorted_breads order) a s \<and> has_status (o_ID order) (order_status order a) s))"
  unfolding FulfillOrderTx_def sorted_breads_def [symmetric]
proof (rule triple_transaction)
  show "table_pred (\<lambda>s. stock s = st \<and> buy_order_t s = B)" by (simp add: table_pred_def stock_def)
  show "table_pred (\<lambda>s. \<exists>a. fulfilled_as order st (sorted_breads order) a s
      \<and> has_status (o_ID order) (order_status order a) s)"
    by (simp add: table_pred_def fulfilled_as_def has_status_def stock_def)
  show "triple (\<lambda>s. stock s = st \<and> buy_order_t s = B)
     (seq (for_each (fulfill_tx_item order) (sorted_breads order) zero_tally) (\<lambda>a.
      wrap ''update order status'' (stmt
        (sql_update_order (\<lambda>r. bo_id r = o_ID order) (\<lambda>r. r\<lparr>bo_status := order_status order a\<rparr>)))))
     (\<lambda>_ s. \<exists>a. fulfilled_as order st (sorted_breads order) a s \<and> has_status (o_ID order) (order_status order a) s)
     (\<lambda>_ _. True)"
  proof (rule triple_seq [where R = "fulfilled_as order st (sorted_breads order)"])
    show "triple (\<lambda>s. stock s = st \<and> buy_order_t s = B)
       (for_each (fulfill_tx_item order) (sorted_breads order) zero_tally)
       (fulfilled_as order st (sorted_breads order)) (\<lambda>_ _. True)"
      by (rule triple_weaken [OF fulfill_loop_triple]) auto
    show "triple (fulfilled_as order st (sorted_breads order) a)
       (wrap ''update order status'' (stmt (sql_update_order (\<lambda>r. bo_id r = o_ID order)
          (\<lambda>r. r\<lparr>bo_status := order_status order a\<rparr>))))
       (\<lambda>_ s. \<exists>a. fulfilled_as order st (sorted_breads order) a s
          \<and> has_status (o_ID order) (order_status order a) s) (\<lambda>_ _. True)" for a
      unfolding sql_update_order_def
      by (intro triple_wrap triple_stmt triple_guarded)
        (auto simp: fulfilled_as_def has_status_def stock_def table_pred_def update_where_def)
  qed
qed auto

text \<open>Totals, with the Go additions exact.\<close>

definition removed :: "(int \<Rightarrow> int option) \<Rightarrow> (int \<Rightarrow> int option) \<Rightarrow> int set \<Rightarrow> int" where
  "removed st st' A = (\<Sum>i \<in> A. (case st i of Some q \<Rightarrow> q | None \<Rightarrow> 0) - (case st' i of Some q \<Rightarrow> q | None \<Rightarrow> 0))"

lemma removed_update:
  assumes "finite A" and "i \<in> A" and "st' i = Some q"
  shows "removed st (st'(i \<mapsto> q - m)) A = removed st st' A + m"
  using assms by (simp add: removed_def sum.remove [of A i])

definition exact_tally :: "(int \<Rightarrow> int option) \<Rightarrow> int set \<Rightarrow> int \<Rightarrow> (int \<Rightarrow> int option) \<times> tally \<Rightarrow> bool" where
  "exact_tally st A n x \<longleftrightarrow> (\<forall>i q. fst x i = Some q \<longrightarrow> 0 \<le> q)
     \<and> totalFulfilled (snd x) = removed st (fst x) A \<and> totalRequested (snd x) = n
     \<and> 0 \<le> totalFulfilled (snd x) \<and> totalFulfilled (snd x) \<le> n
     \<and> (hasRejected (snd x) \<longrightarrow> totalFulfilled (snd x) < n)"

lemma fulfill_step_exact:
  assumes "exact_tally st A n x" and "finite A" and "b_ID b \<in> A" and "0 < b_Quantity b"
    and "n + b_Quantity b < 9223372036854775808"
  shows "exact_tally st A (n + b_Quantity b) (fulfill_step order b x)"
proof (cases "fst x (b_ID b)")
  case None
  then show ?thesis using assms by (auto simp: exact_tally_def fulfill_step_def Let_def is_int64_def)
next
  case (Some q)
  let ?m = "min q (b_Quantity b)"
  let ?f = "totalFulfilled (snd x)"
  have bounds: "0 \<le> q" "0 \<le> ?f" "?f \<le> n" "totalRequested (snd x) = n"
    using assms(1) Some by (simp_all add: exact_tally_def)
  then have "0 \<le> ?m" using assms(4) by simp
  have "int64 (n + b_Quantity b) = n + b_Quantity b"
    using assms(4,5) bounds by (intro int64_id) (simp add: is_int64_def)
  moreover have "int64 (?f + ?m) = ?f + ?m"
    using assms(5) bounds \<open>0 \<le> ?m\<close> by (intro int64_id) (simp add: is_int64_def min_def)
  moreover have "removed st ((fst x)(b_ID b \<mapsto> q - ?m)) A = removed st (fst x) A + ?m"
    using assms(2,3) Some by (rule removed_update)
  ultimately show ?thesis
    using assms(1,4) Some bounds \<open>0 \<le> ?m\<close> min.cobounded2 [of q "b_Quantity b"]
    by (auto simp: exact_tally_def fulfill_step_def Let_def simp del: min.cobounded2)
qed

lemma fulfill_fold_exact:
  assumes "exact_tally st A n x" and "finite A" and "\<forall>b \<in> set bs. b_ID b \<in> A \<and> 0 < b_Quantity b"
    and "n + sum_list (map b_Quantity bs) < 9223372036854775808"
  shows "exact_tally st A (n + sum_list (map b_Quantity bs)) (fold (fulfill_step order) bs x)"
  using assms
proof (induction bs arbitrary: n x)
  case (Cons b bs)
  have "0 \<le> sum_list (map b_Quantity bs)" using Cons.prems(3) by (intro sum_list_nonneg_int) auto
  then have "exact_tally st A (n + b_Quantity b) (fulfill_step order b x)"
    using Cons.prems by (intro fulfill_step_exact) auto
  then show ?case using Cons.IH [of "n + b_Quantity b"] Cons.prems by (simp add: add.assoc)
qed simp

lemma sorted_breads_mset: "mset (sorted_breads order) = mset (o_Breads order)"
  by (simp add: sorted_breads_def)

lemma sum_sorted_breads:
  "sum_list (map b_Quantity (sorted_breads order)) = sum_list (map b_Quantity (o_Breads order))"
  by (metis mset_map sorted_breads_mset sum_mset_sum_list)

lemma fulfilled_totals:
  assumes "\<forall>i q. st i = Some q \<longrightarrow> 0 \<le> q" and "\<forall>b \<in> set (o_Breads order). 0 < b_Quantity b"
    and "sum_list (map b_Quantity (o_Breads order)) < 9223372036854775808"
    and "fulfilled_as order st (sorted_breads order) a t"
  shows "exact_tally st (b_ID ` set (o_Breads order)) (sum_list (map b_Quantity (o_Breads order))) (stock t, a)"
proof -
  let ?A = "b_ID ` set (o_Breads order)"
  have set: "set (sorted_breads order) = set (o_Breads order)"
    using sorted_breads_mset by (rule mset_eq_setD)
  have "exact_tally st ?A 0 (st, zero_tally)"
    using assms(1) by (simp add: exact_tally_def zero_tally_def removed_def)
  then have "exact_tally st ?A (0 + sum_list (map b_Quantity (sorted_breads order)))
      (fold (fulfill_step order) (sorted_breads order) (st, zero_tally))"
    using assms(2,3) by (intro fulfill_fold_exact) (auto simp: set sum_sorted_breads)
  then show ?thesis
    using assms(4) by (simp add: fulfilled_as_def sum_sorted_breads)
qed

text \<open>
  C10: The fulfilment transaction loses no bread and reports what it did: for an order of at least
  one bread, with positive quantities whose sum an \<open>int\<close> of Go can hold, when it
  returns without an error the order is marked processed exactly when the stock that left the
  shelves is all that was asked for. (An order without breads is marked failed.)
\<close>

theorem FulfillOrderTx_processed_iff_all_served:
  assumes "db_inv s" and "\<forall>b \<in> set (o_Breads order). 0 < b_Quantity b" and "o_Breads order \<noteq> []"
    and "sum_list (map b_Quantity (o_Breads order)) < 9223372036854775808"
    and "FulfillOrderTx order s = (Inr (), t)" and "r \<in> set (buy_order_t t)" and "bo_id r = o_ID order"
  shows "bo_status r = ''processed'' \<longleftrightarrow>
    removed (stock s) (stock t) (b_ID ` set (o_Breads order)) = sum_list (map b_Quantity (o_Breads order))"
proof -
  obtain a where a: "fulfilled_as order (stock s) (sorted_breads order) a t"
      "has_status (o_ID order) (order_status order a) t"
    using tripleD_Inr [OF FulfillOrderTx_triple _ assms(5), of "stock s" "buy_order_t s"] by auto
  have "exact_tally (stock s) (b_ID ` set (o_Breads order)) (sum_list (map b_Quantity (o_Breads order))) (stock t, a)"
    using stock_nonneg [OF db_inv_bread [OF assms(1)]] assms(2,4) a(1) by (intro fulfilled_totals) auto
  moreover have "0 < sum_list (map b_Quantity (o_Breads order))"
    using assms(2,3) by (intro sum_list_pos_int) auto
  moreover have "bo_status r = order_status order a" using a(2) assms(6,7) by (simp add: has_status_def)
  ultimately show ?thesis by (auto simp: exact_tally_def order_status_def)
qed

text \<open>
  A small database: two breads, five and nothing in stock, one customer, and one order of two
  units of the first bread and one of the second.
\<close>

definition sample_bread :: "int \<Rightarrow> int \<Rightarrow> bread_row" where
  "sample_bread i q = \<lparr>br_id = i, br_name = ''rye'', br_price = Amount 250, br_quantity = q,
     br_description = [], br_type = [], br_status = ''available'', br_created_at = 0,
     br_updated_at = 0, br_image = None\<rparr>"

definition sample_customer :: customer_row where
  "sample_customer = \<lparr>cu_id = 1, cu_name = ''ann'', cu_email = ''a@b.c'', cu_password = [],
     cu_created_at = 0, cu_updated_at = 0\<rparr>"

definition empty_db :: db where
  "empty_db = \<lparr>bread_t = [], bread_maker_t = [], make_order_t = [], make_details_t = [],
     pending_t = [], customer_t = [], buy_order_t = [], order_details_t = [], outbox_t = [],
     admin_t = [], invoice_t = [], invoice_items_t = [], seqs = (\<lambda>_. 1), now = 0, faults = [],
     to_numeric = (\<lambda>_ _. Some (Amount 250))\<rparr>"

definition sample_db :: db where
  "sample_db = empty_db\<lparr>bread_t := [sample_bread 1 5, sample_bread 2 0], customer_t := [sample_customer]\<rparr>"

definition ordered_bread :: "int \<Rightarrow> int \<Rightarrow> Bread" where
  "ordered_bread i q = zero_Bread\<lparr>b_ID := i, b_Quantity := q\<rparr>"

definition sample_order :: BuyOrder where
  "sample_order = zero_BuyOrder\<lparr>o_ID := 1, o_CustomerID := 1, o_BuyOrderUUID := ''u1'',
     o_Breads := [ordered_bread 1 2]\<rparr>"

lemma sample_db_inv: "db_inv sample_db"
  by code_simp

lemma sample_inserted:
  "InsertBuyOrder sample_order (o_Breads sample_order) sample_db =
     (Inr 1, snd (InsertBuyOrder sample_order (o_Breads sample_order) sample_db))"
  "faults (snd (InsertBuyOrder sample_order (o_Breads sample_order) sample_db)) = []"
  by (rule result_eq, code_simp) code_simp


lemma sample_fulfilled:
  "FulfillOrderTx sample_order (snd (InsertBuyOrder sample_order (o_Breads sample_order) sample_db)) =
     (Inr (), snd (FulfillOrderTx sample_order (snd (InsertBuyOrder sample_order (o_Breads sample_order) sample_db))))"
  by (rule result_eq) code_simp

theorem FulfillOrderTx_processed_iff_all_served_witness:
  "let s = snd (InsertBuyOrder sample_order (o_Breads sample_order) sample_db);
       t = snd (FulfillOrderTx sample_order s); r = hd (buy_order_t t)
   in bo_status r = ''processed'' \<longleftrightarrow> removed (stock s) (stock t) {1} = 2"
proof -
  let ?s = "snd (InsertBuyOrder sample_order (o_Breads sample_order) sample_db)"
  let ?t = "snd (FulfillOrderTx sample_order ?s)"
  have inv: "db_inv ?s" using keeps_InsertBuyOrder sample_db_inv by (rule keepsD)
  have "hd (buy_order_t ?t) \<in> set (buy_order_t ?t)" by code_simp
  moreover have "bo_id (hd (buy_order_t ?t)) = o_ID sample_order" by code_simp
  moreover have "\<forall>b \<in> set (o_Breads sample_order). 0 < b_Quantity b" "o_Breads sample_order \<noteq> []"
    "sum_list (map b_Quantity (o_Breads sample_order)) < 9223372036854775808"
    "b_ID ` set (o_Breads sample_order) = {1}" "sum_list (map b_Quantity (o_Breads sample_order)) = 2"
    by (simp_all add: sample_order_def ordered_bread_def)
  ultimately show ?thesis
    using FulfillOrderTx_processed_iff_all_served [OF inv _ _ _ sample_fulfilled, of "hd (buy_order_t ?t)"]
    by (simp add: Let_def)
qed

text \<open>\<open>GetMakeOrderByID\<close> never returns an order: every row it finds fails to scan.\<close>

theorem GetMakeOrderByID_never_succeeds:
  "\<exists>e t. GetMakeOrderByID i s = (Inl e, t)"
  by (auto simp: GetMakeOrderByID_def seq_apply scan_star_def make_order_columns_def
      split: sum.split prod.split)

lemma unknown_status_error:
  "v \<notin> set buy_order_statuses \<Longrightarrow> \<exists>e \<in> {DataError, CheckViolation}. buy_order_row_error (r\<lparr>bo_status := v\<rparr>) = Some e"
  by (simp add: buy_order_row_error_def)

lemma first_error_hd: "xs \<noteq> [] \<Longrightarrow> c (hd xs) = Some e \<Longrightarrow> first_error c xs = Some e"
  by (cases xs) simp_all

text \<open>
  An order can only be given the six statuses of the schema: any other status, such as
  completed, is refused for an order that exists, and nothing changes.
\<close>

theorem UpdateOrderStatus_refuses_unknown:
  assumes "v \<notin> set buy_order_statuses" and "faults s = []" and "u \<in> bo_uuid ` set (buy_order_t s)"
  shows "\<exists>e \<in> {DataError, CheckViolation}. UpdateOrderStatus u v s = (Inl e, s)"
proof -
  let ?rs = "map (\<lambda>r. r\<lparr>bo_status := v\<rparr>) (filter (\<lambda>r. bo_uuid r = u) (buy_order_t s))"
  have "filter (\<lambda>r. bo_uuid r = u) (buy_order_t s) \<noteq> []"
    using assms(3) by (auto simp: filter_empty_conv)
  moreover obtain e where "e \<in> {DataError, CheckViolation}" "buy_order_row_error (hd ?rs) = Some e"
    using unknown_status_error [OF assms(1)] calculation by (auto simp: hd_map)
  ultimately show ?thesis
    using first_error_hd [of ?rs buy_order_row_error e] assms(2)
    by (auto simp: UpdateOrderStatus_def stmt_no_fault sql_update_order_def guarded_def update_error_def)
qed

theorem UpdateOrderStatus_refuses_unknown_witness:
  "\<exists>e. UpdateOrderStatus ''u1'' ''completed'' (snd (InsertBuyOrder sample_order (o_Breads sample_order) sample_db))
     = (Inl e, snd (InsertBuyOrder sample_order (o_Breads sample_order) sample_db))"
proof -
  have "''u1'' \<in> bo_uuid ` set (buy_order_t (snd (InsertBuyOrder sample_order (o_Breads sample_order) sample_db)))"
    by code_simp
  moreover have "''completed'' \<notin> set buy_order_statuses" by code_simp
  ultimately show ?thesis
    using UpdateOrderStatus_refuses_unknown [OF _ sample_inserted(2)] by blast
qed

end
