(* ===== verification/Outbox.thy ===== *)
theory Outbox
  imports Orders
begin

text \<open>
  The outbox of \<open>data/models.go\<close>: messages waiting to be delivered, claimed oldest first.
\<close>

definition InsertOutboxMessage :: "OutboxMessage \<Rightarrow> unit repo" where
  "InsertOutboxMessage message =
     (let r = \<lparr>ob_id = om_ID message, ob_payload = om_Payload message, ob_sent = False,
                ob_created_at = om_CreatedAt message\<rparr>
      in stmt (guarded (insert_outbox_error r) (\<lambda>s. s\<lparr>outbox_t := outbox_t s @ [r]\<rparr>)))"

definition scan_outbox :: "outbox_row \<Rightarrow> OutboxMessage" where
  "scan_outbox r = \<lparr>om_ID = ob_id r, om_Payload = ob_payload r, om_Sent = ob_sent r,
     om_CreatedAt = ob_created_at r\<rparr>"

definition unsent :: "db \<Rightarrow> outbox_row list" where
  "unsent s = sort_key ob_created_at (filter (\<lambda>r. \<not> ob_sent r) (outbox_t s))"

text \<open>Here \<open>rows.Err()\<close> is looked at after the loop.\<close>

definition GetUnprocessedOutboxMessages :: "OutboxMessage list repo" where
  "GetUnprocessedOutboxMessages =
     seq (query_rows (\<lambda>s. take 10 (unsent s))) (\<lambda>(rows, broken).
     if broken then fail DriverError else ret (map scan_outbox rows))"

text \<open>The oldest unsent row is marked and returned as it is after the update.\<close>

definition claim_outbox :: "OutboxMessage repo" where
  "claim_outbox = stmt (\<lambda>s.
     case unsent s of
       [] \<Rightarrow> (Inl ErrNoRows, s)
     | r # rs \<Rightarrow> (Inr (scan_outbox (r\<lparr>ob_sent := True\<rparr>)),
         s\<lparr>outbox_t := update_where (\<lambda>x. ob_id x = ob_id r) (\<lambda>x. x\<lparr>ob_sent := True\<rparr>) (outbox_t s)\<rparr>))"

definition ClaimOutboxMessage :: "OutboxMessage option repo" where
  "ClaimOutboxMessage =
     attempt claim_outbox (\<lambda>e. if e = ErrNoRows then ret None else fail e) (\<lambda>m. ret (Some m))"

text \<open>The error of the statement is logged and dropped.\<close>

definition DeleteOutboxMessage :: "int \<Rightarrow> unit repo" where
  "DeleteOutboxMessage i =
     attempt (stmt (modify (\<lambda>s. s\<lparr>outbox_t := filter (\<lambda>r. ob_id r \<noteq> i) (outbox_t s)\<rparr>)))
       (\<lambda>e. ret ()) (\<lambda>_. ret ())"

section \<open>The invariant\<close>

lemma keeps_modify: "(\<And>s. I s \<Longrightarrow> I (f s)) \<Longrightarrow> keeps I (modify f)"
  by (simp add: keeps_def)

lemma keeps_InsertOutboxMessage: "keeps db_inv (InsertOutboxMessage m)"
  unfolding InsertOutboxMessage_def Let_def by (intro keeps_intros insert_inv) simp_all

lemma keeps_GetUnprocessedOutboxMessages: "keeps db_inv GetUnprocessedOutboxMessages"
  unfolding GetUnprocessedOutboxMessages_def by (intro keeps_intros) simp_all

lemma keeps_claim_outbox: "keeps db_inv claim_outbox"
  unfolding claim_outbox_def
  by (intro keeps_stmt keepsI) (auto intro: update_outbox_inv split: list.split)

lemma keeps_ClaimOutboxMessage: "keeps db_inv ClaimOutboxMessage"
  unfolding ClaimOutboxMessage_def by (intro keeps_intros keeps_claim_outbox)

lemma keeps_DeleteOutboxMessage: "keeps db_inv (DeleteOutboxMessage i)"
  unfolding DeleteOutboxMessage_def by (intro keeps_intros keeps_modify delete_outbox_inv) simp_all

lemmas keeps_outbox = keeps_InsertOutboxMessage keeps_GetUnprocessedOutboxMessages
  keeps_ClaimOutboxMessage keeps_DeleteOutboxMessage

section \<open>Claims\<close>

lemma unsent_set: "set (unsent s) = {r \<in> set (outbox_t s). \<not> ob_sent r}"
  by (simp add: unsent_def)

lemma unsent_oldest: "unsent s = r # rs \<Longrightarrow> x \<in> set (outbox_t s) \<Longrightarrow> \<not> ob_sent x \<Longrightarrow> ob_created_at r \<le> ob_created_at x"
proof -
  assume u: "unsent s = r # rs" and x: "x \<in> set (outbox_t s)" "\<not> ob_sent x"
  have "sorted (map ob_created_at (r # rs))"
    using sorted_sort_key [of ob_created_at] u by (metis unsent_def)
  moreover have "x \<in> set (r # rs)" using x unsent_set [of s] u by auto
  ultimately show ?thesis by auto
qed

lemma stmt_Inr: "stmt f s = (Inr a, t) \<Longrightarrow> \<exists>g. f (s\<lparr>faults := g\<rparr>) = (Inr a, t)"
proof (cases "faults s")
  case Nil
  assume "stmt f s = (Inr a, t)"
  with Nil have "f s = (Inr a, t)" by (simp add: stmt_def)
  moreover have "s\<lparr>faults := faults s\<rparr> = s" by simp
  ultimately show ?thesis by (intro exI [of _ "faults s"]) (simp only:)
next
  case (Cons g gs)
  assume "stmt f s = (Inr a, t)"
  with Cons show ?thesis by (cases g) (auto simp: stmt_def Let_def)
qed

lemma query_row_Inr:
  "query_row f s = (Inr r, t) \<Longrightarrow> \<exists>g rs. f (s\<lparr>faults := g\<rparr>) = r # rs"
proof -
  assume "query_row f s = (Inr r, t)"
  note a = stmt_Inr [OF this [unfolded query_row_def]]
  obtain g where g: "(case f (s\<lparr>faults := g\<rparr>) of [] \<Rightarrow> (Inl ErrNoRows, s\<lparr>faults := g\<rparr>)
      | r # rs \<Rightarrow> (Inr r, s\<lparr>faults := g\<rparr>)) = (Inr r, t)"
    using a by blast
  then show ?thesis by (cases "f (s\<lparr>faults := g\<rparr>)") auto
qed

lemma unsent_faults [simp]: "unsent (s\<lparr>faults := g\<rparr>) = unsent s"
  by (simp add: unsent_def)

lemma claim_outbox_Some:
  assumes "claim_outbox s = (Inr m, t)"
  shows "\<exists>r rs. unsent s = r # rs \<and> m = scan_outbox (r\<lparr>ob_sent := True\<rparr>) \<and>
     outbox_t t = update_where (\<lambda>x. ob_id x = ob_id r) (\<lambda>x. x\<lparr>ob_sent := True\<rparr>) (outbox_t s)"
proof (cases "unsent s")
  case Nil
  then show ?thesis using stmt_Inr [OF assms [unfolded claim_outbox_def]] by auto
next
  case (Cons r rs)
  then show ?thesis using stmt_Inr [OF assms [unfolded claim_outbox_def]] by auto
qed

lemma set_update_where: "set (update_where P g xs) = g ` {x \<in> set xs. P x} \<union> {x \<in> set xs. \<not> P x}"
  by (induction xs) (auto simp: update_where_def)

lemma unsent_after_mark:
  assumes "distinct (map ob_id xs)" and "r \<in> set xs"
  shows "{x \<in> set (update_where (\<lambda>x. ob_id x = ob_id r) (\<lambda>x. x\<lparr>ob_sent := True\<rparr>) xs). \<not> ob_sent x}
    = {x \<in> set xs. \<not> ob_sent x} - {r}"
proof -
  let ?A = "(\<lambda>x. x\<lparr>ob_sent := True\<rparr>) ` {x \<in> set xs. ob_id x = ob_id r}"
  have "{x \<in> set xs. ob_id x \<noteq> ob_id r} = set xs - {r}"
    using assms by (auto simp: distinct_map dest: inj_onD)
  then have "set (update_where (\<lambda>x. ob_id x = ob_id r) (\<lambda>x. x\<lparr>ob_sent := True\<rparr>) xs) = ?A \<union> (set xs - {r})"
    by (simp only: set_update_where)
  moreover have "\<forall>x \<in> ?A. ob_sent x" by simp
  ultimately show ?thesis by blast
qed

text \<open>
  \<open>ClaimOutboxMessage\<close> hands out the oldest unsent message and never the same one twice:
  when it returns a message, that message was unsent, no unsent message is older, and afterwards
  exactly that one is no longer unsent.
\<close>

theorem ClaimOutboxMessage_claims_oldest:
  assumes "db_inv s" and "ClaimOutboxMessage s = (Inr (Some m), t)"
  shows "\<exists>r \<in> set (outbox_t s). ob_id r = om_ID m \<and> \<not> ob_sent r \<and> om_Payload m = ob_payload r
    \<and> (\<forall>x \<in> set (outbox_t s). \<not> ob_sent x \<longrightarrow> ob_created_at r \<le> ob_created_at x)
    \<and> {x \<in> set (outbox_t t). \<not> ob_sent x} = {x \<in> set (outbox_t s). \<not> ob_sent x} - {r}"
proof -
  have "claim_outbox s = (Inr m, t)"
    using assms(2) by (auto simp: ClaimOutboxMessage_def attempt_apply split: sum.splits prod.splits if_splits)
  from claim_outbox_Some [OF this] obtain r rs where u: "unsent s = r # rs"
    and m: "m = scan_outbox (r\<lparr>ob_sent := True\<rparr>)"
    and t: "outbox_t t = update_where (\<lambda>x. ob_id x = ob_id r) (\<lambda>x. x\<lparr>ob_sent := True\<rparr>) (outbox_t s)"
    by blast
  have r: "r \<in> set (outbox_t s)" "\<not> ob_sent r" using unsent_set [of s] u by auto
  have "{x \<in> set (outbox_t t). \<not> ob_sent x} = {x \<in> set (outbox_t s). \<not> ob_sent x} - {r}"
    unfolding t using assms(1) r(1) by (intro unsent_after_mark) (simp_all add: db_inv_def billing_inv_def)
  moreover have "\<forall>x \<in> set (outbox_t s). \<not> ob_sent x \<longrightarrow> ob_created_at r \<le> ob_created_at x"
    using unsent_oldest [OF u] by blast
  ultimately show ?thesis using r m by (intro bexI [of _ r]) (simp_all add: scan_outbox_def)
qed

definition sample_outbox :: db where
  "sample_outbox = empty_db\<lparr>outbox_t := [\<lparr>ob_id = 1, ob_payload = JNull, ob_sent = False, ob_created_at = 7\<rparr>,
     \<lparr>ob_id = 2, ob_payload = JNull, ob_sent = False, ob_created_at = 3\<rparr>]\<rparr>"

theorem ClaimOutboxMessage_claims_oldest_witness:
  "\<exists>r \<in> set (outbox_t sample_outbox). ob_id r = 2
     \<and> (\<forall>x \<in> set (outbox_t sample_outbox). \<not> ob_sent x \<longrightarrow> ob_created_at r \<le> ob_created_at x)"
proof -
  have "db_inv sample_outbox" by code_simp
  moreover have "ClaimOutboxMessage sample_outbox =
      (Inr (Some \<lparr>om_ID = 2, om_Payload = JNull, om_Sent = True, om_CreatedAt = 3\<rparr>), snd (ClaimOutboxMessage sample_outbox))"
    by (rule result_eq) code_simp
  ultimately show ?thesis using ClaimOutboxMessage_claims_oldest by fastforce
qed

end
