(* ===== verification/Accounts.thy ===== *)
theory Accounts
  imports Outbox
begin

text \<open>
  Customers, bread makers, administrators and the dashboard of \<open>data/models.go\<close>. The bcrypt
  package is not under \<open>src/\<close>: hashing and comparison are parameters.
\<close>

datatype bcrypt_result = Matches | Mismatch | BadHash

record bcrypt =
  GenerateFromPassword :: "string \<Rightarrow> string option"
  CompareHashAndPassword :: "string \<Rightarrow> string \<Rightarrow> bcrypt_result"

section \<open>Customers\<close>

definition insert_customer :: "Customer \<Rightarrow> string \<Rightarrow> int \<Rightarrow> int repo" where
  "insert_customer customer hashedPassword t = stmt
     (seq (nextval CustomerSeq) (\<lambda>i.
        let r = \<lparr>cu_id = i, cu_name = c_Name customer, cu_email = c_Email customer,
                  cu_password = hashedPassword, cu_created_at = t, cu_updated_at = t\<rparr>
        in seq (guarded (insert_customer_error r) (\<lambda>s. s\<lparr>customer_t := customer_t s @ [r]\<rparr>))
             (\<lambda>_. ret i)))"

definition InsertCustomer :: "bcrypt \<Rightarrow> Customer \<Rightarrow> int repo" where
  "InsertCustomer bc customer =
     (case GenerateFromPassword bc (c_Password customer) of
        None \<Rightarrow> fail HashError
      | Some hashedPassword \<Rightarrow> seq (query now) (insert_customer customer hashedPassword))"

definition PasswordMatches :: "bcrypt \<Rightarrow> string \<Rightarrow> Customer \<Rightarrow> bool repo" where
  "PasswordMatches bc plainText customer =
     (case CompareHashAndPassword bc (c_Password customer) plainText of
        Matches \<Rightarrow> ret True
      | Mismatch \<Rightarrow> ret False
      | BadHash \<Rightarrow> fail HashError)"

text \<open>Without the password column, and with it.\<close>

definition scan_customer :: "customer_row \<Rightarrow> Customer" where
  "scan_customer r = \<lparr>c_ID = cu_id r, c_Name = cu_name r, c_Email = cu_email r, c_Password = [],
     c_CreatedAt = cu_created_at r, c_UpdatedAt = cu_updated_at r\<rparr>"

definition GetAllCustomers :: "Customer list repo" where
  "GetAllCustomers =
     seq (query_rows (\<lambda>s. sort_key cu_id (customer_t s))) (\<lambda>(rows, broken). ret (map scan_customer rows))"

definition GetCustomerByID :: "int \<Rightarrow> Customer repo" where
  "GetCustomerByID customerID =
     seq (query_row (\<lambda>s. filter (\<lambda>r. cu_id r = customerID) (customer_t s))) (\<lambda>r. ret (scan_customer r))"

definition GetCustomerByEmail :: "string \<Rightarrow> Customer repo" where
  "GetCustomerByEmail email =
     seq (query_row (\<lambda>s. filter (\<lambda>r. cu_email r = email) (customer_t s)))
       (\<lambda>r. ret ((scan_customer r)\<lparr>c_Password := cu_password r\<rparr>))"

section \<open>Bread makers\<close>

definition InsertBreadMaker :: "BreadMaker \<Rightarrow> int repo" where
  "InsertBreadMaker baker =
     seq (query now) (\<lambda>t. stmt
       (seq (nextval MakerSeq) (\<lambda>i.
          let r = \<lparr>bm_id = i, bm_name = m_Name baker, bm_email = m_Email baker,
                    bm_created_at = t, bm_updated_at = t\<rparr>
          in seq (guarded (insert_maker_error r) (\<lambda>s. s\<lparr>bread_maker_t := bread_maker_t s @ [r]\<rparr>))
               (\<lambda>_. ret i))))"

definition scan_maker :: "bread_maker_row \<Rightarrow> BreadMaker" where
  "scan_maker r = \<lparr>m_ID = bm_id r, m_Name = bm_name r, m_Email = bm_email r,
     m_CreatedAt = bm_created_at r, m_UpdatedAt = bm_updated_at r\<rparr>"

definition GetAllBreadMakers :: "BreadMaker list repo" where
  "GetAllBreadMakers =
     seq (query_rows (\<lambda>s. sort_key bm_id (bread_maker_t s))) (\<lambda>(rows, broken). ret (map scan_maker rows))"

definition GetBreadMakerByID :: "int \<Rightarrow> BreadMaker repo" where
  "GetBreadMakerByID makerID =
     seq (query_row (\<lambda>s. filter (\<lambda>r. bm_id r = makerID) (bread_maker_t s))) (\<lambda>r. ret (scan_maker r))"

section \<open>Administrators\<close>

definition scan_admin :: "admin_row \<Rightarrow> AdminUser" where
  "scan_admin r = \<lparr>a_ID = ad_id r, a_Username = ad_username r, a_Email = ad_email r,
     a_Password = ad_password r, a_Role = ad_role r, a_CreatedAt = ad_created_at r,
     a_UpdatedAt = ad_updated_at r\<rparr>"

definition GetAdminUserByUsername :: "string \<Rightarrow> AdminUser repo" where
  "GetAdminUserByUsername username =
     seq (query_row (\<lambda>s. filter (\<lambda>r. ad_username r = username) (admin_t s))) (\<lambda>r. ret (scan_admin r))"

definition GetAdminUserByID :: "int \<Rightarrow> AdminUser repo" where
  "GetAdminUserByID i =
     seq (query_row (\<lambda>s. filter (\<lambda>r. ad_id r = i) (admin_t s))) (\<lambda>r. ret (scan_admin r))"

definition InsertAdminUser :: "bcrypt \<Rightarrow> AdminUser \<Rightarrow> int repo" where
  "InsertAdminUser bc user =
     (case GenerateFromPassword bc (a_Password user) of
        None \<Rightarrow> fail HashError
      | Some hashedPassword \<Rightarrow>
          seq (query now) (\<lambda>t. stmt
            (seq (nextval AdminSeq) (\<lambda>i.
               let r = \<lparr>ad_id = i, ad_username = a_Username user, ad_email = a_Email user,
                         ad_password = hashedPassword, ad_role = a_Role user,
                         ad_created_at = t, ad_updated_at = t\<rparr>
               in seq (guarded (insert_admin_error r) (\<lambda>s. s\<lparr>admin_t := admin_t s @ [r]\<rparr>))
                    (\<lambda>_. ret i)))))"

section \<open>Dashboard\<close>

text \<open>Each query that fails is logged, and its figure stays zero; the method never fails.\<close>

definition stat :: "(db \<Rightarrow> 'a) \<Rightarrow> 'a \<Rightarrow> 'a repo" where
  "stat f zero = attempt (query_row (\<lambda>s. [f s])) (\<lambda>e. ret zero) ret"

definition revenue :: "db \<Rightarrow> f64" where
  "revenue s = f64_of_numeric
     (num_sum (map (\<lambda>od. num_scale (od_price od) (od_quantity od)) (order_details_t s)))"

definition GetDashboardStats :: "DashboardStats repo" where
  "GetDashboardStats =
     seq (stat (\<lambda>s. int (length (buy_order_t s))) 0) (\<lambda>orders.
     seq (stat revenue 0) (\<lambda>rev.
     seq (stat (\<lambda>s. int (length (bread_t s))) 0) (\<lambda>products.
     seq (stat (\<lambda>s. int (length (customer_t s))) 0) (\<lambda>customers.
     seq (stat (\<lambda>s. int (length (bread_maker_t s))) 0) (\<lambda>makers.
     seq (stat (\<lambda>s. int (length (filter (\<lambda>r. br_quantity r < 10) (bread_t s)))) 0) (\<lambda>low.
     ret \<lparr>TotalOrders = orders, TotalRevenue = rev, TotalProducts = products,
          TotalCustomers = customers, TotalBreadMakers = makers, LowStockCount = low\<rparr>))))))"

section \<open>The invariant\<close>

lemma keeps_InsertCustomer: "keeps db_inv (InsertCustomer bc c)"
  unfolding InsertCustomer_def insert_customer_def Let_def by (intro keeps_intros insert_inv) simp_all

lemma keeps_PasswordMatches: "keeps I (PasswordMatches bc p c)"
  unfolding PasswordMatches_def by (auto split: bcrypt_result.split intro: keeps_intros)

lemma keeps_GetAllCustomers: "keeps db_inv GetAllCustomers"
  unfolding GetAllCustomers_def by (intro keeps_intros) simp_all

lemma keeps_GetCustomerByID: "keeps db_inv (GetCustomerByID i)"
  unfolding GetCustomerByID_def by (intro keeps_intros) simp_all

lemma keeps_GetCustomerByEmail: "keeps db_inv (GetCustomerByEmail e)"
  unfolding GetCustomerByEmail_def by (intro keeps_intros) simp_all

lemma keeps_InsertBreadMaker: "keeps db_inv (InsertBreadMaker m)"
  unfolding InsertBreadMaker_def Let_def by (intro keeps_intros insert_inv) simp_all

lemma keeps_GetAllBreadMakers: "keeps db_inv GetAllBreadMakers"
  unfolding GetAllBreadMakers_def by (intro keeps_intros) simp_all

lemma keeps_GetBreadMakerByID: "keeps db_inv (GetBreadMakerByID i)"
  unfolding GetBreadMakerByID_def by (intro keeps_intros) simp_all

lemma keeps_GetAdminUserByUsername: "keeps db_inv (GetAdminUserByUsername u)"
  unfolding GetAdminUserByUsername_def by (intro keeps_intros) simp_all

lemma keeps_GetAdminUserByID: "keeps db_inv (GetAdminUserByID i)"
  unfolding GetAdminUserByID_def by (intro keeps_intros) simp_all

lemma keeps_InsertAdminUser: "keeps db_inv (InsertAdminUser bc u)"
  unfolding InsertAdminUser_def Let_def by (intro keeps_intros insert_inv) simp_all

lemma keeps_stat [keeps_intros]: "table_pred I \<Longrightarrow> keeps I (stat f z)"
  unfolding stat_def by (intro keeps_intros)

lemma keeps_GetDashboardStats: "keeps db_inv GetDashboardStats"
  unfolding GetDashboardStats_def by (intro keeps_intros) simp_all

lemmas keeps_accounts = keeps_InsertCustomer keeps_PasswordMatches keeps_GetAllCustomers
  keeps_GetCustomerByID keeps_GetCustomerByEmail keeps_InsertBreadMaker keeps_GetAllBreadMakers
  keeps_GetBreadMakerByID keeps_GetAdminUserByUsername keeps_GetAdminUserByID keeps_InsertAdminUser
  keeps_GetDashboardStats

section \<open>Registration and login\<close>

text \<open>What bcrypt documents: a password matches the hash made from it.\<close>

definition bcrypt_ok :: "bcrypt \<Rightarrow> bool" where
  "bcrypt_ok bc \<longleftrightarrow> (\<forall>p h. GenerateFromPassword bc p = Some h \<longrightarrow> CompareHashAndPassword bc h p = Matches)"

lemma InsertCustomer_row:
  assumes "InsertCustomer bc c s = (Inr i, t)"
  shows "\<exists>h r. GenerateFromPassword bc (c_Password c) = Some h \<and> customer_t t = customer_t s @ [r]
    \<and> cu_id r = i \<and> cu_name r = c_Name c \<and> cu_email r = c_Email c \<and> cu_password r = h
    \<and> c_Email c \<notin> cu_email ` set (customer_t s)"
proof -
  obtain h where h: "GenerateFromPassword bc (c_Password c) = Some h"
    using assms by (auto simp: InsertCustomer_def split: option.splits)
  with assms have "insert_customer c h (now s) s = (Inr i, t)"
    by (simp add: InsertCustomer_def seq_apply)
  from stmt_Inr [OF this [unfolded insert_customer_def]] show ?thesis
    using h by (auto simp: seq_apply nextval_def guarded_def Let_def insert_customer_error_def
        check_simps split: option.splits)
qed

text \<open>
  A customer who registered can log in: the password given at registration is accepted for
  the customer that is then read by the e-mail address.
\<close>

theorem InsertCustomer_then_PasswordMatches:
  assumes "bcrypt_ok bc" and "InsertCustomer bc c s = (Inr i, t)" and "faults t = []"
  shows "\<exists>d. GetCustomerByEmail (c_Email c) t = (Inr d, t) \<and> c_ID d = i \<and> c_Name d = c_Name c
    \<and> PasswordMatches bc (c_Password c) d t = (Inr True, t)"
proof -
  obtain h r where h: "GenerateFromPassword bc (c_Password c) = Some h" and t: "customer_t t = customer_t s @ [r]"
    and r: "cu_id r = i" "cu_name r = c_Name c" "cu_email r = c_Email c" "cu_password r = h"
    and new: "c_Email c \<notin> cu_email ` set (customer_t s)"
    using InsertCustomer_row [OF assms(2)] by blast
  have "filter (\<lambda>r. cu_email r = c_Email c) (customer_t s) = []"
    using new by (auto simp: filter_empty_conv image_iff)
  then have "GetCustomerByEmail (c_Email c) t = (Inr ((scan_customer r)\<lparr>c_Password := h\<rparr>), t)"
    using assms(3) t r by (simp add: GetCustomerByEmail_def seq_apply no_fault_simps)
  then show ?thesis
    using assms(1) h r by (simp add: PasswordMatches_def bcrypt_ok_def scan_customer_def)
qed

definition plain_bcrypt :: bcrypt where
  "plain_bcrypt = \<lparr>GenerateFromPassword = (\<lambda>p. if length p \<le> 72 then Some (CHR ''$'' # p) else None),
     CompareHashAndPassword = (\<lambda>h p. if h = CHR ''$'' # p then Matches else if hd h = CHR ''$'' then Mismatch else BadHash)\<rparr>"

definition sample_account :: Customer where
  "sample_account = zero_Customer\<lparr>c_Name := ''bob'', c_Email := ''b@b.c'', c_Password := ''pw''\<rparr>"

theorem InsertCustomer_then_PasswordMatches_witness:
  "\<exists>d. GetCustomerByEmail ''b@b.c'' (snd (InsertCustomer plain_bcrypt sample_account empty_db))
        = (Inr d, snd (InsertCustomer plain_bcrypt sample_account empty_db)) \<and> c_Name d = ''bob''"
proof -
  have "bcrypt_ok plain_bcrypt" by (simp add: bcrypt_ok_def plain_bcrypt_def)
  moreover have "InsertCustomer plain_bcrypt sample_account empty_db
      = (Inr 1, snd (InsertCustomer plain_bcrypt sample_account empty_db))"
    by (rule result_eq) code_simp
  moreover have "faults (snd (InsertCustomer plain_bcrypt sample_account empty_db)) = []"
    by code_simp
  ultimately show ?thesis
    using InsertCustomer_then_PasswordMatches by (fastforce simp: sample_account_def)
qed

end
