(* ===== verification/Messages.thy ===== *)
theory Messages
  imports Schema "HOL-Library.Monad_Syntax"
begin

text \<open>
  What travels between the processes: the JSON documents on the RabbitMQ queues
  (\<open>data.BuyOrder\<close> on buy-bread-order, \<open>publishResult\<close> on bread-bought) and the protobuf
  messages of the broker's gRPC service, with the conversions between them.
\<close>

section \<open>JSON of the data structs\<close>

fun obj_fields :: "json \<Rightarrow> (string \<times> json) list option" where
  "obj_fields JNull = Some []"
| "obj_fields (JObj fs) = Some fs"
| "obj_fields _ = None"

text \<open>The \<open>buy_orders\<close> of a customer are never filled and travel as \<open>null\<close>.\<close>

definition enc_Customer :: "Customer \<Rightarrow> json" where
  "enc_Customer c = JObj [(''id'', enc_int (c_ID c)), (''name'', JStr (c_Name c)),
     (''email'', JStr (c_Email c)), (''password'', JStr (c_Password c)),
     (''created_at'', JTime (c_CreatedAt c)), (''updated_at'', JTime (c_UpdatedAt c)),
     (''buy_orders'', JNull)]"

definition dec_Customer :: "json \<Rightarrow> Customer option" where
  "dec_Customer j = do {
     fs \<leftarrow> obj_fields j;
     i \<leftarrow> dec_int (jfield ''id'' fs);
     n \<leftarrow> dec_str (jfield ''name'' fs);
     e \<leftarrow> dec_str (jfield ''email'' fs);
     p \<leftarrow> dec_str (jfield ''password'' fs);
     c \<leftarrow> dec_time (jfield ''created_at'' fs);
     u \<leftarrow> dec_time (jfield ''updated_at'' fs);
     Some \<lparr>c_ID = i, c_Name = n, c_Email = e, c_Password = p, c_CreatedAt = c, c_UpdatedAt = u\<rparr>
   }"

definition enc_Bread :: "Bread \<Rightarrow> json option" where
  "enc_Bread b = map_option (\<lambda>p. JObj [(''id'', enc_int (b_ID b)), (''name'', JStr (b_Name b)),
     (''price'', p), (''quantity'', enc_int (b_Quantity b)),
     (''created_at'', JTime (b_CreatedAt b)), (''updated_at'', JTime (b_UpdatedAt b)),
     (''image'', JStr (b_Image b)), (''description'', JStr (b_Description b)),
     (''type'', JStr (b_Type b)), (''status'', JStr (b_Status b))]) (enc_f64 (b_Price b))"

definition dec_Bread :: "json \<Rightarrow> Bread option" where
  "dec_Bread j = do {
     fs \<leftarrow> obj_fields j;
     i \<leftarrow> dec_int (jfield ''id'' fs);
     n \<leftarrow> dec_str (jfield ''name'' fs);
     p \<leftarrow> dec_f64 (jfield ''price'' fs);
     q \<leftarrow> dec_int (jfield ''quantity'' fs);
     c \<leftarrow> dec_time (jfield ''created_at'' fs);
     u \<leftarrow> dec_time (jfield ''updated_at'' fs);
     im \<leftarrow> dec_str (jfield ''image'' fs);
     d \<leftarrow> dec_str (jfield ''description'' fs);
     t \<leftarrow> dec_str (jfield ''type'' fs);
     st \<leftarrow> dec_str (jfield ''status'' fs);
     Some \<lparr>b_ID = i, b_Name = n, b_Price = p, b_Quantity = q, b_CreatedAt = c, b_UpdatedAt = u,
       b_Image = im, b_Description = d, b_Type = t, b_Status = st\<rparr>
   }"

definition enc_OrderItem :: "OrderItem \<Rightarrow> json option" where
  "enc_OrderItem x = map_option (\<lambda>p. JObj [(''bread_id'', enc_int (oi_BreadID x)),
     (''quantity_requested'', enc_int (oi_QuantityRequested x)),
     (''quantity_fulfilled'', enc_int (oi_QuantityFulfilled x)), (''bid_price'', p),
     (''status'', JStr (oi_Status x))]) (enc_f64 (oi_BidPrice x))"

definition dec_OrderItem :: "json \<Rightarrow> OrderItem option" where
  "dec_OrderItem j = do {
     fs \<leftarrow> obj_fields j;
     i \<leftarrow> dec_int (jfield ''bread_id'' fs);
     q \<leftarrow> dec_int (jfield ''quantity_requested'' fs);
     f \<leftarrow> dec_int (jfield ''quantity_fulfilled'' fs);
     p \<leftarrow> dec_f64 (jfield ''bid_price'' fs);
     st \<leftarrow> dec_str (jfield ''status'' fs);
     Some \<lparr>oi_BreadID = i, oi_QuantityRequested = q, oi_QuantityFulfilled = f, oi_BidPrice = p,
       oi_Status = st\<rparr>
   }"

text \<open>\<open>matched_items\<close> is left out when empty (\<open>omitempty\<close>).\<close>

definition enc_BuyOrder :: "BuyOrder \<Rightarrow> json option" where
  "enc_BuyOrder ord = do {
     bs \<leftarrow> enc_list enc_Bread (o_Breads ord);
     p \<leftarrow> enc_f64 (o_BidPrice ord);
     ms \<leftarrow> enc_list enc_OrderItem (o_MatchedItems ord);
     Some (JObj ([(''id'', enc_int (o_ID ord)), (''customer_id'', enc_int (o_CustomerID ord)),
       (''buy_order_uuid'', JStr (o_BuyOrderUUID ord)), (''customer'', enc_Customer (o_Customer ord)),
       (''breads'', bs), (''status'', JStr (o_Status ord)),
       (''sequence_number'', enc_int (o_SequenceNumber ord)), (''bid_price'', p),
       (''allow_partial'', JBool (o_AllowPartial ord)),
       (''skip_unavailable_items'', JBool (o_SkipUnavailableItems ord))]
       @ (if o_MatchedItems ord = [] then [] else [(''matched_items'', ms)])
       @ [(''created_at'', JTime (o_CreatedAt ord)), (''updated_at'', JTime (o_UpdatedAt ord))]))
   }"

definition dec_BuyOrder :: "json \<Rightarrow> BuyOrder option" where
  "dec_BuyOrder j = do {
     fs \<leftarrow> obj_fields j;
     i \<leftarrow> dec_int (jfield ''id'' fs);
     ci \<leftarrow> dec_int (jfield ''customer_id'' fs);
     u \<leftarrow> dec_str (jfield ''buy_order_uuid'' fs);
     c \<leftarrow> dec_Customer (jfield ''customer'' fs);
     bs \<leftarrow> dec_list dec_Bread (jfield ''breads'' fs);
     st \<leftarrow> dec_str (jfield ''status'' fs);
     n \<leftarrow> dec_int (jfield ''sequence_number'' fs);
     p \<leftarrow> dec_f64 (jfield ''bid_price'' fs);
     ap \<leftarrow> dec_bool (jfield ''allow_partial'' fs);
     sk \<leftarrow> dec_bool (jfield ''skip_unavailable_items'' fs);
     ms \<leftarrow> dec_list dec_OrderItem (jfield ''matched_items'' fs);
     ca \<leftarrow> dec_time (jfield ''created_at'' fs);
     ua \<leftarrow> dec_time (jfield ''updated_at'' fs);
     Some \<lparr>o_ID = i, o_CustomerID = ci, o_BuyOrderUUID = u, o_Customer = c, o_Breads = bs,
       o_Status = st, o_SequenceNumber = n, o_BidPrice = p, o_AllowPartial = ap,
       o_SkipUnavailableItems = sk, o_MatchedItems = ms, o_CreatedAt = ca, o_UpdatedAt = ua\<rparr>
   }"

record publishResult =
  pr_Order :: BuyOrder
  pr_Items :: "OrderItem list"
  pr_TotalCost :: f64

definition enc_publishResult :: "publishResult \<Rightarrow> json option" where
  "enc_publishResult r = do {
     ord \<leftarrow> enc_BuyOrder (pr_Order r);
     items \<leftarrow> enc_list enc_OrderItem (pr_Items r);
     cost \<leftarrow> enc_f64 (pr_TotalCost r);
     Some (JObj [(''order'', ord), (''items'', items), (''total_cost'', cost)])
   }"

definition dec_publishResult :: "json \<Rightarrow> publishResult option" where
  "dec_publishResult j = do {
     fs \<leftarrow> obj_fields j;
     ord \<leftarrow> dec_BuyOrder (jfield ''order'' fs);
     items \<leftarrow> dec_list dec_OrderItem (jfield ''items'' fs);
     cost \<leftarrow> dec_f64 (jfield ''total_cost'' fs);
     Some \<lparr>pr_Order = ord, pr_Items = items, pr_TotalCost = cost\<rparr>
   }"

section \<open>Round trips\<close>

text \<open>Values a Go struct can hold that survive the printed form.\<close>

definition Bread_ok :: "Bread \<Rightarrow> bool" where
  "Bread_ok b \<longleftrightarrow> is_int64 (b_ID b) \<and> is_int64 (b_Quantity b) \<and> f64_ok (b_Price b)"

definition OrderItem_ok :: "OrderItem \<Rightarrow> bool" where
  "OrderItem_ok x \<longleftrightarrow> is_int64 (oi_BreadID x) \<and> is_int64 (oi_QuantityRequested x)
     \<and> is_int64 (oi_QuantityFulfilled x) \<and> f64_ok (oi_BidPrice x)"

definition BuyOrder_ok :: "BuyOrder \<Rightarrow> bool" where
  "BuyOrder_ok ord \<longleftrightarrow> is_int64 (o_ID ord) \<and> is_int64 (o_CustomerID ord) \<and> is_int64 (o_SequenceNumber ord)
     \<and> is_int64 (c_ID (o_Customer ord)) \<and> f64_ok (o_BidPrice ord)
     \<and> (\<forall>b \<in> set (o_Breads ord). Bread_ok b) \<and> (\<forall>x \<in> set (o_MatchedItems ord). OrderItem_ok x)"

lemma dec_enc_Customer: "is_int64 (c_ID c) \<Longrightarrow> dec_Customer (enc_Customer c) = Some c"
  by (simp add: enc_Customer_def dec_Customer_def jfield_def dec_enc_int)

lemma dec_enc_Bread: "Bread_ok b \<Longrightarrow> \<exists>j. enc_Bread b = Some j \<and> dec_Bread j = Some b"
  using enc_f64_Some [of "b_Price b"]
  by (auto simp: enc_Bread_def dec_Bread_def jfield_def dec_enc_int Bread_ok_def)

lemma dec_enc_OrderItem: "OrderItem_ok x \<Longrightarrow> \<exists>j. enc_OrderItem x = Some j \<and> dec_OrderItem j = Some x"
  using enc_f64_Some [of "oi_BidPrice x"]
  by (auto simp: enc_OrderItem_def dec_OrderItem_def jfield_def dec_enc_int OrderItem_ok_def)

lemma dec_enc_BuyOrder:
  assumes "BuyOrder_ok ord"
  shows "\<exists>j. enc_BuyOrder ord = Some j \<and> dec_BuyOrder j = Some ord"
proof -
  obtain bs where bs: "enc_list enc_Bread (o_Breads ord) = Some bs" "dec_list dec_Bread bs = Some (o_Breads ord)"
    using dec_enc_list [of "o_Breads ord" enc_Bread dec_Bread] dec_enc_Bread assms
    by (auto simp: BuyOrder_ok_def)
  obtain ms where ms: "enc_list enc_OrderItem (o_MatchedItems ord) = Some ms"
      "dec_list dec_OrderItem ms = Some (o_MatchedItems ord)"
    using dec_enc_list [of "o_MatchedItems ord" enc_OrderItem dec_OrderItem] dec_enc_OrderItem assms
    by (auto simp: BuyOrder_ok_def)
  obtain p where p: "enc_f64 (o_BidPrice ord) = Some p" "dec_f64 p = Some (o_BidPrice ord)"
    using enc_f64_Some [of "o_BidPrice ord"] assms by (auto simp: BuyOrder_ok_def)
  have c: "dec_Customer (enc_Customer (o_Customer ord)) = Some (o_Customer ord)"
    using assms by (intro dec_enc_Customer) (simp add: BuyOrder_ok_def)
  show ?thesis
    using assms bs ms p c
    by (simp add: enc_BuyOrder_def dec_BuyOrder_def jfield_def dec_enc_int BuyOrder_ok_def)
qed

definition publishResult_ok :: "publishResult \<Rightarrow> bool" where
  "publishResult_ok r \<longleftrightarrow> BuyOrder_ok (pr_Order r) \<and> (\<forall>x \<in> set (pr_Items r). OrderItem_ok x)
     \<and> f64_ok (pr_TotalCost r)"

lemma dec_enc_publishResult:
  assumes "publishResult_ok r"
  shows "\<exists>j. enc_publishResult r = Some j \<and> dec_publishResult j = Some r"
proof -
  obtain ord where ord: "enc_BuyOrder (pr_Order r) = Some ord" "dec_BuyOrder ord = Some (pr_Order r)"
    using dec_enc_BuyOrder assms by (auto simp: publishResult_ok_def)
  obtain ms where ms: "enc_list enc_OrderItem (pr_Items r) = Some ms" "dec_list dec_OrderItem ms = Some (pr_Items r)"
    using dec_enc_list [of "pr_Items r" enc_OrderItem dec_OrderItem] dec_enc_OrderItem assms
    by (auto simp: publishResult_ok_def)
  obtain p where p: "enc_f64 (pr_TotalCost r) = Some p" "dec_f64 p = Some (pr_TotalCost r)"
    using enc_f64_Some [of "pr_TotalCost r"] assms by (auto simp: publishResult_ok_def)
  show ?thesis
    using ord ms p by (simp add: enc_publishResult_def dec_publishResult_def jfield_def)
qed

text \<open>
  The messages on bread-bought are read back as they were written: decoding the JSON of a
  result gives the same order, items and cost, for every result whose integers are 64-bit and
  whose floats are finite doubles.
\<close>

theorem publishResult_roundtrip:
  assumes "publishResult_ok r"
  shows "Option.bind (enc_publishResult r) dec_publishResult = Some r"
  using dec_enc_publishResult [OF assms] by auto

definition sample_result :: publishResult where
  "sample_result = \<lparr>pr_Order = zero_BuyOrder\<lparr>o_BuyOrderUUID := ''u1'',
     o_Breads := [zero_Bread\<lparr>b_ID := 1, b_Quantity := 2\<rparr>]\<rparr>,
     pr_Items = [\<lparr>oi_BreadID = 1, oi_QuantityRequested = 2, oi_QuantityFulfilled = 2,
       oi_BidPrice = 0, oi_Status = ''fulfilled''\<rparr>], pr_TotalCost = 0\<rparr>"

theorem publishResult_roundtrip_witness:
  "Option.bind (enc_publishResult sample_result) dec_publishResult = Some sample_result"
proof -
  have "publishResult_ok sample_result"
    by (simp add: publishResult_ok_def sample_result_def BuyOrder_ok_def Bread_ok_def OrderItem_ok_def
        zero_BuyOrder_def zero_Bread_def zero_Customer_def is_int64_def)
  then show ?thesis by (rule publishResult_roundtrip)
qed

section \<open>Protobuf messages of BrokerService\<close>

record pbBuyOrderItem =
  pb_BreadId :: int
  pb_QuantityRequested :: int
  pb_BidPrice :: f64
  pb_Status :: string

record pbBuyOrder =
  pb_Id :: int
  pb_CustomerId :: int
  pb_BuyOrderUuid :: string
  pb_OrderStatus :: string
  pb_SequenceNumber :: int
  pb_OrderBidPrice :: f64
  pb_AllowPartial :: bool
  pb_SkipUnavailableItems :: bool
  pb_CreatedAt :: "int option"
  pb_Items :: "pbBuyOrderItem list"

record BrokerOrderResult =
  Accepted :: bool
  OrderId :: int
  Message :: string

record ReserveInventoryRequest =
  rq_BreadId :: int
  rq_QuantityRequested :: int
  rq_BuyOrderUuid :: string

record ReserveInventoryResult =
  Reserved :: bool
  rs_QuantityFulfilled :: int
  rs_Message :: string

record MatchingItemResult =
  mi_BreadId :: int
  mi_QuantityRequested :: int
  mi_QuantityFulfilled :: int
  mi_Status :: string

record MatchingBatchResult =
  mr_BuyOrderUuid :: string
  mr_OrderStatus :: string
  mr_Items :: "MatchingItemResult list"
  mr_TotalCost :: f64

record BatchConfirmation =
  bc_Accepted :: bool
  OrdersProcessed :: int
  bc_Message :: string

text \<open>The status codes of \<open>google.golang.org/grpc/codes\<close> that the code returns or meets.\<close>

datatype code = Internal | InvalidArgument | NotFound | AlreadyExists | PermissionDenied
  | Unauthenticated | ResourceExhausted | DeadlineExceeded | Unavailable | Canceled | FailedPrecondition
  | Unknown

definition dataToProtoBuyOrder :: "BuyOrder \<Rightarrow> pbBuyOrder" where
  "dataToProtoBuyOrder order =
     \<lparr>pb_Id = int32 (o_ID order), pb_CustomerId = int32 (o_CustomerID order),
      pb_BuyOrderUuid = o_BuyOrderUUID order, pb_OrderStatus = o_Status order,
      pb_SequenceNumber = o_SequenceNumber order, pb_OrderBidPrice = o_BidPrice order,
      pb_AllowPartial = o_AllowPartial order, pb_SkipUnavailableItems = o_SkipUnavailableItems order,
      pb_CreatedAt = None,
      pb_Items = map (\<lambda>b. \<lparr>pb_BreadId = int32 (b_ID b), pb_QuantityRequested = int32 (b_Quantity b),
                             pb_BidPrice = b_Price b, pb_Status = ''pending''\<rparr>) (o_Breads order)\<rparr>"

definition protoToDataBuyOrder :: "pbBuyOrder \<Rightarrow> BuyOrder" where
  "protoToDataBuyOrder proto = zero_BuyOrder
     \<lparr>o_CustomerID := pb_CustomerId proto, o_BuyOrderUUID := pb_BuyOrderUuid proto,
      o_Status := ''processing'', o_SequenceNumber := pb_SequenceNumber proto,
      o_BidPrice := pb_OrderBidPrice proto, o_AllowPartial := pb_AllowPartial proto,
      o_SkipUnavailableItems := pb_SkipUnavailableItems proto,
      o_CreatedAt := (case pb_CreatedAt proto of None \<Rightarrow> zero_time | Some t \<Rightarrow> t)\<rparr>"

definition protoToDataBreads :: "pbBuyOrderItem list \<Rightarrow> Bread list" where
  "protoToDataBreads items = map (\<lambda>x. zero_Bread\<lparr>b_ID := pb_BreadId x,
     b_Quantity := pb_QuantityRequested x, b_Price := pb_BidPrice x\<rparr>) items"

text \<open>
  The payload of the outbox; a cost that JSON cannot hold leaves an error object.
\<close>

definition matchingResultToPayload :: "MatchingBatchResult \<Rightarrow> json" where
  "matchingResultToPayload r =
     (case enc_f64 (mr_TotalCost r) of
        None \<Rightarrow> JObj [(''error'', JStr ''marshal_failed'')]
      | Some cost \<Rightarrow> JObj [(''order_uuid'', JStr (mr_BuyOrderUuid r)),
          (''order_status'', JStr (mr_OrderStatus r)),
          (''items'', if mr_Items r = [] then JNull else JArr (map (\<lambda>x. JObj
             [(''bread_id'', enc_int (mi_BreadId x)),
              (''quantity_requested'', enc_int (mi_QuantityRequested x)),
              (''quantity_fulfilled'', enc_int (mi_QuantityFulfilled x)),
              (''status'', JStr (mi_Status x))]) (mr_Items r))),
          (''total_cost'', cost)])"

definition matchingItemsToDataOrderItems :: "MatchingItemResult list \<Rightarrow> OrderItem list" where
  "matchingItemsToDataOrderItems items = map (\<lambda>x. \<lparr>oi_BreadID = mi_BreadId x,
     oi_QuantityRequested = mi_QuantityRequested x, oi_QuantityFulfilled = mi_QuantityFulfilled x,
     oi_BidPrice = 0, oi_Status = mi_Status x\<rparr>) items"

end
