(* ===== verification/Resilience.thy ===== *)
theory Resilience
  imports Float64
begin

text \<open>
  \<open>pkg/resilience/circuit_breaker.go\<close>: the circuit breaker as a state machine, the retry
  loop, and the token-bucket rate limiter. Times and durations are nanoseconds; the reading of
  the clock is an argument of each operation. Each operation holds the mutex of its object from
  beginning to end, so that it is one step.
\<close>

section \<open>Circuit breaker\<close>

datatype State = StateClosed | StateOpen | StateHalfOpen

text \<open>The constants are numbered by \<open>iota\<close> and ordered by that number.\<close>

fun iota :: "State \<Rightarrow> int" where
  "iota StateClosed = 0"
| "iota StateOpen = 1"
| "iota StateHalfOpen = 2"

lemma iota_inject [simp]: "iota a = iota b \<longleftrightarrow> a = b"
  by (cases a; cases b) simp_all

instantiation State :: linorder
begin

definition less_eq_State :: "State \<Rightarrow> State \<Rightarrow> bool" where
  "a \<le> b \<longleftrightarrow> iota a \<le> iota b"

definition less_State :: "State \<Rightarrow> State \<Rightarrow> bool" where
  "a < b \<longleftrightarrow> iota a < iota b"

instance
  by standard (auto simp: less_eq_State_def less_State_def)

end

fun State_String :: "State \<Rightarrow> string" where
  "State_String StateClosed = ''closed''"
| "State_String StateOpen = ''open''"
| "State_String StateHalfOpen = ''half-open''"

record CircuitBreaker =
  cb_state :: State
  failureCount :: int
  successCount :: int
  failureThreshold :: int
  resetTimeout :: int
  lastFailure :: int

record Options =
  FailureThreshold :: int
  ResetTimeout :: int

definition DefaultOptions :: Options where
  "DefaultOptions = \<lparr>FailureThreshold = 5, ResetTimeout = 30 * 1000000000\<rparr>"

text \<open>The zero value of \<open>time.Time\<close> is the beginning of the clock.\<close>

definition NewCircuitBreaker :: "Options \<Rightarrow> CircuitBreaker" where
  "NewCircuitBreaker opts =
     \<lparr>cb_state = StateClosed, failureCount = 0, successCount = 0,
      failureThreshold = (if FailureThreshold opts \<le> 0 then FailureThreshold DefaultOptions
                          else FailureThreshold opts),
      resetTimeout = (if ResetTimeout opts \<le> 0 then ResetTimeout DefaultOptions
                      else ResetTimeout opts),
      lastFailure = 0\<rparr>"

text \<open>\<open>Time.Sub\<close> saturates at the ends of a \<open>Duration\<close>.\<close>

definition time_sub :: "int \<Rightarrow> int \<Rightarrow> int" where
  "time_sub a b = max (- 9223372036854775808) (min 9223372036854775807 (a - b))"

definition Allow :: "int \<Rightarrow> CircuitBreaker \<Rightarrow> (bool \<times> int) \<times> CircuitBreaker" where
  "Allow t cb = (case cb_state cb of
       StateClosed \<Rightarrow> ((True, 0), cb)
     | StateOpen \<Rightarrow>
         (let since = time_sub t (lastFailure cb)
          in if resetTimeout cb \<le> since then ((True, 0), cb\<lparr>cb_state := StateHalfOpen\<rparr>)
             else ((False, int64 (resetTimeout cb - since)), cb))
     | StateHalfOpen \<Rightarrow>
         (if 0 < successCount cb then ((False, resetTimeout cb), cb) else ((True, 0), cb)))"

definition RecordSuccess :: "CircuitBreaker \<Rightarrow> CircuitBreaker" where
  "RecordSuccess cb =
     (if cb_state cb = StateHalfOpen
      then cb\<lparr>cb_state := StateClosed, failureCount := 0, successCount := 0\<rparr> else cb)"

definition RecordFailure :: "int \<Rightarrow> CircuitBreaker \<Rightarrow> CircuitBreaker" where
  "RecordFailure t cb0 =
     (let cb = cb0\<lparr>lastFailure := t\<rparr> in
      case cb_state cb of
        StateHalfOpen \<Rightarrow>
          cb\<lparr>cb_state := StateOpen, failureCount := int64 (failureCount cb + 1), successCount := 0\<rparr>
      | StateClosed \<Rightarrow>
          (let cb = cb\<lparr>failureCount := int64 (failureCount cb + 1)\<rparr>
           in if failureThreshold cb \<le> failureCount cb
              then cb\<lparr>cb_state := StateOpen, successCount := 0\<rparr> else cb)
      | StateOpen \<Rightarrow> cb\<lparr>failureCount := int64 (failureCount cb + 1)\<rparr>)"

section \<open>The breaker as a transition system\<close>

datatype event = EAllow | ESuccess | EFailure

fun apply_event :: "int \<Rightarrow> event \<Rightarrow> CircuitBreaker \<Rightarrow> CircuitBreaker" where
  "apply_event t EAllow cb = snd (Allow t cb)"
| "apply_event t ESuccess cb = RecordSuccess cb"
| "apply_event t EFailure cb = RecordFailure t cb"

fun run_events :: "(int \<times> event) list \<Rightarrow> CircuitBreaker \<Rightarrow> CircuitBreaker" where
  "run_events [] cb = cb"
| "run_events (te # tes) cb = run_events tes (apply_event (fst te) (snd te) cb)"

text \<open>Reachable at time \<open>t\<close>, with the clock never going back.\<close>

inductive reachable :: "Options \<Rightarrow> int \<Rightarrow> CircuitBreaker \<Rightarrow> bool" for opts where
  init: "0 \<le> t \<Longrightarrow> reachable opts t (NewCircuitBreaker opts)"
| tick: "reachable opts t cb \<Longrightarrow> t \<le> u \<Longrightarrow> reachable opts u (apply_event u e cb)"

definition breaker_inv :: "Options \<Rightarrow> int \<Rightarrow> CircuitBreaker \<Rightarrow> bool" where
  "breaker_inv opts t cb \<longleftrightarrow>
     successCount cb = 0 \<and> lastFailure cb \<le> t
     \<and> failureThreshold cb = failureThreshold (NewCircuitBreaker opts)
     \<and> resetTimeout cb = resetTimeout (NewCircuitBreaker opts)
     \<and> (cb_state cb = StateClosed \<longrightarrow> 0 \<le> failureCount cb \<and> failureCount cb < failureThreshold cb)"

definition options_ok :: "Options \<Rightarrow> bool" where
  "options_ok opts \<longleftrightarrow> is_int64 (FailureThreshold opts) \<and> is_int64 (ResetTimeout opts)"

lemma threshold_pos: "0 < failureThreshold (NewCircuitBreaker opts)" "0 < resetTimeout (NewCircuitBreaker opts)"
  by (simp_all add: NewCircuitBreaker_def DefaultOptions_def)

lemma threshold_int64: "options_ok opts \<Longrightarrow> is_int64 (failureThreshold (NewCircuitBreaker opts))"
  "options_ok opts \<Longrightarrow> is_int64 (resetTimeout (NewCircuitBreaker opts))"
  by (simp_all add: NewCircuitBreaker_def DefaultOptions_def options_ok_def) (simp_all add: is_int64_def)

lemma breaker_inv_init: "0 \<le> t \<Longrightarrow> breaker_inv opts t (NewCircuitBreaker opts)"
  using threshold_pos [of opts] by (simp add: breaker_inv_def) (simp add: NewCircuitBreaker_def)

lemma breaker_inv_Allow: "breaker_inv opts t cb \<Longrightarrow> t \<le> u \<Longrightarrow> breaker_inv opts u (snd (Allow u cb))"
  by (auto simp: breaker_inv_def Allow_def Let_def split: State.split)

lemma breaker_inv_RecordSuccess: "breaker_inv opts t cb \<Longrightarrow> t \<le> u \<Longrightarrow> breaker_inv opts u (RecordSuccess cb)"
  using threshold_pos [of opts] by (auto simp: breaker_inv_def RecordSuccess_def)

lemma failure_count_Suc:
  assumes "options_ok opts" and "breaker_inv opts t cb" and "cb_state cb = StateClosed"
  shows "int64 (failureCount cb + 1) = failureCount cb + 1"
  using threshold_int64(1) [OF assms(1)] assms(2,3)
  by (intro int64_id) (simp add: breaker_inv_def is_int64_def)

lemma breaker_inv_RecordFailure:
  assumes "options_ok opts" and "breaker_inv opts t cb" and "t \<le> u"
  shows "breaker_inv opts u (RecordFailure u cb)"
proof (cases "cb_state cb")
  case StateClosed
  then show ?thesis
    using failure_count_Suc [OF assms(1,2)] assms(2)
    by (simp add: breaker_inv_def RecordFailure_def Let_def)
qed (use assms in \<open>simp_all add: breaker_inv_def RecordFailure_def Let_def\<close>)

lemma reachable_inv:
  assumes "reachable opts t cb" and "options_ok opts"
  shows "breaker_inv opts t cb"
  using assms
proof (induction rule: reachable.induct)
  case (init t)
  then show ?case by (simp add: breaker_inv_init)
next
  case (tick t cb u e)
  then show ?case
    by (cases e) (simp_all add: breaker_inv_Allow breaker_inv_RecordSuccess breaker_inv_RecordFailure)
qed

lemma time_sub_id: "b \<le> a \<Longrightarrow> a - b \<le> 9223372036854775807 \<Longrightarrow> time_sub a b = a - b"
  by (simp add: time_sub_def)

lemma open_since:
  assumes "breaker_inv opts t cb" and "options_ok opts" and "t \<le> u" and "time_sub u (lastFailure cb) < resetTimeout cb"
  shows "time_sub u (lastFailure cb) = u - lastFailure cb" and "lastFailure cb \<le> u"
    and "u - lastFailure cb < resetTimeout cb" and "is_int64 (resetTimeout cb)"
proof -
  show 1: "is_int64 (resetTimeout cb)"
    using assms(1,2) threshold_int64(2) [of opts] by (simp add: breaker_inv_def)
  show 2: "lastFailure cb \<le> u" using assms(1,3) by (simp add: breaker_inv_def)
  show "time_sub u (lastFailure cb) = u - lastFailure cb" "u - lastFailure cb < resetTimeout cb"
    using 1 2 assms(4) by (auto simp: time_sub_def is_int64_def max_def min_def split: if_splits)
qed

text \<open>
  In every reachable state of a breaker, an open circuit refuses a request before its reset
  timeout has passed and says how long that still is: a request made no earlier than that is let
  through as a trial, one made before is refused.
\<close>

theorem open_circuit_retry_after:
  assumes "options_ok opts" and "reachable opts t cb" and "cb_state cb = StateOpen" and "t \<le> u"
    and "Allow u cb = ((False, r), cb')"
  shows "cb' = cb \<and> 0 < r \<and> r \<le> resetTimeout cb
    \<and> (\<forall>v \<ge> u. fst (fst (Allow v cb)) \<longleftrightarrow> u + r \<le> v)"
proof -
  note inv = reachable_inv [OF assms(2,1)]
  have "time_sub u (lastFailure cb) < resetTimeout cb" "cb' = cb"
      and r: "r = int64 (resetTimeout cb - time_sub u (lastFailure cb))"
    using assms(3,5) by (auto simp: Allow_def Let_def split: if_splits)
  note since = open_since [OF inv assms(1,4) this(1)]
  have r: "r = resetTimeout cb - (u - lastFailure cb)"
    using r since by (subst r) (intro trans [OF int64_id], auto simp: is_int64_def)
  have "fst (fst (Allow v cb)) \<longleftrightarrow> u + r \<le> v" if "u \<le> v" for v
    using assms(3) since r that by (auto simp: Allow_def Let_def time_sub_def is_int64_def)
  with r since \<open>cb' = cb\<close> show ?thesis by simp
qed

definition quick :: Options where
  "quick = \<lparr>FailureThreshold = 1, ResetTimeout = 10\<rparr>"

theorem open_circuit_retry_after_witness:
  "\<not> fst (fst (Allow 14 (RecordFailure 5 (NewCircuitBreaker quick))))
    \<and> fst (fst (Allow 15 (RecordFailure 5 (NewCircuitBreaker quick))))"
proof -
  have "reachable quick 5 (apply_event 5 EFailure (NewCircuitBreaker quick))"
    by (rule tick [OF init [of 0]]) simp_all
  then have "reachable quick 5 (RecordFailure 5 (NewCircuitBreaker quick))" by simp
  moreover have "options_ok quick" "cb_state (RecordFailure 5 (NewCircuitBreaker quick)) = StateOpen"
    "Allow 7 (RecordFailure 5 (NewCircuitBreaker quick)) =
       ((False, 8), RecordFailure 5 (NewCircuitBreaker quick))"
    by code_simp+
  ultimately show ?thesis using open_circuit_retry_after [of quick 5 _ 7 8] by fastforce
qed

definition failures :: "(int \<times> event) list \<Rightarrow> nat" where
  "failures tes = length (filter (\<lambda>te. snd te = EFailure) tes)"

lemma run_closed:
  assumes "options_ok opts" and "breaker_inv opts t cb" and "cb_state cb = StateClosed"
    and "failureCount cb + int (failures tes) < failureThreshold cb"
  shows "cb_state (run_events tes cb) = StateClosed
    \<and> failureCount (run_events tes cb) = failureCount cb + int (failures tes)
    \<and> failureThreshold (run_events tes cb) = failureThreshold cb"
  using assms(2-)
proof (induction tes arbitrary: t cb)
  case Nil
  then show ?case by (simp add: failures_def)
next
  case (Cons te tes)
  note cnt = failure_count_Suc [OF assms(1) Cons.prems(1,2)]
  show ?case
  proof (cases "snd te")
    case EFailure
    let ?cb = "RecordFailure (fst te) cb"
    have lt: "failureCount cb + 1 + int (failures tes) < failureThreshold cb"
      using Cons.prems(3) EFailure by (simp add: failures_def)
    have step: "?cb = cb\<lparr>lastFailure := fst te, failureCount := failureCount cb + 1\<rparr>"
      using lt cnt Cons.prems(2) by (simp add: RecordFailure_def Let_def)
    have "breaker_inv opts (max t (fst te)) ?cb"
      using Cons.prems(1,2) lt by (simp add: step breaker_inv_def)
    from Cons.IH [OF this] show ?thesis
      using lt Cons.prems(2) EFailure by (simp add: step failures_def)
  next
    case EAllow
    then show ?thesis using Cons by (simp add: Allow_def failures_def)
  next
    case ESuccess
    then show ?thesis using Cons by (simp add: RecordSuccess_def failures_def)
  qed
qed

text \<open>
  C6: The circuit counts all failures, not consecutive ones as its documentation says: while it is
  closed a success does not lower the count, so that a new circuit stays closed while it has seen
  fewer failures than the threshold, and the failure that reaches the threshold opens it, whatever
  successes came in between and however long ago the others were.
\<close>

theorem breaker_opens_at_threshold:
  assumes "options_ok opts" and "int (failures tes) < failureThreshold (NewCircuitBreaker opts)"
  shows "cb_state (run_events tes (NewCircuitBreaker opts)) = StateClosed
    \<and> cb_state (RecordFailure u (run_events tes (NewCircuitBreaker opts))) =
        (if int (failures tes) + 1 = failureThreshold (NewCircuitBreaker opts) then StateOpen else StateClosed)"
proof -
  let ?new = "NewCircuitBreaker opts"
  have new: "breaker_inv opts 0 ?new" "cb_state ?new = StateClosed" "failureCount ?new = 0"
    using breaker_inv_init [of 0 opts] by (simp_all add: NewCircuitBreaker_def)
  have run: "cb_state (run_events tes ?new) = StateClosed"
      "failureCount (run_events tes ?new) = int (failures tes)"
      "failureThreshold (run_events tes ?new) = failureThreshold ?new"
    using run_closed [OF assms(1) new(1,2), of tes] assms(2) new(3) by simp_all
  moreover have "int64 (int (failures tes) + 1) = int (failures tes) + 1"
    using threshold_int64(1) [OF assms(1)] assms(2) by (intro int64_id) (simp add: is_int64_def)
  ultimately show ?thesis using assms(2) by (auto simp: RecordFailure_def Let_def)
qed

theorem breaker_opens_at_threshold_witness:
  "cb_state (RecordFailure 9 (run_events [(1, EFailure), (2, ESuccess)]
     (NewCircuitBreaker \<lparr>FailureThreshold = 2, ResetTimeout = 10\<rparr>))) = StateOpen"
  using breaker_opens_at_threshold [of "\<lparr>FailureThreshold = 2, ResetTimeout = 10\<rparr>"
      "[(1, EFailure), (2, ESuccess)]" 9]
  by (simp add: options_ok_def is_int64_def failures_def NewCircuitBreaker_def)

text \<open>
  A half-open circuit decides on the next result: success closes it with a clean count,
  failure opens it again and restarts the timeout. Until then every request is let through, not
  only one.
\<close>

theorem half_open_decides:
  assumes "options_ok opts" and "reachable opts t cb" and "cb_state cb = StateHalfOpen"
  shows "Allow u cb = ((True, 0), cb)
    \<and> cb_state (RecordSuccess cb) = StateClosed \<and> failureCount (RecordSuccess cb) = 0
    \<and> cb_state (RecordFailure u cb) = StateOpen \<and> lastFailure (RecordFailure u cb) = u"
  using reachable_inv [OF assms(2,1)] assms(3)
  by (simp add: breaker_inv_def Allow_def RecordSuccess_def RecordFailure_def Let_def)

theorem half_open_decides_witness:
  "Allow 99 (snd (Allow 15 (RecordFailure 5 (NewCircuitBreaker quick)))) =
     ((True, 0), snd (Allow 15 (RecordFailure 5 (NewCircuitBreaker quick))))"
proof -
  have "reachable quick 15 (apply_event 15 EAllow (apply_event 5 EFailure (NewCircuitBreaker quick)))"
    by (rule tick [OF tick [OF init [of 0]]]) simp_all
  then have "reachable quick 15 (snd (Allow 15 (RecordFailure 5 (NewCircuitBreaker quick))))" by simp
  moreover have "options_ok quick"
    "cb_state (snd (Allow 15 (RecordFailure 5 (NewCircuitBreaker quick)))) = StateHalfOpen"
    by code_simp+
  ultimately show ?thesis using half_open_decides by blast
qed

section \<open>Retry\<close>

record RetryConfig =
  MaxRetries :: int
  BaseDelay :: int
  MaxDelay :: int
  Multiplier :: f64

definition DefaultRetryConfig :: RetryConfig where
  "DefaultRetryConfig = \<lparr>MaxRetries = 3, BaseDelay = 100 * 1000000, MaxDelay = 2 * 1000000000,
     Multiplier = Fin 2\<rparr>"

datatype 'e retry_error =
    CircuitOpen int
  | ContextDone 'e
  | RetriesExhausted int "'e option"

text \<open>
  The surroundings of the loop: the wrapped call, the wait of \<open>select\<close> (which ends with the
  context's error or after the delay), and the clock, all over a world \<open>'w\<close>. The breaker is
  the one of the configuration, if it has one.
\<close>

record ('w, 'e) surroundings =
  call_fn :: "'w \<Rightarrow> 'e option \<times> 'w"
  wait_for :: "int \<Rightarrow> 'w \<Rightarrow> 'e option \<times> 'w"
  clock :: "'w \<Rightarrow> int"

definition next_delay :: "RetryConfig \<Rightarrow> int \<Rightarrow> int" where
  "next_delay cfg delay =
     (let d = int64_of_f64 (f64_of_int delay * Multiplier cfg)
      in if MaxDelay cfg < d then MaxDelay cfg else d)"

text \<open>
  The loop from attempt \<open>att\<close> on, as it is written: a counter that wraps around, compared with
  \<open>MaxRetries\<close>. With the largest \<open>int\<close> as \<open>MaxRetries\<close> the condition never fails, so that the loop
  may not return, which is the value \<open>None\<close>.
\<close>

partial_function (option) Retry_from ::
  "RetryConfig \<Rightarrow> ('w, 'e) surroundings \<Rightarrow> int \<Rightarrow> int \<Rightarrow> 'e option
     \<Rightarrow> CircuitBreaker option \<Rightarrow> 'w \<Rightarrow> (('e retry_error + unit) \<times> CircuitBreaker option \<times> 'w) option" where
  "Retry_from cfg env att delay lastErr cb0 w0 =
     (if \<not> att \<le> MaxRetries cfg
      then Some (Inl (RetriesExhausted (int64 (MaxRetries cfg + 1)) lastErr), cb0, w0)
      else
        (let (gate, cb) = (case cb0 of
               None \<Rightarrow> ((True, 0), None)
             | Some b \<Rightarrow> (case Allow (clock env w0) b of (r, b') \<Rightarrow> (r, Some b')))
         in if \<not> fst gate then Some (Inl (CircuitOpen (snd gate)), cb, w0)
            else case call_fn env w0 of
              (None, w) \<Rightarrow> Some (Inr (), map_option RecordSuccess cb, w)
            | (Some err, w) \<Rightarrow>
                (let cb = map_option (RecordFailure (clock env w)) cb in
                 if att < MaxRetries cfg
                 then (case wait_for env delay w of
                         (Some e, w) \<Rightarrow> Some (Inl (ContextDone e), cb, w)
                       | (None, w) \<Rightarrow>
                           Retry_from cfg env (int64 (att + 1)) (next_delay cfg delay) (Some err) cb w)
                 else Retry_from cfg env (int64 (att + 1)) delay (Some err) cb w)))"

definition Retry ::
  "RetryConfig \<Rightarrow> ('w, 'e) surroundings \<Rightarrow> CircuitBreaker option \<Rightarrow> 'w
     \<Rightarrow> (('e retry_error + unit) \<times> CircuitBreaker option \<times> 'w) option" where
  "Retry cfg env cb w = Retry_from cfg env 0 (BaseDelay cfg) None cb w"

text \<open>The same with the number of attempts that are left in the place of the condition.\<close>

fun retry_loop ::
  "nat \<Rightarrow> RetryConfig \<Rightarrow> ('w, 'e) surroundings \<Rightarrow> int \<Rightarrow> int \<Rightarrow> 'e option
     \<Rightarrow> CircuitBreaker option \<Rightarrow> 'w \<Rightarrow> ('e retry_error + unit) \<times> CircuitBreaker option \<times> 'w" where
  "retry_loop 0 cfg env att delay lastErr cb w =
     (Inl (RetriesExhausted (int64 (MaxRetries cfg + 1)) lastErr), cb, w)"
| "retry_loop (Suc n) cfg env att delay lastErr cb0 w0 =
     (let (gate, cb) = (case cb0 of
            None \<Rightarrow> ((True, 0), None)
          | Some b \<Rightarrow> (case Allow (clock env w0) b of (r, b') \<Rightarrow> (r, Some b')))
      in if \<not> fst gate then (Inl (CircuitOpen (snd gate)), cb, w0)
         else case call_fn env w0 of
           (None, w) \<Rightarrow> (Inr (), map_option RecordSuccess cb, w)
         | (Some err, w) \<Rightarrow>
             (let cb = map_option (RecordFailure (clock env w)) cb in
              if att < MaxRetries cfg
              then (case wait_for env delay w of
                      (Some e, w) \<Rightarrow> (Inl (ContextDone e), cb, w)
                    | (None, w) \<Rightarrow>
                        retry_loop n cfg env (att + 1) (next_delay cfg delay) (Some err) cb w)
              else retry_loop n cfg env (att + 1) delay (Some err) cb w))"

definition Retry_result ::
  "RetryConfig \<Rightarrow> ('w, 'e) surroundings \<Rightarrow> CircuitBreaker option \<Rightarrow> 'w
     \<Rightarrow> ('e retry_error + unit) \<times> CircuitBreaker option \<times> 'w" where
  "Retry_result cfg env cb w = retry_loop (nat (MaxRetries cfg + 1)) cfg env 0 (BaseDelay cfg) None cb w"

lemma Retry_from_loop:
  assumes "MaxRetries cfg < 9223372036854775807" and "0 \<le> att"
    and "att + int n = MaxRetries cfg + 1 \<or> n = 0 \<and> MaxRetries cfg < att"
  shows "Retry_from cfg env att delay lastErr cb w = Some (retry_loop n cfg env att delay lastErr cb w)"
  using assms(2,3)
proof (induction n arbitrary: att delay lastErr cb w)
  case 0
  then have "\<not> att \<le> MaxRetries cfg" by auto
  then show ?case by (simp add: Retry_from.simps [of cfg env att])
next
  case (Suc n)
  then have att: "att \<le> MaxRetries cfg" "int64 (att + 1) = att + 1" using assms(1) by (auto simp: is_int64_def)
  have IH: "Retry_from cfg env (att + 1) d e b v = Some (retry_loop n cfg env (att + 1) d e b v)" for d e b v
    using Suc.prems by (intro Suc.IH) auto
  show ?case
    by (subst Retry_from.simps) (simp add: att IH Let_def split: prod.split option.split)
qed

lemma Retry_returns:
  assumes "MaxRetries cfg < 9223372036854775807"
  shows "Retry cfg env cb w = Some (Retry_result cfg env cb w)"
  unfolding Retry_def Retry_result_def using assms by (intro Retry_from_loop) auto

text \<open>
  An invariant of the failed calls and the waits is what an error leaves; what a successful call
  establishes from it is what success leaves.
\<close>

lemma retry_loop_rule:
  assumes fails: "\<And>v e v'. J v \<Longrightarrow> call_fn env v = (Some e, v') \<Longrightarrow> J v'"
    and waits: "\<And>d v e v'. J v \<Longrightarrow> wait_for env d v = (e, v') \<Longrightarrow> J v'"
    and success: "\<And>v v'. J v \<Longrightarrow> call_fn env v = (None, v') \<Longrightarrow> K v'"
    and "J w" and "retry_loop n cfg env att delay lastErr cb w = (r, cb', w')"
  shows "case r of Inl e \<Rightarrow> J w' | Inr u \<Rightarrow> K w'"
  using assms(4,5)
proof (induction n arbitrary: att delay lastErr cb w)
  case 0
  then show ?case by auto
next
  case (Suc n)
  obtain c w1 where call: "call_fn env w = (c, w1)" by (cases "call_fn env w")
  obtain q w2 where wait: "wait_for env delay w1 = (q, w2)" by (cases "wait_for env delay w1")
  obtain gate cb1 where gate: "(case cb of None \<Rightarrow> ((True, 0), None)
      | Some b \<Rightarrow> (case Allow (clock env w) b of (r, b') \<Rightarrow> (r, Some b'))) = (gate, cb1)"
    by fastforce
  show ?case
  proof (cases "fst gate")
    case False
    then show ?thesis using Suc.prems gate by (auto simp: Let_def)
  next
    case go: True
    show ?thesis
    proof (cases c)
      case None
      then show ?thesis using Suc.prems gate go call success by (auto simp: Let_def)
    next
      case (Some e)
      then have J1: "J w1" using fails Suc.prems(1) call by blast
      then have J2: "J w2" using waits wait by blast
      show ?thesis
        using Suc.prems(2) Some gate go call wait J1 J2
          Suc.IH [OF J1, of "att + 1" delay "Some e" "map_option (RecordFailure (clock env w1)) cb1"]
          Suc.IH [OF J2, of "att + 1" "next_delay cfg delay" "Some e" "map_option (RecordFailure (clock env w1)) cb1"]
        by (auto simp: Let_def split: if_splits option.splits)
    qed
  qed
qed

lemma Retry_rule:
  assumes "\<And>v e v'. J v \<Longrightarrow> call_fn env v = (Some e, v') \<Longrightarrow> J v'"
    and "\<And>d v e v'. J v \<Longrightarrow> wait_for env d v = (e, v') \<Longrightarrow> J v'"
    and "\<And>v v'. J v \<Longrightarrow> call_fn env v = (None, v') \<Longrightarrow> K v'"
    and "J w" and "Retry_result cfg env cb w = (r, cb', w')"
  shows "case r of Inl e \<Rightarrow> J w' | Inr u \<Rightarrow> K w'"
  using assms(1-4) assms(5) [unfolded Retry_result_def] by (rule retry_loop_rule)

lemma Retry_first:
  assumes "0 \<le> MaxRetries cfg" and "Allow (clock env w) b = ((True, x), b')" and "call_fn env w = (None, w')"
  shows "Retry_result cfg env (Some b) w = (Inr (), Some (RecordSuccess b'), w')"
proof -
  have "nat (MaxRetries cfg + 1) = Suc (nat (MaxRetries cfg))" using assms(1) by simp
  then show ?thesis using assms(2,3) by (simp add: Retry_result_def Let_def)
qed

lemma Retry_keeps_breaker: "\<exists>b'. fst (snd (Retry_result cfg env (Some b) w)) = Some b'"
proof -
  have "\<exists>b'. fst (snd (retry_loop n cfg env att delay lastErr (Some b) w)) = Some b'" for n att delay lastErr b w
    by (induction n arbitrary: att delay lastErr b w) (auto simp: Let_def split: prod.split option.split)
  then show ?thesis by (simp add: Retry_result_def)
qed

text \<open>A measure of the world that only calls move, by one each.\<close>

definition counts_calls :: "('w \<Rightarrow> nat) \<Rightarrow> ('w, 'e) surroundings \<Rightarrow> bool" where
  "counts_calls c env \<longleftrightarrow> (\<forall>w. c (snd (call_fn env w)) = c w + 1) \<and> (\<forall>d w. c (snd (wait_for env d w)) = c w)"

lemma retry_loop_calls:
  assumes "counts_calls c env"
  shows "c (snd (snd (retry_loop n cfg env att delay lastErr cb w))) \<le> c w + n
    \<and> (fst (retry_loop n cfg env att delay lastErr cb w) = Inr ()
         \<longrightarrow> c w < c (snd (snd (retry_loop n cfg env att delay lastErr cb w))))"
proof (induction n arbitrary: att delay lastErr cb w)
  case (Suc n)
  obtain r w1 where call: "call_fn env w = (r, w1)" by (cases "call_fn env w")
  then have w1: "c w1 = c w + 1" using assms by (metis counts_calls_def snd_conv)
  obtain q w2 where wait: "wait_for env delay w1 = (q, w2)" by (cases "wait_for env delay w1")
  then have w2: "c w2 = c w + 1" using assms w1 by (metis counts_calls_def snd_conv)
  have IH: "c (snd (snd (retry_loop n cfg env a d e b v))) \<le> Suc (c w + n)"
    "fst (retry_loop n cfg env a d e b v) = Inr () \<Longrightarrow> c w < c (snd (snd (retry_loop n cfg env a d e b v)))"
    if "c v = Suc (c w)" for a d e b v
    using Suc [of a d e b v] that by simp_all
  show ?case
    using w1 w2 by (auto simp: Let_def call wait IH split: prod.split option.split)
qed simp

text \<open>
  C20: For every \<open>MaxRetries\<close> below the largest \<open>int\<close>, \<open>Retry\<close> returns if the calls and the waits do,
  whatever the function, the breaker and the context answer; it has then called the function at
  most \<open>MaxRetries + 1\<close> times (not at all for a negative one), and reports success only after having called it.
\<close>

theorem Retry_bounds_calls:
  assumes "counts_calls c env" and "MaxRetries cfg < 9223372036854775807"
  shows "\<exists>r cb' w'. Retry cfg env cb w = Some (r, cb', w')
    \<and> c w' \<le> c w + nat (MaxRetries cfg + 1) \<and> (r = Inr () \<longrightarrow> c w < c w')"
proof -
  obtain r cb' w' where r: "Retry_result cfg env cb w = (r, cb', w')" by (rule prod_cases3)
  then show ?thesis
    using retry_loop_calls [OF assms(1), of "nat (MaxRetries cfg + 1)" cfg 0 "BaseDelay cfg" None cb w]
      Retry_returns [OF assms(2), of env cb w]
    by (simp add: Retry_result_def)
qed

text \<open>A call that fails twice and then succeeds, on a world that is the number of calls.\<close>

definition third_time :: "(nat, string) surroundings" where
  "third_time = \<lparr>call_fn = (\<lambda>n. (if n < 2 then Some ''down'' else None, n + 1)),
     wait_for = (\<lambda>d n. (None, n)), clock = (\<lambda>n. 0)\<rparr>"

theorem Retry_bounds_calls_witness:
  "Retry DefaultRetryConfig third_time None 0 = Some (Inr (), None, 3) \<and> (3::nat) \<le> 0 + nat (MaxRetries DefaultRetryConfig + 1)"
proof -
  have c: "counts_calls id third_time" by (simp add: counts_calls_def third_time_def)
  have m: "MaxRetries DefaultRetryConfig < 9223372036854775807" by (simp add: DefaultRetryConfig_def)
  have "Retry_result DefaultRetryConfig third_time None 0 = (Inr (), None, 3)" by code_simp
  then have "Retry DefaultRetryConfig third_time None 0 = Some (Inr (), None, 3)"
    using Retry_returns [OF m, of third_time None 0] by simp
  then show ?thesis using Retry_bounds_calls [OF c m, of None 0] by simp
qed

lemma next_delay_le: "next_delay cfg d \<le> MaxDelay cfg"
  by (simp add: next_delay_def Let_def)

lemma retry_loop_cong:
  assumes "\<And>d v. d \<le> MaxDelay cfg \<Longrightarrow> wait_for env d v = wait_for env' d v"
    and "call_fn env = call_fn env'" and "clock env = clock env'" and "delay \<le> MaxDelay cfg"
  shows "retry_loop n cfg env att delay lastErr cb w = retry_loop n cfg env' att delay lastErr cb w"
  using assms(4)
proof (induction n arbitrary: att delay lastErr cb w)
  case (Suc n)
  then show ?case
    using assms(2,3) by (simp add: Let_def assms(1) next_delay_le split: prod.split option.split)
qed simp

text \<open>
  The back-off is capped: \<open>Retry\<close> never waits longer than \<open>MaxDelay\<close>, so that two
  surroundings whose waits agree up to it cannot be told apart.
\<close>

theorem Retry_waits_at_most_MaxDelay:
  assumes "\<And>d v. d \<le> MaxDelay cfg \<Longrightarrow> wait_for env d v = wait_for env' d v"
    and "call_fn env = call_fn env'" and "clock env = clock env'" and "BaseDelay cfg \<le> MaxDelay cfg"
  shows "Retry_result cfg env cb w = Retry_result cfg env' cb w"
  unfolding Retry_result_def using assms by (rule retry_loop_cong)

theorem Retry_waits_at_most_MaxDelay_witness:
  "Retry_result DefaultRetryConfig third_time None 0 =
   Retry_result DefaultRetryConfig (third_time\<lparr>wait_for := \<lambda>d n. (if 2000000000 < d then Some ''late'' else None, n)\<rparr>) None 0"
  by (rule Retry_waits_at_most_MaxDelay) (simp_all add: third_time_def DefaultRetryConfig_def)

section \<open>Token bucket\<close>

record TokenBucket =
  tokens :: f64
  maxTokens :: f64
  refillRate :: f64
  lastRefill :: int

definition NewTokenBucket :: "int \<Rightarrow> f64 \<Rightarrow> f64 \<Rightarrow> TokenBucket" where
  "NewTokenBucket t rate burst = \<lparr>tokens = burst, maxTokens = burst, refillRate = rate, lastRefill = t\<rparr>"

definition refill :: "int \<Rightarrow> TokenBucket \<Rightarrow> TokenBucket" where
  "refill t tb =
     (let x = tokens tb + seconds (time_sub t (lastRefill tb)) * refillRate tb
      in tb\<lparr>tokens := (if maxTokens tb < x then maxTokens tb else x), lastRefill := t\<rparr>)"

definition bucket_Allow :: "int \<Rightarrow> TokenBucket \<Rightarrow> bool \<times> TokenBucket" where
  "bucket_Allow t tb0 =
     (let tb = refill t tb0
      in if 1 \<le> tokens tb then (True, tb\<lparr>tokens := tokens tb - 1\<rparr>) else (False, tb))"

section \<open>Rate limiter\<close>

record RateLimiter =
  limiter :: "string \<Rightarrow> TokenBucket option"
  defaultR :: f64
  defaultB :: f64

definition NewRateLimiter :: "f64 \<Rightarrow> f64 \<Rightarrow> RateLimiter" where
  "NewRateLimiter defaultRate defaultBurst =
     \<lparr>limiter = (\<lambda>_. None), defaultR = defaultRate, defaultB = defaultBurst\<rparr>"

text \<open>
  The map is looked up under the limiter's mutex, the bucket used under its own; a bucket, once
  made, stays in the map, so that the two sections act like one.
\<close>

definition limiter_Allow :: "int \<Rightarrow> string \<Rightarrow> RateLimiter \<Rightarrow> bool \<times> RateLimiter" where
  "limiter_Allow t i rl =
     (let tb = (case limiter rl i of None \<Rightarrow> NewTokenBucket t (defaultR rl) (defaultB rl) | Some tb \<Rightarrow> tb)
      in case bucket_Allow t tb of (ok, tb') \<Rightarrow> (ok, rl\<lparr>limiter := (limiter rl)(i \<mapsto> tb')\<rparr>))"

fun run_limiter :: "(int \<times> string) list \<Rightarrow> RateLimiter \<Rightarrow> (string \<times> bool) list \<times> RateLimiter" where
  "run_limiter [] rl = ([], rl)"
| "run_limiter ((t, i) # reqs) rl =
     (case limiter_Allow t i rl of (ok, rl1) \<Rightarrow>
        (case run_limiter reqs rl1 of (oks, rl2) \<Rightarrow> ((i, ok) # oks, rl2)))"

fun run_bucket :: "nat \<Rightarrow> int \<Rightarrow> TokenBucket \<Rightarrow> bool list" where
  "run_bucket 0 t tb = []"
| "run_bucket (Suc k) t tb = (case bucket_Allow t tb of (ok, tb') \<Rightarrow> ok # run_bucket k t tb')"

lemma seconds_zero: "seconds 0 = Fin 0"
  by (simp add: seconds_def quot_def f64_of_int_def rnd64_def)

lemma refill_same_time:
  assumes "tokens tb = Fin (of_int n)" and "maxTokens tb = Fin (of_int b)" and "refillRate tb = Fin r"
    and "lastRefill tb = t" and "0 \<le> n" and "n \<le> b" and "b < 2 ^ 53"
  shows "refill t tb = tb"
proof -
  have "seconds (time_sub t t) * Fin r = Fin (of_int 0)"
    by (simp add: time_sub_def seconds_zero rnd64_def)
  moreover have "Fin (of_int n) + Fin (of_int 0) = Fin (of_int n :: rat)"
    using assms(5-7) by (subst plus_f64_int) simp_all
  ultimately have "tokens tb + seconds (time_sub t (lastRefill tb)) * refillRate tb = tokens tb"
    using assms(1,3,4) by simp
  then show ?thesis
    using assms(1,2,4,6) by (simp add: refill_def Let_def)
qed

lemma run_bucket_same_time:
  assumes "tokens tb = Fin (of_int n)" and "maxTokens tb = Fin (of_int b)" and "refillRate tb = Fin r"
    and "lastRefill tb = t" and "0 \<le> n" and "n \<le> b" and "b < 2 ^ 53"
  shows "run_bucket k t tb = map (\<lambda>j. int j < n) [0..<k]"
  using assms(1-6)
proof (induction k arbitrary: n tb)
  case (Suc k)
  note same = refill_same_time [OF Suc.prems assms(7)]
  have shift: "map (\<lambda>j. int j < n) [0..<Suc k] = (0 < n) # map (\<lambda>j. int j < n - 1) [0..<k]"
    by (simp add: upt_conv_Cons map_Suc_upt [symmetric] o_def del: upt_Suc) (auto simp: less_diff_eq)
  show ?case
  proof (cases "0 < n")
    case True
    have "Fin (of_int n) - 1 = Fin (of_int (n - 1) :: rat)"
      using plus_f64_int [of n "- 1"] Suc.prems(5,6) assms(7)
      by (simp add: minus_f64_def one_f64_def)
    moreover have "(1 :: f64) \<le> Fin (of_int n)"
      using True by (simp add: one_f64_def)
    ultimately have "bucket_Allow t tb = (True, tb\<lparr>tokens := Fin (of_int (n - 1))\<rparr>)"
      using Suc.prems(1) by (simp add: bucket_Allow_def same Let_def)
    moreover have "run_bucket k t (tb\<lparr>tokens := Fin (of_int (n - 1))\<rparr>) = map (\<lambda>j. int j < n - 1) [0..<k]"
      using Suc.prems True by (intro Suc.IH) simp_all
    ultimately show ?thesis unfolding shift using True by simp
  next
    case False
    then have n: "n = 0" using Suc.prems(5) by simp
    have "bucket_Allow t tb = (False, tb)"
      using Suc.prems(1) n by (simp add: bucket_Allow_def same Let_def one_f64_def)
    moreover have "run_bucket k t tb = map (\<lambda>j. int j < n) [0..<k]"
      using Suc.prems by (intro Suc.IH) simp_all
    ultimately show ?thesis unfolding shift using n by simp
  qed
qed simp

text \<open>
  Of any number of requests that reach a fresh bucket at one instant, exactly the first
  \<open>burst\<close> are let through.
\<close>

theorem bucket_burst:
  assumes "0 \<le> b" and "b < 2 ^ 53"
  shows "run_bucket k t (NewTokenBucket t (Fin r) (Fin (of_int b))) = map (\<lambda>j. int j < b) [0..<k]"
  using assms by (intro run_bucket_same_time) (simp_all add: NewTokenBucket_def)

theorem bucket_burst_witness:
  "run_bucket 4 7 (NewTokenBucket 7 (Fin 2) (Fin (of_int 2))) = [True, True, False, False]"
  using bucket_burst [of 2 4 7 2] by (simp add: upt_rec)

lemma limiter_other: "i \<noteq> j \<Longrightarrow> limiter (snd (limiter_Allow t i rl)) j = limiter rl j"
  by (simp add: limiter_Allow_def Let_def split: prod.split)

text \<open>Two limiters that agree on what they know of \<open>i\<close>.\<close>

definition agree_on :: "string \<Rightarrow> RateLimiter \<Rightarrow> RateLimiter \<Rightarrow> bool" where
  "agree_on i rl rl' \<longleftrightarrow> limiter rl i = limiter rl' i \<and> defaultR rl = defaultR rl' \<and> defaultB rl = defaultB rl'"

lemma agree_Allow:
  "agree_on i rl rl' \<Longrightarrow> fst (limiter_Allow t i rl) = fst (limiter_Allow t i rl')
     \<and> agree_on i (snd (limiter_Allow t i rl)) (snd (limiter_Allow t i rl'))"
  by (simp add: agree_on_def limiter_Allow_def Let_def case_prod_beta cong: option.case_cong)

lemma agree_other: "agree_on i rl rl' \<Longrightarrow> i \<noteq> j \<Longrightarrow> agree_on i (snd (limiter_Allow t j rl)) rl'"
  by (simp add: agree_on_def limiter_Allow_def Let_def case_prod_beta cong: option.case_cong)

lemma run_limiter_agree:
  "agree_on i rl rl' \<Longrightarrow>
   filter (\<lambda>x. fst x = i) (fst (run_limiter reqs rl)) = fst (run_limiter (filter (\<lambda>x. snd x = i) reqs) rl')"
proof (induction reqs arbitrary: rl rl')
  case (Cons req reqs)
  obtain t j where req: "req = (t, j)" by (cases req)
  show ?case
  proof (cases "j = i")
    case True
    with agree_Allow [OF Cons.prems, of t] Cons.IH show ?thesis
      by (simp add: req case_prod_beta)
  next
    case False
    with agree_other [OF Cons.prems, of j t] Cons.IH show ?thesis
      by (simp add: req case_prod_beta)
  qed
qed simp

text \<open>
  C23: callers do not use up each other's tokens: what the limiter answers to one identity in any
  interleaving of requests is what it would answer had only that identity called.
\<close>

theorem limiter_isolates_identities:
  "filter (\<lambda>x. fst x = i) (fst (run_limiter reqs rl)) = fst (run_limiter (filter (\<lambda>x. snd x = i) reqs) rl)"
  by (rule run_limiter_agree) (simp add: agree_on_def)

end
