(* ===== verification/Access.thy ===== *)
theory Access
  imports Accounts Messages Resilience
begin

text \<open>
  Who may call what: \<open>server/middleware.go\<close> and \<open>server/gRPCInterceptor.go\<close>, the interceptor in
  front of every unary method, and \<open>server/gRPCAuth.go\<close>, which issues and checks the tokens. The
  JWT library is not under \<open>src/\<close>: parsing, signing and its rounding of dates are parameters, as
  bcrypt is.
\<close>

section \<open>Tokens\<close>

record Claims =
  UserID :: int
  cl_Username :: string
  UserType :: string
  Role :: string
  ExpiresAt :: int
  IssuedAt :: int
  Issuer :: string

text \<open>How a token says it is signed: an HMAC method, or any other, with the name of \<open>alg\<close>.\<close>

datatype signing_method = SigningMethodHMAC string | OtherMethod string

text \<open>
  \<open>ParseWithClaims\<close> gets the token, the function that chooses the key and the time; \<open>None\<close> is an
  error, otherwise it fills the claims and says whether the token is valid.
\<close>

record jwt =
  ParseWithClaims :: "string \<Rightarrow> (signing_method \<Rightarrow> string option) \<Rightarrow> int \<Rightarrow> (Claims \<times> bool) option"
  SignedString :: "signing_method \<Rightarrow> Claims \<Rightarrow> string \<Rightarrow> string option"
  NewNumericDate :: "int \<Rightarrow> int"

text \<open>What the server is configured with: the libraries and the secret of \<open>JWT_SECRET\<close>.\<close>

record auth_env =
  jwt_lib :: jwt
  bcrypt_lib :: bcrypt
  jwtSecret :: string

text \<open>The key function of every parse: HMAC tokens are checked against the secret.\<close>

definition hmac_key :: "auth_env \<Rightarrow> signing_method \<Rightarrow> string option" where
  "hmac_key E m = (case m of SigningMethodHMAC a \<Rightarrow> Some (jwtSecret E) | OtherMethod a \<Rightarrow> None)"

text \<open>The claims of a token that is valid at the time.\<close>

definition valid_claims :: "auth_env \<Rightarrow> string \<Rightarrow> int \<Rightarrow> Claims option" where
  "valid_claims E tokenString t =
     (case ParseWithClaims (jwt_lib E) tokenString (hmac_key E) t of
        None \<Rightarrow> None
      | Some (claims, valid) \<Rightarrow> if valid then Some claims else None)"

section \<open>Request contexts\<close>

text \<open>
  A context: the incoming metadata (\<open>md.Get\<close> gives the values of a key, none when it is absent),
  the peer's address, and the two values that the interceptor puts in.
\<close>

record gctx =
  metadata :: "(string \<Rightarrow> string list) option"
  peer_addr :: "string option"
  role_claims :: "Claims option"
  customer_value :: "string option"

definition has_prefix :: "string \<Rightarrow> string \<Rightarrow> bool" where
  "has_prefix p s \<longleftrightarrow> take (length p) s = p"

definition TrimPrefix :: "string \<Rightarrow> string \<Rightarrow> string" where
  "TrimPrefix p s = (if has_prefix p s then drop (length p) s else s)"

definition requireAdminToken :: "auth_env \<Rightarrow> gctx \<Rightarrow> int \<Rightarrow> code + Claims" where
  "requireAdminToken E ctx t =
     (case metadata ctx of
        None \<Rightarrow> Inl Unauthenticated
      | Some md \<Rightarrow>
          (case md ''authorization'' of
             [] \<Rightarrow> Inl Unauthenticated
           | v # vs \<Rightarrow>
               (case valid_claims E (TrimPrefix ''Bearer '' v) t of
                  None \<Rightarrow> Inl Unauthenticated
                | Some claims \<Rightarrow>
                    if UserType claims \<noteq> ''admin'' then Inl PermissionDenied else Inr claims)))"

section \<open>Roles\<close>

definition RoleCustomer :: string where "RoleCustomer = ''customer''"

definition RoleAdmin :: string where "RoleAdmin = ''admin''"

definition methodRoles :: "(string \<times> string) list" where
  "methodRoles =
     [(''/bread.AdminService/GetDashboardStats'', RoleAdmin),
      (''/bread.AdminService/GetAllCustomers'', RoleAdmin),
      (''/bread.AdminService/GetAllBreadMakers'', RoleAdmin),
      (''/bread.AdminService/GetAllBread'', RoleAdmin),
      (''/bread.AdminService/GetBreadById'', RoleAdmin),
      (''/bread.AdminService/CreateBread'', RoleAdmin),
      (''/bread.AdminService/UpdateBread'', RoleAdmin),
      (''/bread.AdminService/DeleteBread'', RoleAdmin),
      (''/bread.AdminService/GetLowStockAlerts'', RoleAdmin),
      (''/bread.AdminService/UpdateOrderStatus'', RoleAdmin),
      (''/bread.AdminService/GetCustomerOrders'', RoleAdmin),
      (''/bread.AdminService/GetMakerOrders'', RoleAdmin),
      (''/bread.AdminService/GetAllOrders'', RoleAdmin),
      (''/bread.AdminService/GetAllMakeOrders'', RoleAdmin),
      (''/bread.BrokerService/ReportOrder'', []),
      (''/bread.BrokerService/ReserveInventory'', []),
      (''/bread.BrokerService/ReportMatchingResults'', []),
      (''/bread.BuyBread/BuyBread'', []),
      (''/bread.BuyBread/BuyBreadStream'', []),
      (''/bread.BuyOrderService/BuyOrder'', RoleCustomer),
      (''/bread.BuyOrderService/BuyOrderStream'', RoleCustomer),
      (''/bread.CustomerPortalService/GetMyOrders'', RoleCustomer),
      (''/bread.CustomerPortalService/GetMyInvoices'', RoleCustomer),
      (''/bread.CustomerPortalService/GetOrderDetails'', RoleCustomer),
      (''/bread.CheckInventory/CheckBreadInventory'', []),
      (''/bread.CheckInventory/CheckBreadInventoryStream'', []),
      (''/bread.MakeBread/BakeBread'', []),
      (''/bread.MakeBread/SendBreadToBakery'', []),
      (''/bread.RemoveOldBread/RemoveBread'', []),
      (''/bread.RemoveOldBread/RemoveBreadStream'', []),
      (''/bread.AuthService/AdminLogin'', []),
      (''/bread.AuthService/CustomerLogin'', []),
      (''/bread.AuthService/ValidateToken'', []),
      (''/bread.InvoiceService/GetInvoice'', []),
      (''/bread.InvoiceService/GetCustomerInvoices'', RoleCustomer),
      (''/bread.InvoiceService/GetAllInvoices'', RoleAdmin),
      (''/bread.InvoiceService/CreateInvoice'', RoleAdmin)]"

definition getMethodRole :: "string \<Rightarrow> string" where
  "getMethodRole fullMethod =
     (case map_of methodRoles fullMethod of Some r \<Rightarrow> r | None \<Rightarrow> RoleCustomer)"

text \<open>Here the prefix is only cut off a value that is longer than it.\<close>

definition strip_bearer :: "string \<Rightarrow> string" where
  "strip_bearer tokenString =
     (if 7 < length tokenString \<and> take 7 tokenString = ''Bearer '' then drop 7 tokenString
      else tokenString)"

definition rbacCheck :: "auth_env \<Rightarrow> gctx \<Rightarrow> string \<Rightarrow> int \<Rightarrow> code + gctx" where
  "rbacCheck E ctx fullMethod t =
     (let requiredRole = getMethodRole fullMethod
      in if requiredRole = [] then Inr ctx
         else (case metadata ctx of
             None \<Rightarrow> Inl Unauthenticated
           | Some md \<Rightarrow>
               (case md ''authorization'' of
                  [] \<Rightarrow> Inl Unauthenticated
                | v # vs \<Rightarrow>
                    (case valid_claims E (strip_bearer v) t of
                       None \<Rightarrow> Inl Unauthenticated
                     | Some claims \<Rightarrow>
                         if UserType claims \<noteq> requiredRole \<and> UserType claims \<noteq> ''admin''
                         then Inl PermissionDenied
                         else Inr (ctx\<lparr>role_claims := Some claims\<rparr>)))))"

section \<open>Identities\<close>

definition identityFromMetadata :: "(string \<Rightarrow> string list) \<Rightarrow> string" where
  "identityFromMetadata md =
     (case md ''customer_id'' of
        (i # is) \<Rightarrow> if i \<noteq> [] then ''cid:'' @ i
          else (case md ''x-forwarded-for'' of ip # ips \<Rightarrow> ''ip:'' @ ip | [] \<Rightarrow> ''ip:unknown'')
      | [] \<Rightarrow> (case md ''x-forwarded-for'' of ip # ips \<Rightarrow> ''ip:'' @ ip | [] \<Rightarrow> ''ip:unknown''))"

definition identityFromContext :: "gctx \<Rightarrow> string" where
  "identityFromContext ctx =
     (let i = identityFromMetadata (case metadata ctx of Some md \<Rightarrow> md | None \<Rightarrow> (\<lambda>k. []))
      in if i \<noteq> ''ip:unknown'' then i
         else (case peer_addr ctx of Some a \<Rightarrow> ''peer:'' @ a | None \<Rightarrow> ''ip:unknown''))"

definition is_digit :: "char \<Rightarrow> bool" where
  "is_digit c \<longleftrightarrow> 48 \<le> (of_char c :: nat) \<and> of_char c \<le> (57 :: nat)"

definition injectCustomerID :: "gctx \<Rightarrow> gctx" where
  "injectCustomerID ctx =
     (case metadata ctx of
        None \<Rightarrow> ctx
      | Some md \<Rightarrow>
          (case md ''customer_id'' of
             [] \<Rightarrow> ctx
           | i # is \<Rightarrow> if i \<noteq> [] \<and> list_all is_digit i then ctx\<lparr>customer_value := Some i\<rparr> else ctx))"

text \<open>
  The interceptor of its own that \<open>injectCustomerID\<close> replaces in the chain; it is no longer installed.
\<close>

definition customerIDInterceptor :: "gctx \<Rightarrow> (gctx \<Rightarrow> 'r) \<Rightarrow> 'r" where
  "customerIDInterceptor ctx handler = handler
     (case metadata ctx of
        None \<Rightarrow> ctx
      | Some md \<Rightarrow>
          (case md ''customer_id'' of
             [] \<Rightarrow> ctx
           | customerID # ids \<Rightarrow>
               (let valid = (customerID \<noteq> [] \<and> list_all is_digit customerID)
                in if valid then ctx\<lparr>customer_value := Some customerID\<rparr> else ctx)))"

lemma customerIDInterceptor_replaced: "customerIDInterceptor ctx handler = handler (injectCustomerID ctx)"
  by (simp add: customerIDInterceptor_def injectCustomerID_def Let_def split: option.split list.split)

text \<open>
  The breakers the server has for calls that it does not make, and what \<open>LogCircuitStates\<close> logs of them
  at a tick: nothing, since nobody reports a failure to them.
\<close>

definition brokerBreakers :: "(string \<times> CircuitBreaker) list" where
  "brokerBreakers =
     [(''report_order'', NewCircuitBreaker \<lparr>FailureThreshold = 5, ResetTimeout = 30 * 1000000000\<rparr>),
      (''reserve_inventory'', NewCircuitBreaker \<lparr>FailureThreshold = 5, ResetTimeout = 30 * 1000000000\<rparr>),
      (''report_matching'', NewCircuitBreaker \<lparr>FailureThreshold = 3, ResetTimeout = 60 * 1000000000\<rparr>)]"

definition LogCircuitStates :: "(string \<times> CircuitBreaker) list \<Rightarrow> (string \<times> State) list" where
  "LogCircuitStates breakers = map (\<lambda>(name, cb). (name, cb_state cb)) (filter (\<lambda>(name, cb). cb_state cb \<noteq> StateClosed) breakers)"

lemma server_logs_no_breaker: "LogCircuitStates brokerBreakers = []"
  by (simp add: LogCircuitStates_def brokerBreakers_def NewCircuitBreaker_def)

text \<open>
  \<open>fmt.Sscanf(v, "%d", &id)\<close> on a string of digits, the only ones a context carries: the number,
  or an error when it is beyond 64 bits.
\<close>

definition digit :: "char \<Rightarrow> int" where
  "digit c = int (of_char c) - 48"

definition parse_digits :: "string \<Rightarrow> int" where
  "parse_digits s = foldl (\<lambda>n c. 10 * n + digit c) 0 s"

definition Sscanf_d :: "string \<Rightarrow> int option" where
  "Sscanf_d v = (let ds = takeWhile is_digit v
     in if ds \<noteq> [] \<and> is_int64 (parse_digits ds) then Some (parse_digits ds) else None)"

definition GetCustomerIDFromContext :: "gctx \<Rightarrow> int" where
  "GetCustomerIDFromContext ctx =
     (case customer_value ctx of
        Some v \<Rightarrow> (case Sscanf_d v of Some i \<Rightarrow> i | None \<Rightarrow> 0)
      | None \<Rightarrow> 0)"

section \<open>The interceptor\<close>

text \<open>
  The state behind the server: the rate limiter and the database. \<open>RATE_LIMIT\<close> and
  \<open>RATE_LIMIT_BURST\<close>, as read from the environment, replace the defaults when they are positive.
\<close>

record server =
  globalRateLimiter :: RateLimiter
  sdb :: db

definition initRateLimiter :: "f64 option \<Rightarrow> f64 option \<Rightarrow> RateLimiter" where
  "initRateLimiter rate_env burst_env =
     NewRateLimiter
       (case rate_env of Some r \<Rightarrow> if 0 < r then r else Fin 100 | None \<Rightarrow> Fin 100)
       (case burst_env of Some b \<Rightarrow> if 0 < b then b else Fin 500 | None \<Rightarrow> Fin 500)"

definition admit :: "string \<Rightarrow> server \<Rightarrow> bool \<times> server" where
  "admit i s = (case limiter_Allow (now (sdb s)) i (globalRateLimiter s) of
     (ok, rl) \<Rightarrow> (ok, s\<lparr>globalRateLimiter := rl\<rparr>))"

definition on_db :: "(db, code, 'a) proc \<Rightarrow> (server, code, 'a) proc" where
  "on_db f s = (case f (sdb s) of (r, d) \<Rightarrow> (r, s\<lparr>sdb := d\<rparr>))"

definition BuildInterceptorChain ::
  "auth_env \<Rightarrow> string \<Rightarrow> gctx \<Rightarrow> (gctx \<Rightarrow> (db, code, 'a) proc) \<Rightarrow> (server, code, 'a) proc" where
  "BuildInterceptorChain E fullMethod ctx handler s =
     (case (if getMethodRole fullMethod \<noteq> [] then admit (identityFromContext ctx) s else (True, s)) of
        (False, s1) \<Rightarrow> (Inl ResourceExhausted, s1)
      | (True, s1) \<Rightarrow>
          (case rbacCheck E ctx fullMethod (now (sdb s1)) of
             Inl err \<Rightarrow> (Inl err, s1)
           | Inr ctx1 \<Rightarrow> on_db (handler (injectCustomerID ctx1)) s1))"

section \<open>AuthService\<close>

record pbAdminUser =
  au_Id :: int
  au_Username :: string
  au_Email :: string
  au_Role :: string
  au_CreatedAt :: int

record pbCustomer =
  pc_Id :: int
  pc_Name :: string
  pc_Email :: string
  pc_CreatedAt :: int
  pc_UpdatedAt :: int

text \<open>The response of both logins; a refusal carries nothing but its message.\<close>

record 'u LoginResponse =
  Success :: bool
  Token :: string
  lr_Message :: string
  User :: "'u option"

definition refused :: "string \<Rightarrow> 'u LoginResponse" where
  "refused m = \<lparr>Success = False, Token = [], lr_Message = m, User = None\<rparr>"

text \<open>24 hours, in nanoseconds; both logins sign their claims alike.\<close>

definition day :: int where "day = 86400000000000"

definition login_claims :: "auth_env \<Rightarrow> int \<Rightarrow> string \<Rightarrow> string \<Rightarrow> string \<Rightarrow> int \<Rightarrow> Claims" where
  "login_claims E i name kind role t =
     \<lparr>UserID = i, cl_Username = name, UserType = kind, Role = role,
      ExpiresAt = NewNumericDate (jwt_lib E) (t + day),
      IssuedAt = NewNumericDate (jwt_lib E) t, Issuer = ''bakery-go''\<rparr>"

definition sign :: "auth_env \<Rightarrow> Claims \<Rightarrow> string option" where
  "sign E claims = SignedString (jwt_lib E) (SigningMethodHMAC ''HS256'') claims (jwtSecret E)"

definition AdminLogin :: "auth_env \<Rightarrow> string \<Rightarrow> string \<Rightarrow> (db, code, pbAdminUser LoginResponse) proc" where
  "AdminLogin E username password =
     attempt (GetAdminUserByUsername username)
       (\<lambda>err. ret (refused ''Invalid username or password''))
       (\<lambda>user. if CompareHashAndPassword (bcrypt_lib E) (a_Password user) password \<noteq> Matches
          then ret (refused ''Invalid username or password'')
          else seq (query now) (\<lambda>t.
            case sign E (login_claims E (a_ID user) (a_Username user) ''admin'' (a_Role user) t) of
              None \<Rightarrow> fail Internal
            | Some tokenString \<Rightarrow> ret
                \<lparr>Success = True, Token = tokenString, lr_Message = ''Login successful'',
                 User = Some \<lparr>au_Id = int32 (a_ID user), au_Username = a_Username user,
                   au_Email = a_Email user, au_Role = a_Role user, au_CreatedAt = a_CreatedAt user\<rparr>\<rparr>))"

definition CustomerLogin :: "auth_env \<Rightarrow> string \<Rightarrow> string \<Rightarrow> (db, code, pbCustomer LoginResponse) proc" where
  "CustomerLogin E email password =
     attempt (GetCustomerByEmail email)
       (\<lambda>err. ret (refused ''Invalid email or password''))
       (\<lambda>customer. if CompareHashAndPassword (bcrypt_lib E) (c_Password customer) password \<noteq> Matches
          then ret (refused ''Invalid email or password'')
          else seq (query now) (\<lambda>t.
            case sign E (login_claims E (c_ID customer) (c_Email customer) ''customer'' [] t) of
              None \<Rightarrow> fail Internal
            | Some tokenString \<Rightarrow> ret
                \<lparr>Success = True, Token = tokenString, lr_Message = ''Login successful'',
                 User = Some \<lparr>pc_Id = int32 (c_ID customer), pc_Name = c_Name customer,
                   pc_Email = c_Email customer, pc_CreatedAt = c_CreatedAt customer,
                   pc_UpdatedAt = c_UpdatedAt customer\<rparr>\<rparr>))"

text \<open>\<open>strconv.Itoa\<close>.\<close>

definition digit_char :: "int \<Rightarrow> char" where
  "digit_char n = ''0123456789'' ! nat n"

function Itoa_pos :: "int \<Rightarrow> string" where
  "Itoa_pos n = (if n < 10 then [digit_char n] else Itoa_pos (n div 10) @ [digit_char (n mod 10)])"
  by pat_completeness auto
termination
  by (relation "measure nat") auto

declare Itoa_pos.simps [simp del]

definition Itoa :: "int \<Rightarrow> string" where
  "Itoa n = (if n < 0 then CHR ''-'' # Itoa_pos (- n) else Itoa_pos n)"

record ValidateTokenResponse =
  Valid :: bool
  UserId :: string
  vt_UserType :: string

definition ValidateToken :: "auth_env \<Rightarrow> string \<Rightarrow> int \<Rightarrow> ValidateTokenResponse" where
  "ValidateToken E token t =
     (case valid_claims E token t of
        None \<Rightarrow> \<lparr>Valid = False, UserId = [], vt_UserType = []\<rparr>
      | Some claims \<Rightarrow> \<lparr>Valid = True, UserId = Itoa (UserID claims), vt_UserType = UserType claims\<rparr>)"

definition CreateAdminUser ::
  "auth_env \<Rightarrow> gctx \<Rightarrow> string \<Rightarrow> string \<Rightarrow> string \<Rightarrow> string \<Rightarrow> (db, code, pbAdminUser) proc" where
  "CreateAdminUser E ctx username email password role =
     seq (query now) (\<lambda>t.
       case requireAdminToken E ctx t of
         Inl err \<Rightarrow> fail err
       | Inr callerClaims \<Rightarrow>
           attempt (InsertAdminUser (bcrypt_lib E)
               \<lparr>a_ID = 0, a_Username = username, a_Email = email, a_Password = password,
                a_Role = role, a_CreatedAt = zero_time, a_UpdatedAt = zero_time\<rparr>)
             (\<lambda>e. fail Internal)
             (\<lambda>newID. seq (query now) (\<lambda>u. ret
               \<lparr>au_Id = int32 newID, au_Username = username, au_Email = email, au_Role = role,
                au_CreatedAt = u\<rparr>)))"

section \<open>The guard\<close>

text \<open>The claims a request presents in its authorization header, when they are valid.\<close>

definition presented :: "auth_env \<Rightarrow> gctx \<Rightarrow> int \<Rightarrow> Claims option" where
  "presented E ctx t =
     (case metadata ctx of
        None \<Rightarrow> None
      | Some md \<Rightarrow> (case md ''authorization'' of [] \<Rightarrow> None | v # vs \<Rightarrow> valid_claims E (strip_bearer v) t))"

lemma rbacCheck_presented:
  assumes "getMethodRole m \<noteq> []"
  shows "rbacCheck E ctx m t =
    (case presented E ctx t of
       None \<Rightarrow> Inl Unauthenticated
     | Some c \<Rightarrow> if UserType c = getMethodRole m \<or> UserType c = ''admin''
         then Inr (ctx\<lparr>role_claims := Some c\<rparr>) else Inl PermissionDenied)"
  using assms by (auto simp: rbacCheck_def presented_def split: option.split list.split)

lemma sdb_admit [simp]: "sdb (snd (admit i s)) = sdb s"
  by (simp add: admit_def split: prod.split)

text \<open>
  C5: No unary method with a role runs for a caller without it: of a call that goes through the
  interceptor chain, either the request presents a valid token of the role, or of an
  administrator, and the method runs with the claims of that token, or it is refused with one of
  three codes and the database is untouched, whatever the method does. (Streaming methods do not
  go through this chain: the server installs it for unary calls only, and no role of a streaming
  method is ever checked.)
\<close>

theorem interceptor_guards:
  assumes "getMethodRole m \<noteq> []"
  shows "(\<exists>c s1. presented E ctx (now (sdb s)) = Some c
      \<and> (UserType c = getMethodRole m \<or> UserType c = ''admin'') \<and> sdb s1 = sdb s
      \<and> BuildInterceptorChain E m ctx h s = on_db (h (injectCustomerID (ctx\<lparr>role_claims := Some c\<rparr>))) s1)
    \<or> (\<exists>e s1. BuildInterceptorChain E m ctx h s = (Inl e, s1) \<and> sdb s1 = sdb s
      \<and> e \<in> {ResourceExhausted, Unauthenticated, PermissionDenied})"
proof -
  obtain ok s1 where a: "admit (identityFromContext ctx) s = (ok, s1)" by fastforce
  have s1: "sdb s1 = sdb s" using sdb_admit [of "identityFromContext ctx" s] a by simp
  show ?thesis
    using assms s1
    by (cases ok; cases "presented E ctx (now (sdb s))")
      (auto simp: BuildInterceptorChain_def a rbacCheck_presented)
qed

section \<open>Logins\<close>

text \<open>
  What the JWT library documents: a token signed with a key is valid for whoever parses it with
  that key before it expires; it is not empty; and dates are cut to whole seconds.
\<close>

definition jwt_ok :: "jwt \<Rightarrow> bool" where
  "jwt_ok J \<longleftrightarrow>
     (\<forall>m c k tok. SignedString J m c k = Some tok \<longrightarrow> tok \<noteq> []
        \<and> (\<forall>kf t. kf m = Some k \<longrightarrow> t < ExpiresAt c \<longrightarrow> ParseWithClaims J tok kf t = Some (c, True)))
     \<and> (\<forall>t. t - 1000000000 < NewNumericDate J t \<and> NewNumericDate J t \<le> t)"

lemma signed_valid:
  assumes "jwt_ok (jwt_lib E)" and "sign E c = Some tok" and "t < ExpiresAt c"
  shows "valid_claims E tok t = Some c" and "tok \<noteq> []"
  using assms unfolding jwt_ok_def sign_def valid_claims_def
  by (auto simp: hmac_key_def)

lemma strip_bearer_token: "tok \<noteq> [] \<Longrightarrow> strip_bearer (''Bearer '' @ tok) = tok"
  by (simp add: strip_bearer_def)

lemma GetCustomerByEmail_row:
  assumes "GetCustomerByEmail email s = (Inr c, t)"
  shows "\<exists>r \<in> set (customer_t s). cu_email r = email \<and> c_ID c = cu_id r
    \<and> c_Email c = email \<and> c_Password c = cu_password r"
proof -
  obtain r u where r: "query_row (\<lambda>s. filter (\<lambda>r. cu_email r = email) (customer_t s)) s = (Inr r, u)"
      "c = (scan_customer r)\<lparr>c_Password := cu_password r\<rparr>"
    using seq_Inr [OF assms [unfolded GetCustomerByEmail_def]] by auto
  obtain rs where "filter (\<lambda>r. cu_email r = email) (customer_t s) = r # rs"
    using query_row_Inr [OF r(1)] by auto
  then have "r \<in> set (filter (\<lambda>r. cu_email r = email) (customer_t s))" by simp
  then show ?thesis using r(2) by (auto simp: scan_customer_def)
qed

lemma CustomerLogin_success:
  assumes "CustomerLogin E email password s = (Inr r, u)" and "Success r"
  shows "\<exists>row \<in> set (customer_t s). cu_email row = email
    \<and> CompareHashAndPassword (bcrypt_lib E) (cu_password row) password = Matches
    \<and> sign E (login_claims E (cu_id row) email ''customer'' [] (now u)) = Some (Token r)"
  using assms(1) unfolding CustomerLogin_def
proof (cases rule: attempt_cases)
  case (1 e t)
  then show ?thesis using assms(2) by (auto simp: refused_def)
next
  case (2 c t)
  then have "CompareHashAndPassword (bcrypt_lib E) (c_Password c) password = Matches
      \<and> sign E (login_claims E (c_ID c) (c_Email c) ''customer'' [] (now u)) = Some (Token r)"
    using assms(2) by (auto simp: refused_def seq_apply split: if_splits option.splits)
  with GetCustomerByEmail_row [OF 2(1)] show ?thesis by auto
qed

text \<open>
  A successful login of a customer needs the password whose hash is stored for the e-mail
  address, and its token is that customer's for the rest of the day (less the second that dates are
  cut to): \<open>ValidateToken\<close> gives back the customer's id, the customers' methods accept it, and
  every administrators' method refuses it.
\<close>

theorem CustomerLogin_grants_access:
  assumes "jwt_ok (jwt_lib E)" and "CustomerLogin E email password s = (Inr r, u)" and "Success r"
    and "t < now u + day - 1000000000"
    and "metadata ctx = Some md" and "md ''authorization'' = [''Bearer '' @ Token r]"
  shows "\<exists>row \<in> set (customer_t s). cu_email row = email
    \<and> CompareHashAndPassword (bcrypt_lib E) (cu_password row) password = Matches
    \<and> ValidateToken E (Token r) t
        = \<lparr>Valid = True, UserId = Itoa (cu_id row), vt_UserType = ''customer''\<rparr>
    \<and> (\<forall>m. getMethodRole m = RoleCustomer \<longrightarrow> (\<exists>c. rbacCheck E ctx m t = Inr (ctx\<lparr>role_claims := Some c\<rparr>)
          \<and> UserID c = cu_id row))
    \<and> (\<forall>m. getMethodRole m = RoleAdmin \<longrightarrow> rbacCheck E ctx m t = Inl PermissionDenied)"
proof -
  obtain row where row: "row \<in> set (customer_t s)" "cu_email row = email"
      "CompareHashAndPassword (bcrypt_lib E) (cu_password row) password = Matches"
      "sign E (login_claims E (cu_id row) email ''customer'' [] (now u)) = Some (Token r)"
    using CustomerLogin_success [OF assms(2,3)] by blast
  let ?c = "login_claims E (cu_id row) email ''customer'' [] (now u)"
  have "now u + day - 1000000000 < ExpiresAt ?c"
    using assms(1) by (simp add: jwt_ok_def login_claims_def)
  then have v: "valid_claims E (Token r) t = Some ?c" "Token r \<noteq> []"
    using signed_valid [OF assms(1) row(4), of t] assms(4) by simp_all
  then have "presented E ctx t = Some ?c"
    using strip_bearer_token [OF v(2)] by (simp add: presented_def assms(5,6))
  then show ?thesis
    using row(1-3) v(1)
    by (intro bexI [of _ row])
      (auto simp: ValidateToken_def login_claims_def rbacCheck_presented RoleCustomer_def RoleAdmin_def)
qed

text \<open>
  A deployment for the witnesses: \<open>test_jwt\<close> signs the claims it knows, and a token is the name it
  gave them.
\<close>

definition bob_claims :: Claims where
  "bob_claims = \<lparr>UserID = 1, cl_Username = ''bob@b.c'', UserType = ''customer'', Role = [],
     ExpiresAt = day, IssuedAt = 0, Issuer = ''bakery-go''\<rparr>"

definition root_claims :: Claims where
  "root_claims = \<lparr>UserID = 1, cl_Username = ''root'', UserType = ''admin'', Role = ''super'',
     ExpiresAt = day, IssuedAt = 0, Issuer = ''bakery-go''\<rparr>"

definition whole_seconds :: "int \<Rightarrow> int" where
  "whole_seconds t = t - t mod 1000000000"

definition test_jwt :: jwt where
  "test_jwt =
     \<lparr>ParseWithClaims = (\<lambda>tok kf t.
        let c = (if tok = ''bob'' then Some bob_claims else if tok = ''root'' then Some root_claims else None)
        in case c of None \<Rightarrow> None
           | Some c \<Rightarrow> if kf (SigningMethodHMAC ''HS256'') = Some ''key'' \<and> t < ExpiresAt c then Some (c, True) else None),
      SignedString = (\<lambda>m c k.
        if m = SigningMethodHMAC ''HS256'' \<and> k = ''key''
        then (if c = bob_claims then Some ''bob'' else if c = root_claims then Some ''root'' else None)
        else None),
      NewNumericDate = whole_seconds\<rparr>"

definition test_env :: auth_env where
  "test_env = \<lparr>jwt_lib = test_jwt, bcrypt_lib = plain_bcrypt, jwtSecret = ''key''\<rparr>"

definition headers :: "(string \<times> string) list \<Rightarrow> gctx" where
  "headers hs = \<lparr>metadata = Some (\<lambda>k. case map_of hs k of Some v \<Rightarrow> [v] | None \<Rightarrow> []),
     peer_addr = None, role_claims = None, customer_value = None\<rparr>"

definition accounts_db :: db where
  "accounts_db = snd (InsertAdminUser plain_bcrypt
       \<lparr>a_ID = 0, a_Username = ''root'', a_Email = ''root@b.c'', a_Password = ''toor'', a_Role = ''super'',
        a_CreatedAt = 0, a_UpdatedAt = 0\<rparr>
     (snd (InsertCustomer plain_bcrypt (zero_Customer\<lparr>c_Name := ''bob'', c_Email := ''bob@b.c'', c_Password := ''pw''\<rparr>)
        empty_db)))"

definition test_server :: server where
  "test_server = \<lparr>globalRateLimiter = initRateLimiter None None, sdb = accounts_db\<rparr>"

lemma test_jwt_ok: "jwt_ok test_jwt"
proof -
  have "whole_seconds t \<le> t \<and> t - 1000000000 < whole_seconds t" for t
  proof -
    have "0 \<le> t mod 1000000000" "t mod 1000000000 < 1000000000" by simp_all
    then show ?thesis by (simp add: whole_seconds_def)
  qed
  then show ?thesis
    by (auto simp: jwt_ok_def test_jwt_def Let_def bob_claims_def root_claims_def split: if_splits)
qed

theorem interceptor_guards_witness:
  "fst (BuildInterceptorChain test_env ''/bread.AdminService/DeleteBread''
      (headers [(''authorization'', ''Bearer bob'')]) (\<lambda>ctx. ret ()) test_server) = Inl PermissionDenied"
proof -
  let ?m = "''/bread.AdminService/DeleteBread''" and ?c = "headers [(''authorization'', ''Bearer bob'')]"
  have "getMethodRole ?m \<noteq> []" by code_simp
  moreover have "map_option UserType (presented test_env ?c (now (sdb test_server))) = Some ''customer''"
      "getMethodRole ?m = ''admin''" by code_simp+
  ultimately have "\<exists>e s1. BuildInterceptorChain test_env ?m ?c (\<lambda>ctx. ret ()) test_server = (Inl e, s1)"
    using interceptor_guards [of ?m test_env ?c test_server "\<lambda>ctx. ret ()"] by auto
  moreover have "fst (BuildInterceptorChain test_env ?m ?c (\<lambda>ctx. ret ()) test_server) \<noteq> Inl Unauthenticated"
      "fst (BuildInterceptorChain test_env ?m ?c (\<lambda>ctx. ret ()) test_server) = Inl PermissionDenied"
    by code_simp+
  ultimately show ?thesis by simp
qed

theorem CustomerLogin_grants_access_witness:
  "ValidateToken test_env ''bob'' 5 = \<lparr>Valid = True, UserId = ''1'', vt_UserType = ''customer''\<rparr>
    \<and> rbacCheck test_env (headers [(''authorization'', ''Bearer bob'')]) ''/bread.AdminService/CreateBread'' 5
        = Inl PermissionDenied"
proof -
  let ?p = "CustomerLogin test_env ''bob@b.c'' ''pw'' accounts_db" and ?x = "headers [(''authorization'', ''Bearer bob'')]"
  let ?md = "\<lambda>k. case map_of [(''authorization'', ''Bearer bob'')] k of Some v \<Rightarrow> [v] | None \<Rightarrow> []"
  have res: "map_sum id Token (fst ?p) = Inr ''bob''" "map_sum id Success (fst ?p) = Inr True" by code_simp+
  then obtain r where r: "fst ?p = Inr r" by (cases "fst ?p") simp_all
  then have tok: "Token r = ''bob''" "Success r" using res by simp_all
  have p: "?p = (Inr r, snd ?p)" using r by (rule result_eq)
  have t: "5 < now (snd ?p) + day - 1000000000" by code_simp
  have j: "jwt_ok (jwt_lib test_env)" by (simp add: test_env_def test_jwt_ok)
  have md: "metadata ?x = Some ?md" "?md ''authorization'' = [''Bearer '' @ Token r]"
    by (simp_all add: headers_def tok)
  obtain row where row: "row \<in> set (customer_t accounts_db)"
      "ValidateToken test_env ''bob'' 5 = \<lparr>Valid = True, UserId = Itoa (cu_id row), vt_UserType = ''customer''\<rparr>"
      "\<forall>m. getMethodRole m = RoleAdmin \<longrightarrow> rbacCheck test_env ?x m 5 = Inl PermissionDenied"
    using CustomerLogin_grants_access [OF j p tok(2) t md] unfolding tok by blast
  moreover have "getMethodRole ''/bread.AdminService/CreateBread'' = RoleAdmin" by code_simp
  moreover have "\<forall>row \<in> set (customer_t accounts_db). Itoa (cu_id row) = ''1''" by code_simp
  ultimately show ?thesis by simp
qed

section \<open>Administrators' accounts\<close>

text \<open>
  Only an administrator makes administrators: when \<open>CreateAdminUser\<close> answers with an account, or
  adds one, the caller presented a valid token of an administrator.
\<close>

theorem CreateAdminUser_needs_admin:
  assumes "CreateAdminUser E ctx username email password role s = (x, s')"
    and "isl x = False \<or> admin_t s' \<noteq> admin_t s"
  shows "\<exists>md v vs c. metadata ctx = Some md \<and> md ''authorization'' = v # vs
    \<and> valid_claims E (TrimPrefix ''Bearer '' v) (now s) = Some c \<and> UserType c = ''admin''"
proof (cases "requireAdminToken E ctx (now s)")
  case (Inl e)
  then have "x = Inl e \<and> s' = s"
    using assms(1) by (auto simp: CreateAdminUser_def seq_apply)
  with assms(2) show ?thesis by simp
next
  case (Inr c)
  then show ?thesis
    by (auto simp: requireAdminToken_def split: option.splits list.splits if_splits)
qed

theorem CreateAdminUser_needs_admin_witness:
  "\<exists>c. valid_claims test_env ''root'' (now accounts_db) = Some c \<and> UserType c = ''admin''"
proof -
  let ?x = "headers [(''authorization'', ''Bearer root'')]"
  let ?p = "CreateAdminUser test_env ?x ''eve'' ''e@b.c'' ''pw'' ''super'' accounts_db"
  have "isl (fst ?p) = False" by code_simp
  moreover have "?p = (fst ?p, snd ?p)" by simp
  ultimately obtain md v vs c where c: "metadata ?x = Some md" "md ''authorization'' = v # vs"
      "valid_claims test_env (TrimPrefix ''Bearer '' v) (now accounts_db) = Some c" "UserType c = ''admin''"
    using CreateAdminUser_needs_admin by blast
  then have "v = ''Bearer root''" by (auto simp: headers_def)
  then show ?thesis using c(3,4) by (auto simp: TrimPrefix_def has_prefix_def)
qed

section \<open>The customer of a request\<close>

lemma digit_chars:
  assumes "0 \<le> n" and "n < 10"
  shows "is_digit (digit_char n)" and "digit (digit_char n) = n"
proof -
  have "n = 0 \<or> n = 1 \<or> n = 2 \<or> n = 3 \<or> n = 4 \<or> n = 5 \<or> n = 6 \<or> n = 7 \<or> n = 8 \<or> n = 9"
    using assms by presburger
  then show "is_digit (digit_char n)" "digit (digit_char n) = n"
    by (elim disjE; simp add: digit_char_def is_digit_def digit_def)+
qed

lemma Itoa_pos_digits: "0 \<le> n \<Longrightarrow> list_all is_digit (Itoa_pos n) \<and> Itoa_pos n \<noteq> []"
proof (induction n rule: Itoa_pos.induct)
  case (1 n)
  then show ?case
    by (subst (1 2) Itoa_pos.simps) (auto simp: digit_chars list_all_append)
qed

lemma parse_Itoa_pos: "0 \<le> n \<Longrightarrow> parse_digits (Itoa_pos n) = n"
proof (induction n rule: Itoa_pos.induct)
  case (1 n)
  show ?case
  proof (cases "n < 10")
    case True
    then show ?thesis using 1 by (subst Itoa_pos.simps) (simp add: parse_digits_def digit_chars)
  next
    case False
    have "parse_digits (Itoa_pos n) = 10 * parse_digits (Itoa_pos (n div 10)) + n mod 10"
      using False by (subst Itoa_pos.simps) (simp add: parse_digits_def digit_chars)
    also have "\<dots> = 10 * (n div 10) + n mod 10" using 1 False by simp
    finally show ?thesis by simp
  qed
qed

lemma takeWhile_all: "list_all P xs \<Longrightarrow> takeWhile P xs = xs"
  by (simp add: takeWhile_eq_all_conv list_all_iff)

lemma Sscanf_Itoa: "0 \<le> n \<Longrightarrow> is_int64 n \<Longrightarrow> Sscanf_d (Itoa n) = Some n"
  using Itoa_pos_digits [of n]
  by (simp add: Itoa_def Sscanf_d_def takeWhile_all parse_Itoa_pos)

text \<open>
  A handler takes its customer from the header \<open>customer_id\<close>: the number a client writes there is
  the number the handler reads, and the token that let the request pass has no say in it, whoever
  it was issued to.
\<close>

theorem customer_is_the_header:
  assumes "rbacCheck E ctx m t = Inr ctx1" and "metadata ctx = Some md"
    and "md ''customer_id'' = Itoa n # vs" and "0 \<le> n" and "is_int64 n"
  shows "GetCustomerIDFromContext (injectCustomerID ctx1) = n"
proof -
  have "metadata ctx1 = Some md"
    using assms(1,2) by (auto simp: rbacCheck_def Let_def split: if_splits option.splits list.splits)
  moreover have "Itoa n \<noteq> [] \<and> list_all is_digit (Itoa n)"
    using assms(4) Itoa_pos_digits [of n] by (simp add: Itoa_def)
  ultimately show ?thesis
    using assms(3-5) by (simp add: injectCustomerID_def GetCustomerIDFromContext_def Sscanf_Itoa)
qed

theorem customer_is_the_header_witness:
  "\<exists>ctx1 c. rbacCheck test_env (headers [(''authorization'', ''Bearer bob''), (''customer_id'', ''42'')])
       ''/bread.BuyOrderService/BuyOrder'' 0 = Inr ctx1
    \<and> role_claims ctx1 = Some c \<and> UserID c = 1 \<and> GetCustomerIDFromContext (injectCustomerID ctx1) = 42"
proof -
  let ?hs = "[(''authorization'', ''Bearer bob''), (''customer_id'', ''42'')]"
  let ?md = "\<lambda>k. case map_of ?hs k of Some v \<Rightarrow> [v] | None \<Rightarrow> []"
  let ?r = "rbacCheck test_env (headers ?hs) ''/bread.BuyOrderService/BuyOrder'' 0"
  have "map_sum id (\<lambda>x. map_option UserID (role_claims x)) ?r = Inr (Some 1)" by code_simp
  then obtain ctx1 c where r: "?r = Inr ctx1" "role_claims ctx1 = Some c" "UserID c = 1"
    by (cases ?r) auto
  have "Itoa 42 = ''42''" by code_simp
  then have md: "metadata (headers ?hs) = Some ?md" "?md ''customer_id'' = Itoa 42 # []"
    by (simp_all add: headers_def)
  have "GetCustomerIDFromContext (injectCustomerID ctx1) = 42"
    using customer_is_the_header [OF r(1) md] by (simp add: is_int64_def)
  then show ?thesis using r by blast
qed

end
