(* ===== verification/Invoices.thy ===== *)
theory Invoices
  imports Accounts
begin

text \<open>
  Invoices of \<open>data/models.go\<close>: the header and the items are stored in one transaction; the
  items come back only from \<open>GetInvoiceByID\<close>.
\<close>

definition insert_invoice_header :: "Invoice \<Rightarrow> int repo" where
  "insert_invoice_header invoice =
     seq (query now) (\<lambda>t. stmt
       (seq (param_numeric 12 (inv_Subtotal invoice)) (\<lambda>sub.
        seq (param_numeric 12 (inv_Tax invoice)) (\<lambda>tax.
        seq (param_numeric 12 (inv_Total invoice)) (\<lambda>tot.
        seq (nextval InvoiceSeq) (\<lambda>i.
          let r = \<lparr>iv_id = i, iv_buy_order_id = inv_BuyOrderID invoice,
                    iv_customer_id = inv_CustomerID invoice, iv_number = inv_InvoiceNumber invoice,
                    iv_subtotal = sub, iv_tax = tax, iv_total = tot, iv_status = inv_Status invoice,
                    iv_created_at = t, iv_due_date = inv_DueDate invoice, iv_paid_at = inv_PaidAt invoice\<rparr>
          in seq (guarded (insert_invoice_error r) (\<lambda>s. s\<lparr>invoice_t := invoice_t s @ [r]\<rparr>))
               (\<lambda>_. ret i)))))))"

definition insert_invoice_item :: "int \<Rightarrow> InvoiceItem \<Rightarrow> unit repo" where
  "insert_invoice_item newID item = stmt
     (seq (param_numeric 10 (ii_UnitPrice item)) (\<lambda>price.
      seq (param_numeric 10 (ii_Total item)) (\<lambda>tot.
      seq (nextval ItemSeq) (\<lambda>i.
        let r = \<lparr>it_id = i, it_invoice_id = newID, it_bread_id = ii_BreadID item,
                  it_bread_name = ii_BreadName item, it_quantity = ii_Quantity item,
                  it_unit_price = price, it_total = tot\<rparr>
        in guarded (insert_item_error r) (\<lambda>s. s\<lparr>invoice_items_t := invoice_items_t s @ [r]\<rparr>)))))"

definition InsertInvoice :: "Invoice \<Rightarrow> int repo" where
  "InsertInvoice invoice = transaction id id
     (seq (insert_invoice_header invoice) (\<lambda>newID.
      seq (for_each (\<lambda>item _. insert_invoice_item newID item) (inv_Items invoice) ()) (\<lambda>_.
      ret newID)))"

definition scan_invoice :: "invoice_row \<Rightarrow> Invoice" where
  "scan_invoice r = \<lparr>inv_ID = iv_id r, inv_BuyOrderID = iv_buy_order_id r,
     inv_CustomerID = iv_customer_id r, inv_InvoiceNumber = iv_number r,
     inv_Subtotal = f64_of_numeric (iv_subtotal r), inv_Tax = f64_of_numeric (iv_tax r),
     inv_Total = f64_of_numeric (iv_total r), inv_Status = iv_status r,
     inv_CreatedAt = iv_created_at r, inv_DueDate = iv_due_date r, inv_PaidAt = iv_paid_at r,
     inv_Items = []\<rparr>"

definition scan_item :: "invoice_item_row \<Rightarrow> InvoiceItem" where
  "scan_item r = \<lparr>ii_ID = it_id r, ii_InvoiceID = it_invoice_id r, ii_BreadID = it_bread_id r,
     ii_BreadName = it_bread_name r, ii_Quantity = it_quantity r,
     ii_UnitPrice = f64_of_numeric (it_unit_price r), ii_Total = f64_of_numeric (it_total r)\<rparr>"

text \<open>When the items cannot be queried the invoice is returned without them, and no error.\<close>

definition GetInvoiceByID :: "int \<Rightarrow> Invoice repo" where
  "GetInvoiceByID i =
     seq (query_row (\<lambda>s. filter (\<lambda>r. iv_id r = i) (invoice_t s))) (\<lambda>r.
     attempt (query_rows (\<lambda>s. filter (\<lambda>x. it_invoice_id x = i) (invoice_items_t s)))
       (\<lambda>e. ret (scan_invoice r))
       (\<lambda>(rows, broken). ret ((scan_invoice r)\<lparr>inv_Items := map scan_item rows\<rparr>)))"

definition GetInvoicesByCustomerID :: "int \<Rightarrow> Invoice list repo" where
  "GetInvoicesByCustomerID customerID =
     seq (query_rows (\<lambda>s. rev (sort_key iv_created_at (filter (\<lambda>r. iv_customer_id r = customerID) (invoice_t s)))))
       (\<lambda>(rows, broken). ret (map scan_invoice rows))"

definition GetAllInvoices :: "Invoice list repo" where
  "GetAllInvoices =
     seq (query_rows (\<lambda>s. rev (sort_key iv_created_at (invoice_t s))))
       (\<lambda>(rows, broken). ret (map scan_invoice rows))"

definition GetInvoiceByOrderID :: "int \<Rightarrow> Invoice repo" where
  "GetInvoiceByOrderID orderID =
     seq (query_row (\<lambda>s. filter (\<lambda>r. iv_buy_order_id r = orderID) (invoice_t s))) (\<lambda>r. ret (scan_invoice r))"

section \<open>The invariant\<close>

lemma keeps_InsertInvoice: "keeps db_inv (InsertInvoice x)"
  unfolding InsertInvoice_def insert_invoice_header_def insert_invoice_item_def Let_def
  by (intro keeps_intros insert_inv) simp_all

lemma keeps_GetInvoiceByID: "keeps db_inv (GetInvoiceByID i)"
  unfolding GetInvoiceByID_def by (intro keeps_intros) simp_all

lemma keeps_GetInvoicesByCustomerID: "keeps db_inv (GetInvoicesByCustomerID i)"
  unfolding GetInvoicesByCustomerID_def by (intro keeps_intros) simp_all

lemma keeps_GetAllInvoices: "keeps db_inv GetAllInvoices"
  unfolding GetAllInvoices_def by (intro keeps_intros) simp_all

lemma keeps_GetInvoiceByOrderID: "keeps db_inv (GetInvoiceByOrderID i)"
  unfolding GetInvoiceByOrderID_def by (intro keeps_intros) simp_all

lemmas keeps_invoices = keeps_InsertInvoice keeps_GetInvoiceByID keeps_GetInvoicesByCustomerID
  keeps_GetAllInvoices keeps_GetInvoiceByOrderID

end
