(* ===== verification/Wire.thy ===== *)
theory Wire
  imports Invoices Access
begin

text \<open>
  What the gRPC handlers of \<open>server/\<close> share: the protobuf messages of bread with the JSON that
  \<open>encoding/json\<close> makes of the generated struct, the RabbitMQ connection each handler opens, and
  the server's state behind the handlers.
\<close>

section \<open>Protobuf messages of bread\<close>

text \<open>A timestamp: seconds and nanoseconds. \<open>timestamppb.New\<close> makes one of a time.\<close>

definition timestamp :: "int \<Rightarrow> int \<times> int" where
  "timestamp t = (t div 1000000000, t mod 1000000000)"

record pbBread =
  bd_Id :: int
  bd_Name :: string
  bd_Price :: f64
  bd_Quantity :: int
  bd_Description :: string
  bd_Type :: string
  bd_Status :: string
  bd_CreatedAt :: "(int \<times> int) option"
  bd_UpdatedAt :: "(int \<times> int) option"
  bd_Image :: string

text \<open>
  The generated struct's fields are all \<open>omitempty\<close>: a zero value is left out. A timestamp is an
  object of its own, whose fields are left out likewise.
\<close>

definition opt_field :: "bool \<Rightarrow> string \<Rightarrow> json \<Rightarrow> (string \<times> json) list" where
  "opt_field absent k j = (if absent then [] else [(k, j)])"

definition str_field :: "string \<Rightarrow> string \<Rightarrow> (string \<times> json) list" where
  "str_field k s = opt_field (s = []) k (JStr s)"

definition int_field :: "string \<Rightarrow> int \<Rightarrow> (string \<times> json) list" where
  "int_field k n = opt_field (n = 0) k (enc_int n)"

definition time_field :: "string \<Rightarrow> (int \<times> int) option \<Rightarrow> (string \<times> json) list" where
  "time_field k t = (case t of None \<Rightarrow> []
     | Some (sec, nsec) \<Rightarrow> [(k, JObj (int_field ''seconds'' sec @ int_field ''nanos'' nsec))])"

definition f64_field :: "string \<Rightarrow> f64 \<Rightarrow> (string \<times> json) list option" where
  "f64_field k x = (if feq x 0 then Some [] else map_option (\<lambda>j. [(k, j)]) (enc_f64 x))"

definition enc_pbBread :: "pbBread \<Rightarrow> json option" where
  "enc_pbBread b = map_option (\<lambda>price. JObj
     (int_field ''id'' (bd_Id b) @ str_field ''name'' (bd_Name b) @ price
      @ int_field ''quantity'' (bd_Quantity b) @ str_field ''description'' (bd_Description b)
      @ str_field ''type'' (bd_Type b) @ str_field ''status'' (bd_Status b)
      @ time_field ''created_at'' (bd_CreatedAt b) @ time_field ''updated_at'' (bd_UpdatedAt b)
      @ str_field ''image'' (bd_Image b))) (f64_field ''price'' (bd_Price b))"

definition dec_int32 :: "json \<Rightarrow> int option" where
  "dec_int32 j = (case dec_int j of Some n \<Rightarrow> if is_int32 n then Some n else None | None \<Rightarrow> None)"

fun dec_timestamp :: "json \<Rightarrow> (int \<times> int) option option" where
  "dec_timestamp JNull = Some None"
| "dec_timestamp (JObj fs) =
     Option.bind (dec_int (jfield ''seconds'' fs)) (\<lambda>sec.
     Option.bind (dec_int32 (jfield ''nanos'' fs)) (\<lambda>nsec. Some (Some (sec, nsec))))"
| "dec_timestamp _ = None"

definition dec_pbBread :: "json \<Rightarrow> pbBread option" where
  "dec_pbBread j = do {
     fs \<leftarrow> obj_fields j;
     i \<leftarrow> dec_int32 (jfield ''id'' fs);
     n \<leftarrow> dec_str (jfield ''name'' fs);
     p \<leftarrow> dec_f64 (jfield ''price'' fs);
     q \<leftarrow> dec_int32 (jfield ''quantity'' fs);
     d \<leftarrow> dec_str (jfield ''description'' fs);
     t \<leftarrow> dec_str (jfield ''type'' fs);
     st \<leftarrow> dec_str (jfield ''status'' fs);
     c \<leftarrow> dec_timestamp (jfield ''created_at'' fs);
     u \<leftarrow> dec_timestamp (jfield ''updated_at'' fs);
     im \<leftarrow> dec_str (jfield ''image'' fs);
     Some \<lparr>bd_Id = i, bd_Name = n, bd_Price = p, bd_Quantity = q, bd_Description = d, bd_Type = t,
       bd_Status = st, bd_CreatedAt = c, bd_UpdatedAt = u, bd_Image = im\<rparr>
   }"

text \<open>A bread of the database as the handlers send it, with its timestamps and without.\<close>

definition bread_to_pb :: "Bread \<Rightarrow> pbBread" where
  "bread_to_pb b = \<lparr>bd_Id = int32 (b_ID b), bd_Name = b_Name b, bd_Price = b_Price b,
     bd_Quantity = int32 (b_Quantity b), bd_Description = b_Description b, bd_Type = b_Type b,
     bd_Status = b_Status b, bd_CreatedAt = Some (timestamp (b_CreatedAt b)),
     bd_UpdatedAt = Some (timestamp (b_UpdatedAt b)), bd_Image = b_Image b\<rparr>"

definition bread_to_pb_untimed :: "Bread \<Rightarrow> pbBread" where
  "bread_to_pb_untimed b = (bread_to_pb b)\<lparr>bd_CreatedAt := None, bd_UpdatedAt := None\<rparr>"

section \<open>Round trip\<close>

text \<open>What a message that came over the wire holds, and JSON can print.\<close>

definition time_ok :: "(int \<times> int) option \<Rightarrow> bool" where
  "time_ok t \<longleftrightarrow> (case t of None \<Rightarrow> True | Some (sec, nsec) \<Rightarrow> is_int64 sec \<and> is_int32 nsec)"

definition pbBread_ok :: "pbBread \<Rightarrow> bool" where
  "pbBread_ok b \<longleftrightarrow> is_int32 (bd_Id b) \<and> is_int32 (bd_Quantity b) \<and> f64_ok (bd_Price b)
     \<and> time_ok (bd_CreatedAt b) \<and> time_ok (bd_UpdatedAt b)"

lemma jfield_Nil [simp]: "jfield k [] = JNull"
  by (simp add: jfield_def)

text \<open>The keys of a list of fields, and a field in the middle of others.\<close>

definition keys :: "(string \<times> json) list \<Rightarrow> string set" where
  "keys fs = fst ` set fs"

lemma keys_append [simp]: "keys (fs @ gs) = keys fs \<union> keys gs"
  by (simp add: keys_def image_Un)

lemma jfield_append1: "k \<notin> keys gs \<Longrightarrow> jfield k (fs @ gs) = jfield k fs"
proof -
  assume "k \<notin> keys gs"
  then have "map_of (rev gs) k = None" by (simp add: keys_def map_of_eq_None_iff)
  then show ?thesis by (simp add: jfield_def map_add_def)
qed

lemma jfield_append2: "k \<notin> keys fs \<Longrightarrow> jfield k (fs @ gs) = jfield k gs"
proof -
  assume "k \<notin> keys fs"
  then have "map_of (rev fs) k = None" by (simp add: keys_def map_of_eq_None_iff)
  then show ?thesis by (simp add: jfield_def map_add_def split: option.split)
qed

lemma field_keys:
  "k \<noteq> k' \<Longrightarrow> k \<notin> keys (str_field k' s)"
  "k \<noteq> k' \<Longrightarrow> k \<notin> keys (int_field k' n)"
  "k \<noteq> k' \<Longrightarrow> k \<notin> keys (time_field k' t)"
  by (auto simp: keys_def str_field_def int_field_def opt_field_def time_field_def split: option.splits)

lemma f64_field_keys: "f64_field k' x = Some fs \<Longrightarrow> k \<noteq> k' \<Longrightarrow> k \<notin> keys fs"
  by (auto simp: keys_def f64_field_def split: if_splits)

text \<open>Each field is read back, whether it was written or left out.\<close>

lemma dec_str_field: "dec_str (jfield k (str_field k s)) = Some s"
  by (simp add: str_field_def opt_field_def jfield_def)

lemma dec_int32_field: "is_int32 n \<Longrightarrow> dec_int32 (jfield k (int_field k n)) = Some n"
  by (cases "n = 0") (simp_all add: int_field_def opt_field_def jfield_def dec_int32_def dec_enc_int is_int32_is_int64)

lemma dec_int_field: "is_int64 n \<Longrightarrow> dec_int (jfield k (int_field k n)) = Some n"
  by (simp add: int_field_def opt_field_def jfield_def dec_enc_int)

lemma dec_time_field: "time_ok t \<Longrightarrow> dec_timestamp (jfield k (time_field k t)) = Some t"
proof (cases t)
  case (Some p)
  obtain sec nsec where p: "p = (sec, nsec)" by (cases p)
  assume "time_ok t"
  then have "is_int64 sec" "is_int32 nsec" by (simp_all add: time_ok_def Some p)
  then have "dec_int (jfield ''seconds'' (int_field ''seconds'' sec @ int_field ''nanos'' nsec)) = Some sec"
      "dec_int32 (jfield ''nanos'' (int_field ''seconds'' sec @ int_field ''nanos'' nsec)) = Some nsec"
    by (simp_all add: jfield_append1 jfield_append2 field_keys dec_int_field dec_int32_field)
  then show ?thesis by (simp add: time_field_def Some p jfield_def)
qed (simp add: time_field_def)

lemma dec_f64_field:
  assumes "f64_ok x"
  shows "\<exists>fs. f64_field k x = Some fs \<and> dec_f64 (jfield k fs) = Some x"
  using assms by (auto simp: f64_field_def f64_ok_Fin feq_def zero_f64_def jfield_def)

lemma dec_enc_pbBread:
  assumes "pbBread_ok b"
  shows "\<exists>j. enc_pbBread b = Some j \<and> dec_pbBread j = Some b"
proof -
  have ok: "is_int32 (bd_Id b)" "is_int32 (bd_Quantity b)" "f64_ok (bd_Price b)"
      "time_ok (bd_CreatedAt b)" "time_ok (bd_UpdatedAt b)"
    using assms by (simp_all add: pbBread_ok_def)
  obtain price where price: "f64_field ''price'' (bd_Price b) = Some price"
      "dec_f64 (jfield ''price'' price) = Some (bd_Price b)"
    using dec_f64_field [OF ok(3)] by blast
  show ?thesis
    using price ok by (simp add: enc_pbBread_def dec_pbBread_def jfield_append1 jfield_append2 field_keys
        f64_field_keys [OF price(1)] dec_str_field dec_int32_field dec_time_field)
qed

section \<open>RabbitMQ\<close>

text \<open>
  The server as its handlers see it: the database, the messages published so far with their
  queues, what may go wrong with the next operations on RabbitMQ (an operation that fails before
  the broker saw it, or one whose failure is only reported), and the sequence counter of the orders.
\<close>

record bakery =
  bk_db :: db
  amqp :: "fault list"
  sent :: "(string \<times> json) list"
  orderSequence :: int

definition bk_lift :: "(db, 'e, 'a) proc \<Rightarrow> (bakery, 'e, 'a) proc" where
  "bk_lift f b = (case f (bk_db b) of (r, s) \<Rightarrow> (r, b\<lparr>bk_db := s\<rparr>))"

text \<open>\<open>Dial\<close> and \<open>Channel\<close>: an error of the library, which gRPC turns into the code Unknown.\<close>

definition amqp_op :: "(bakery, code, unit) proc" where
  "amqp_op b = (case amqp b of
     [] \<Rightarrow> (Inr (), b)
   | g # gs \<Rightarrow> (if g = NoFault then Inr () else Inl Unknown, b\<lparr>amqp := gs\<rparr>))"

definition Publish :: "string \<Rightarrow> json \<Rightarrow> (bakery, code, unit) proc" where
  "Publish queue body b =
     (let pub = b\<lparr>sent := sent b @ [(queue, body)]\<rparr> in
      case amqp b of
        [] \<Rightarrow> (Inr (), pub)
      | g # gs \<Rightarrow>
          (case g of
             NoFault \<Rightarrow> (Inr (), pub\<lparr>amqp := gs\<rparr>)
           | LostRequest \<Rightarrow> (Inl Unknown, b\<lparr>amqp := gs\<rparr>)
           | LostReply \<Rightarrow> (Inl Unknown, pub\<lparr>amqp := gs\<rparr>)
           | CutAfter n \<Rightarrow> (Inl Unknown, pub\<lparr>amqp := gs\<rparr>)))"

text \<open>A handler's preamble: it dials and opens a channel, and returns the error of either.\<close>

definition with_channel :: "(bakery, code, 'a) proc \<Rightarrow> (bakery, code, 'a) proc" where
  "with_channel body = seq amqp_op (\<lambda>_. seq amqp_op (\<lambda>_. body))"

lemma bk_lift_ret [simp]: "bk_lift (ret a) = ret a"
  by (simp add: bk_lift_def fun_eq_iff)

lemma keeps_bk_lift: "keeps I f \<Longrightarrow> keeps (\<lambda>b. I (bk_db b)) (bk_lift f)"
  by (auto simp: keeps_def bk_lift_def split: prod.splits)

lemma bk_db_amqp_op [simp]: "bk_db (snd (amqp_op b)) = bk_db b"
  by (simp add: amqp_op_def split: list.split)

lemma bk_db_Publish [simp]: "bk_db (snd (Publish q j b)) = bk_db b"
  by (simp add: Publish_def Let_def split: list.split fault.split)

lemma keeps_amqp_op [keeps_intros]: "keeps (\<lambda>b. I (bk_db b)) amqp_op"
  by (simp add: keeps_def)

lemma keeps_Publish [keeps_intros]: "keeps (\<lambda>b. I (bk_db b)) (Publish q j)"
  by (simp add: keeps_def)

lemma keeps_with_channel [keeps_intros]:
  "keeps (\<lambda>b. I (bk_db b)) body \<Longrightarrow> keeps (\<lambda>b. I (bk_db b)) (with_channel body)"
  unfolding with_channel_def by (intro keeps_intros)

lemma with_channel_calm [simp]: "amqp b = [] \<Longrightarrow> with_channel body b = body b"
  by (simp add: with_channel_def seq_apply amqp_op_def)

lemma Publish_calm [simp]:
  "amqp b = [] \<Longrightarrow> Publish q j b = (Inr (), b\<lparr>sent := sent b @ [(q, j)]\<rparr>)"
  by (simp add: Publish_def Let_def)

section \<open>Amounts in messages\<close>

text \<open>\<open>fmt.Sprintf("%.2f", x)\<close>: the exact value rounded to two decimals, ties to even.\<close>

definition two_digits :: "int \<Rightarrow> string" where
  "two_digits n = (if n < 10 then CHR ''0'' # Itoa_pos n else Itoa_pos n)"

fun Sprintf_2f :: "f64 \<Rightarrow> string" where
  "Sprintf_2f (Fin r) =
     (let c = round_half_even (\<bar>r\<bar> * 100); m = Itoa_pos (c div 100) @ ''.'' @ two_digits (c mod 100)
      in if r < 0 then CHR ''-'' # m else m)"
| "Sprintf_2f PInf = ''+Inf''"
| "Sprintf_2f NInf = ''-Inf''"
| "Sprintf_2f NaN = ''NaN''"

section \<open>Calendar\<close>

text \<open>
  \<open>time.Now().Year()\<close> in UTC: the civil year of a day number, counted in eras of 400 years that
  begin on the first of March.
\<close>

definition year_of :: "int \<Rightarrow> int" where
  "year_of t =
     (let z = t div 86400000000000 + 719468;
          era = z div 146097;
          doe = z mod 146097;
          yoe = (doe - doe div 1460 + doe div 36524 - doe div 146096) div 365;
          doy = doe - (365 * yoe + yoe div 4 - yoe div 100);
          mp = (5 * doy + 2) div 153
      in yoe + era * 400 + (if 10 \<le> mp then 1 else 0))"

lemma year_of_examples:
  "year_of 0 = 1970" "year_of 1709251199000000000 = 2024" "year_of 1735689599000000000 = 2024"
  "year_of 1735689600000000000 = 2025" "year_of (- 1) = 1969"
  by code_simp+

end
