(* ===== verification/Settlement.thy ===== *)
theory Settlement
  imports Messages
begin

text \<open>
  \<open>server/settlement_dispatcher.go\<close>: one goroutine consumes bread-bought and hands each settled
  order to the stream that waits for its UUID, through a channel with a buffer of one. The map of
  waiters is guarded by a lock, so \<open>Register\<close> and \<open>Unregister\<close> are single steps; \<open>deliver\<close>
  looks its waiter up under the lock but tests and sends outside of it, so it is a program counter
  whose steps interleave with the streams'. Waiters and channels are objects shared by reference:
  they live in two heaps, and a reference is an index.
\<close>

section \<open>Messages\<close>

text \<open>
  The body of a delivery, \<open>None\<close> when it is not JSON. It is read as the result the broker
  publishes, whose \<open>total_cost\<close> has to fit a \<open>float32\<close> and whose items are not looked at; if that
  fails, or gives no UUID, as a bare order.
\<close>

fun fits_f32 :: "json \<Rightarrow> bool" where
  "fits_f32 JNull = True"
| "fits_f32 (JNum r) = (\<bar>r\<bar> < 2 ^ 128 - 2 ^ 103)"
| "fits_f32 _ = False"

fun is_array :: "json \<Rightarrow> bool" where
  "is_array JNull = True"
| "is_array (JArr js) = True"
| "is_array _ = False"

definition decode_result :: "json \<Rightarrow> BuyOrder option" where
  "decode_result j =
     Option.bind (obj_fields j) (\<lambda>fs.
     Option.bind (dec_BuyOrder (jfield ''order'' fs)) (\<lambda>ord.
       if is_array (jfield ''items'' fs) \<and> fits_f32 (jfield ''total_cost'' fs) then Some ord else None))"

definition decode_delivery :: "json option \<Rightarrow> BuyOrder option" where
  "decode_delivery body =
     Option.bind body (\<lambda>j. case decode_result j of
         Some ord \<Rightarrow> if o_BuyOrderUUID ord \<noteq> [] then Some ord else dec_BuyOrder j
       | None \<Rightarrow> dec_BuyOrder j)"

section \<open>State\<close>

record channel =
  buf :: "BuyOrder option"
  ch_closed :: bool

record settlementWaiter =
  w_ch :: nat
  w_closed :: bool

datatype answer = Ack | Nack

text \<open>
  Where the consumer is: at the head of \<open>for delivery := range\<close>; at the head of \<open>deliver\<close>'s
  loop; after the lookup, with its result; about to run the \<open>select\<close>; asleep; or dead of a panic.
\<close>

datatype place =
    Receiving
  | Loop BuyOrder int
  | Looked BuyOrder int "nat option"
  | Sending BuyOrder int nat
  | Sleeping BuyOrder int int
  | Panicked

text \<open>
  Times are in milliseconds. The fields \<open>handed\<close>, the UUID each channel was made for, and
  \<open>lookups\<close>, the lookups of the current \<open>deliver\<close>, are not in the code: properties speak of them.
\<close>

record SettlementDispatcher =
  waiters :: "string \<Rightarrow> nat option"
  waiter_heap :: "settlementWaiter list"
  chans :: "channel list"
  pc :: place
  now_ms :: int
  inbox :: "json option list"
  answers :: "answer list"
  handed :: "string list"
  lookups :: nat

definition NewSettlementDispatcher :: "int \<Rightarrow> SettlementDispatcher" where
  "NewSettlementDispatcher t = \<lparr>waiters = (\<lambda>u. None), waiter_heap = [], chans = [], pc = Receiving,
     now_ms = t, inbox = [], answers = [], handed = [], lookups = 0\<rparr>"

section \<open>Operations\<close>

definition close_waiter :: "nat \<Rightarrow> SettlementDispatcher \<Rightarrow> SettlementDispatcher" where
  "close_waiter i s =
     (let w = waiter_heap s ! i
      in s\<lparr>waiter_heap := (waiter_heap s)[i := w\<lparr>w_closed := True\<rparr>],
           chans := (chans s)[w_ch w := (chans s ! w_ch w)\<lparr>ch_closed := True\<rparr>]\<rparr>)"

text \<open>\<open>Register\<close> returns the new channel.\<close>

definition Register :: "string \<Rightarrow> SettlementDispatcher \<Rightarrow> nat \<times> SettlementDispatcher" where
  "Register uuid s =
     (let t = (case waiters s uuid of Some old \<Rightarrow> close_waiter old s | None \<Rightarrow> s);
          c = length (chans t)
      in (c, t\<lparr>chans := chans t @ [\<lparr>buf = None, ch_closed = False\<rparr>],
               waiter_heap := waiter_heap t @ [\<lparr>w_ch = c, w_closed = False\<rparr>],
               waiters := (waiters t)(uuid \<mapsto> length (waiter_heap t)),
               handed := handed t @ [uuid]\<rparr>))"

definition Unregister :: "string \<Rightarrow> SettlementDispatcher \<Rightarrow> SettlementDispatcher" where
  "Unregister uuid s =
     (case waiters s uuid of
        Some w \<Rightarrow> (close_waiter w s)\<lparr>waiters := (waiters s)(uuid := None)\<rparr>
      | None \<Rightarrow> s)"

definition answer_with :: "answer \<Rightarrow> SettlementDispatcher \<Rightarrow> SettlementDispatcher" where
  "answer_with a s = s\<lparr>pc := Receiving, answers := answers s @ [a]\<rparr>"

text \<open>\<open>time.Sleep(50 * time.Millisecond)\<close> at the end of the loop's body.\<close>

definition go_to_sleep :: "BuyOrder \<Rightarrow> int \<Rightarrow> SettlementDispatcher \<Rightarrow> SettlementDispatcher" where
  "go_to_sleep order deadline s = s\<lparr>pc := Sleeping order deadline (now_ms s + 50)\<rparr>"

text \<open>
  The next step of the consumer, \<open>None\<close> while it is blocked. Sending on a closed channel panics,
  in a \<open>select\<close> with a \<open>default\<close> too; a full channel takes the \<open>default\<close>. The delivery is
  acknowledged whether \<open>deliver\<close> returns true or false.
\<close>

definition deliver_send :: "BuyOrder \<Rightarrow> int \<Rightarrow> nat \<Rightarrow> SettlementDispatcher \<Rightarrow> SettlementDispatcher" where
  "deliver_send order deadline i s =
     (let k = w_ch (waiter_heap s ! i); c = chans s ! k
      in if ch_closed c then s\<lparr>pc := Panicked\<rparr>
         else (case buf c of
             None \<Rightarrow> answer_with Ack (s\<lparr>chans := (chans s)[k := c\<lparr>buf := Some order\<rparr>]\<rparr>)
           | Some x \<Rightarrow> go_to_sleep order deadline s))"

fun deliver :: "place \<Rightarrow> SettlementDispatcher \<Rightarrow> SettlementDispatcher option" where
  "deliver (Loop order deadline) s =
     (if now_ms s < deadline
      then Some (s\<lparr>pc := Looked order deadline (waiters s (o_BuyOrderUUID order)),
                   lookups := lookups s + 1\<rparr>)
      else Some (answer_with Ack s))"
| "deliver (Looked order deadline None) s = Some (go_to_sleep order deadline s)"
| "deliver (Looked order deadline (Some i)) s =
     (if w_closed (waiter_heap s ! i) then Some (go_to_sleep order deadline s)
      else Some (s\<lparr>pc := Sending order deadline i\<rparr>))"
| "deliver (Sending order deadline i) s = Some (deliver_send order deadline i s)"
| "deliver (Sleeping order deadline wake) s =
     (if wake \<le> now_ms s then Some (s\<lparr>pc := Loop order deadline\<rparr>) else None)"
| "deliver _ s = None"

definition receive_delivery :: "SettlementDispatcher \<Rightarrow> SettlementDispatcher option" where
  "receive_delivery s =
     (case inbox s of
        [] \<Rightarrow> None
      | body # rest \<Rightarrow>
          (case decode_delivery body of
             None \<Rightarrow> Some (answer_with Nack (s\<lparr>inbox := rest\<rparr>))
           | Some order \<Rightarrow> Some (s\<lparr>inbox := rest, pc := Loop order (now_ms s + 500), lookups := 0\<rparr>)))"

definition runOnce :: "SettlementDispatcher \<Rightarrow> SettlementDispatcher option" where
  "runOnce s = (case pc s of Receiving \<Rightarrow> receive_delivery s | p \<Rightarrow> deliver p s)"

text \<open>A stream takes what its channel holds.\<close>

definition take_order :: "nat \<Rightarrow> SettlementDispatcher \<Rightarrow> SettlementDispatcher" where
  "take_order i s = s\<lparr>chans := (chans s)[i := (chans s ! i)\<lparr>buf := None\<rparr>]\<rparr>"

section \<open>Interleavings\<close>

inductive sd_step :: "SettlementDispatcher \<Rightarrow> SettlementDispatcher \<Rightarrow> bool" where
  consume: "runOnce s = Some t \<Longrightarrow> sd_step s t"
| register: "sd_step s (snd (Register u s))"
| unregister: "sd_step s (Unregister u s)"
| take_it: "i < length (chans s) \<Longrightarrow> sd_step s (take_order i s)"
| arrive: "sd_step s (s\<lparr>inbox := inbox s @ [body]\<rparr>)"
| pass: "0 < d \<Longrightarrow> sd_step s (s\<lparr>now_ms := now_ms s + d\<rparr>)"

inductive_cases sd_stepE: "sd_step s t"

inductive sd_reachable :: "SettlementDispatcher \<Rightarrow> bool" where
  start: "sd_reachable (NewSettlementDispatcher t)"
| further: "sd_reachable s \<Longrightarrow> sd_step s t \<Longrightarrow> sd_reachable t"

section \<open>The invariant\<close>

text \<open>
  A channel is open exactly as long as its waiter is the registered one, so no stream is left on
  an open channel that nobody can send to; and what a channel holds is the order it was made for.
\<close>

definition heaps_ok :: "SettlementDispatcher \<Rightarrow> bool" where
  "heaps_ok s \<longleftrightarrow> length (waiter_heap s) = length (chans s) \<and> length (handed s) = length (chans s)
     \<and> (\<forall>i < length (chans s). w_ch (waiter_heap s ! i) = i
          \<and> w_closed (waiter_heap s ! i) = ch_closed (chans s ! i)
          \<and> (ch_closed (chans s ! i) \<longleftrightarrow> waiters s (handed s ! i) \<noteq> Some i)
          \<and> (\<forall>x. buf (chans s ! i) = Some x \<longrightarrow> o_BuyOrderUUID x = handed s ! i))
     \<and> (\<forall>u i. waiters s u = Some i \<longrightarrow> i < length (chans s) \<and> handed s ! i = u)"

text \<open>The waiter the consumer holds a reference to was made for the order it delivers.\<close>

fun place_ok :: "place \<Rightarrow> SettlementDispatcher \<Rightarrow> bool" where
  "place_ok (Looked x d (Some i)) s \<longleftrightarrow> i < length (chans s) \<and> handed s ! i = o_BuyOrderUUID x"
| "place_ok (Sending x d i) s \<longleftrightarrow> i < length (chans s) \<and> handed s ! i = o_BuyOrderUUID x"
| "place_ok p s \<longleftrightarrow> True"

definition sd_inv :: "SettlementDispatcher \<Rightarrow> bool" where
  "sd_inv s \<longleftrightarrow> heaps_ok s \<and> place_ok (pc s) s"

lemma heaps_okD:
  assumes "heaps_ok s" and "i < length (chans s)"
  shows "w_ch (waiter_heap s ! i) = i" and "w_closed (waiter_heap s ! i) = ch_closed (chans s ! i)"
    and "ch_closed (chans s ! i) \<longleftrightarrow> waiters s (handed s ! i) \<noteq> Some i"
    and "buf (chans s ! i) = Some x \<Longrightarrow> o_BuyOrderUUID x = handed s ! i"
  using assms unfolding heaps_ok_def by blast+

lemma heaps_ok_waiter:
  assumes "heaps_ok s" and "waiters s u = Some i"
  shows "i < length (chans s)" and "handed s ! i = u" and "\<not> ch_closed (chans s ! i)"
    and "\<not> w_closed (waiter_heap s ! i)" and "w_ch (waiter_heap s ! i) = i"
proof -
  show 1: "i < length (chans s)" "handed s ! i = u" using assms unfolding heaps_ok_def by blast+
  show "\<not> ch_closed (chans s ! i)" "\<not> w_closed (waiter_heap s ! i)" "w_ch (waiter_heap s ! i) = i"
    using heaps_okD [OF assms(1) 1(1)] 1(2) assms(2) by simp_all
qed

lemma heaps_ok_lengths:
  "heaps_ok s \<Longrightarrow> length (waiter_heap s) = length (chans s)"
  "heaps_ok s \<Longrightarrow> length (handed s) = length (chans s)"
  by (simp_all add: heaps_ok_def)

text \<open>Fields the invariant does not speak of.\<close>

lemma heaps_ok_cong:
  "waiters t = waiters s \<Longrightarrow> waiter_heap t = waiter_heap s \<Longrightarrow> chans t = chans s \<Longrightarrow>
   handed t = handed s \<Longrightarrow> heaps_ok t \<longleftrightarrow> heaps_ok s"
  by (simp add: heaps_ok_def)

lemma heaps_ok_frame [simp]:
  "heaps_ok (s\<lparr>pc := p\<rparr>) \<longleftrightarrow> heaps_ok s" "heaps_ok (s\<lparr>now_ms := c\<rparr>) \<longleftrightarrow> heaps_ok s"
  "heaps_ok (s\<lparr>inbox := b\<rparr>) \<longleftrightarrow> heaps_ok s" "heaps_ok (s\<lparr>answers := a\<rparr>) \<longleftrightarrow> heaps_ok s"
  "heaps_ok (s\<lparr>lookups := n\<rparr>) \<longleftrightarrow> heaps_ok s"
  by (simp_all add: heaps_ok_def)

lemma place_ok_cong:
  "length (chans t) = length (chans s) \<Longrightarrow> handed t = handed s \<Longrightarrow> place_ok p t \<longleftrightarrow> place_ok p s"
  by (cases "(p, s)" rule: place_ok.cases) simp_all

lemma place_ok_frame [simp]:
  "place_ok q (s\<lparr>pc := p\<rparr>) \<longleftrightarrow> place_ok q s" "place_ok q (s\<lparr>now_ms := c\<rparr>) \<longleftrightarrow> place_ok q s"
  "place_ok q (s\<lparr>inbox := b\<rparr>) \<longleftrightarrow> place_ok q s" "place_ok q (s\<lparr>answers := a\<rparr>) \<longleftrightarrow> place_ok q s"
  "place_ok q (s\<lparr>lookups := n\<rparr>) \<longleftrightarrow> place_ok q s"
  by (rule place_ok_cong; simp)+

lemma place_ok_more:
  "place_ok p s \<Longrightarrow> length (handed s) = length (chans s) \<Longrightarrow> length (chans t) = Suc (length (chans s)) \<Longrightarrow>
   handed t = handed s @ [u] \<Longrightarrow> place_ok p t"
  by (cases "(p, s)" rule: place_ok.cases) (auto simp: nth_append)

lemma heaps_okI:
  assumes "length (waiter_heap s) = length (chans s)" and "length (handed s) = length (chans s)"
    and "\<And>i. i < length (chans s) \<Longrightarrow> w_ch (waiter_heap s ! i) = i"
    and "\<And>i. i < length (chans s) \<Longrightarrow> w_closed (waiter_heap s ! i) = ch_closed (chans s ! i)"
    and "\<And>i. i < length (chans s) \<Longrightarrow> ch_closed (chans s ! i) \<longleftrightarrow> waiters s (handed s ! i) \<noteq> Some i"
    and "\<And>i x. i < length (chans s) \<Longrightarrow> buf (chans s ! i) = Some x \<Longrightarrow> o_BuyOrderUUID x = handed s ! i"
    and "\<And>u i. waiters s u = Some i \<Longrightarrow> i < length (chans s) \<and> handed s ! i = u"
  shows "heaps_ok s"
  using assms unfolding heaps_ok_def by blast

lemma heaps_ok_unregister:
  assumes "heaps_ok s" and "waiters s u = Some i"
  shows "heaps_ok ((close_waiter i s)\<lparr>waiters := (waiters s)(u := None)\<rparr>)"
proof -
  note w = heaps_ok_waiter [OF assms] and len = heaps_ok_lengths [OF assms(1)]
  let ?t = "(close_waiter i s)\<lparr>waiters := (waiters s)(u := None)\<rparr>"
  have t: "chans ?t = (chans s)[i := (chans s ! i)\<lparr>ch_closed := True\<rparr>]"
      "waiter_heap ?t = (waiter_heap s)[i := (waiter_heap s ! i)\<lparr>w_closed := True\<rparr>]"
      "waiters ?t = (waiters s)(u := None)" "handed ?t = handed s"
    by (simp_all add: close_waiter_def w(5) Let_def)
  show ?thesis
  proof (rule heaps_okI)
    fix j assume j: "j < length (chans ?t)"
    then have j': "j < length (chans s)" by (simp add: t)
    note old = heaps_okD [OF assms(1) j']
    show "w_ch (waiter_heap ?t ! j) = j"
      unfolding t using old(1) len j' by (cases "j = i") simp_all
    show "w_closed (waiter_heap ?t ! j) = ch_closed (chans ?t ! j)"
      unfolding t using old(2) len j' by (cases "j = i") simp_all
    show "ch_closed (chans ?t ! j) \<longleftrightarrow> waiters ?t (handed ?t ! j) \<noteq> Some j"
      unfolding t using old(3) j' w(2) assms(2) by (cases "j = i") auto
    show "o_BuyOrderUUID x = handed ?t ! j" if "buf (chans ?t ! j) = Some x" for x
      using that old(4) j' unfolding t by (cases "j = i") (simp_all add: nth_list_update)
  next
    show "j < length (chans ?t) \<and> handed ?t ! j = v" if "waiters ?t v = Some j" for v j
      using that heaps_ok_waiter [OF assms(1), of v j] unfolding t by (simp split: if_splits)
  qed (simp_all add: t len)
qed

text \<open>\<open>Register\<close> is \<open>Unregister\<close> followed by a fresh waiter.\<close>

definition fresh_waiter :: "string \<Rightarrow> SettlementDispatcher \<Rightarrow> SettlementDispatcher" where
  "fresh_waiter u t = t\<lparr>chans := chans t @ [\<lparr>buf = None, ch_closed = False\<rparr>],
     waiter_heap := waiter_heap t @ [\<lparr>w_ch = length (chans t), w_closed = False\<rparr>],
     waiters := (waiters t)(u \<mapsto> length (waiter_heap t)), handed := handed t @ [u]\<rparr>"

lemma Register_eq: "snd (Register u s) = fresh_waiter u (Unregister u s)"
  by (simp add: Register_def Unregister_def fresh_waiter_def close_waiter_def Let_def split: option.split)

lemma heaps_ok_fresh:
  assumes "heaps_ok t" and "waiters t u = None"
  shows "heaps_ok (fresh_waiter u t)"
  using assms unfolding heaps_ok_def fresh_waiter_def
  by (auto simp: nth_append less_Suc_eq)

lemma Unregister_inv:
  assumes "sd_inv s"
  shows "sd_inv (Unregister u s)" and "waiters (Unregister u s) u = None"
proof -
  show "sd_inv (Unregister u s)"
  proof (cases "waiters s u")
    case None
    then show ?thesis using assms by (simp add: Unregister_def)
  next
    case (Some i)
    let ?t = "(close_waiter i s)\<lparr>waiters := (waiters s)(u := None)\<rparr>"
    have "heaps_ok ?t" using assms Some by (simp add: sd_inv_def heaps_ok_unregister)
    moreover have "place_ok (pc s) ?t \<longleftrightarrow> place_ok (pc s) s"
      by (rule place_ok_cong) (simp_all add: close_waiter_def Let_def)
    ultimately show ?thesis
      using assms Some by (simp add: Unregister_def sd_inv_def close_waiter_def Let_def)
  qed
  show "waiters (Unregister u s) u = None" by (simp add: Unregister_def split: option.split)
qed

lemma Register_inv: "sd_inv s \<Longrightarrow> sd_inv (snd (Register u s))"
proof -
  assume "sd_inv s"
  let ?t = "Unregister u s"
  have t: "heaps_ok ?t" "place_ok (pc ?t) ?t" "waiters ?t u = None"
    using Unregister_inv [OF \<open>sd_inv s\<close>] by (simp_all add: sd_inv_def)
  have "place_ok (pc ?t) (fresh_waiter u ?t)"
    using t(2) heaps_ok_lengths(2) [OF t(1)] by (rule place_ok_more) (simp_all add: fresh_waiter_def)
  then show ?thesis
    using heaps_ok_fresh [OF t(1,3)] by (simp add: Register_eq sd_inv_def fresh_waiter_def)
qed

lemma take_order_inv: "sd_inv s \<Longrightarrow> i < length (chans s) \<Longrightarrow> sd_inv (take_order i s)"
proof -
  assume s: "sd_inv s" and i: "i < length (chans s)"
  have "heaps_ok (take_order i s)"
    using s i unfolding sd_inv_def heaps_ok_def take_order_def by (auto simp: nth_list_update)
  moreover have "place_ok (pc s) (take_order i s) \<longleftrightarrow> place_ok (pc s) s"
    by (rule place_ok_cong) (simp_all add: take_order_def)
  ultimately show ?thesis using s by (simp add: sd_inv_def take_order_def)
qed

lemma deliver_send_inv:
  assumes "heaps_ok s" and "i < length (chans s)" and "handed s ! i = o_BuyOrderUUID x"
  shows "sd_inv (deliver_send x d i s)"
proof -
  let ?c = "chans s ! i"
  have k: "w_ch (waiter_heap s ! i) = i" using heaps_okD(1) [OF assms(1,2)] .
  have "heaps_ok (s\<lparr>chans := (chans s)[i := ?c\<lparr>buf := Some x\<rparr>]\<rparr>)"
    using assms unfolding heaps_ok_def by (auto simp: nth_list_update)
  then have "sd_inv (answer_with Ack (s\<lparr>chans := (chans s)[i := ?c\<lparr>buf := Some x\<rparr>]\<rparr>))"
    by (auto simp: sd_inv_def answer_with_def heaps_ok_def)
  moreover have "sd_inv (s\<lparr>pc := Panicked\<rparr>)" "sd_inv (go_to_sleep x d s)"
    using assms(1) by (simp_all add: sd_inv_def go_to_sleep_def heaps_ok_def)
  ultimately show ?thesis by (simp add: deliver_send_def k Let_def split: option.split)
qed

lemma deliver_inv:
  assumes "sd_inv s" and "pc s = p" and "deliver p s = Some t"
  shows "sd_inv t"
  using assms
proof (cases "(p, s)" rule: deliver.cases)
  case (1 x d s')
  have "place_ok (Looked x d (waiters s (o_BuyOrderUUID x))) s"
    using assms(1) heaps_ok_waiter(1,2) [of s "o_BuyOrderUUID x"]
    by (cases "waiters s (o_BuyOrderUUID x)") (simp_all add: sd_inv_def)
  then show ?thesis
    using assms 1 by (auto simp: sd_inv_def answer_with_def split: if_splits)
next
  case (4 x d i s')
  then have "heaps_ok s" "i < length (chans s)" "handed s ! i = o_BuyOrderUUID x"
    using assms by (simp_all add: sd_inv_def)
  then have "sd_inv (deliver_send x d i s)" by (rule deliver_send_inv)
  then show ?thesis using assms 4 by simp
qed (auto simp: answer_with_def go_to_sleep_def sd_inv_def split: if_splits)

lemma runOnce_inv:
  assumes "sd_inv s" and "runOnce s = Some t"
  shows "sd_inv t"
proof (cases "pc s = Receiving")
  case True
  then show ?thesis using assms
    by (auto simp: runOnce_def receive_delivery_def answer_with_def sd_inv_def
        split: list.splits option.splits)
next
  case False
  then have "deliver (pc s) s = Some t" using assms(2) by (auto simp: runOnce_def split: place.splits)
  then show ?thesis using assms(1) deliver_inv by blast
qed

lemma sd_step_inv: "sd_step s t \<Longrightarrow> sd_inv s \<Longrightarrow> sd_inv t"
proof (induction rule: sd_step.induct)
  case (arrive s body)
  then show ?case by (simp add: sd_inv_def)
next
  case (pass d s)
  then show ?case by (simp add: sd_inv_def)
qed (auto intro: runOnce_inv Register_inv Unregister_inv take_order_inv)

lemma sd_reachable_inv: "sd_reachable s \<Longrightarrow> sd_inv s"
proof (induction rule: sd_reachable.induct)
  case (start t)
  show ?case by (simp add: sd_inv_def heaps_ok_def NewSettlementDispatcher_def)
next
  case (further s t)
  then show ?case using sd_step_inv by blast
qed

section \<open>Routing\<close>

lemma reachable_consume: "sd_reachable s \<Longrightarrow> runOnce s \<noteq> None \<Longrightarrow> sd_reachable (the (runOnce s))"
  using sd_reachable.further sd_step.consume by (metis option.exhaust_sel)

lemmas reachable_steps =
  sd_reachable.further [OF _ sd_step.register] sd_reachable.further [OF _ sd_step.unregister]
  sd_reachable.further [OF _ sd_step.arrive] sd_reachable.further [OF _ sd_step.pass]

definition settled_body :: "json option" where
  "settled_body = Some (JObj [(''buy_order_uuid'', JStr ''u1''), (''status'', JStr ''processed'')])"

definition settled_order :: BuyOrder where
  "settled_order = zero_BuyOrder\<lparr>o_BuyOrderUUID := ''u1'', o_Status := ''processed''\<rparr>"

definition waiting :: SettlementDispatcher where
  "waiting = (let s = snd (Register ''u1'' (NewSettlementDispatcher 0)) in s\<lparr>inbox := [settled_body]\<rparr>)"

text \<open>The consumer has received the order, and has found its waiter.\<close>

definition delivering :: SettlementDispatcher where "delivering = the (runOnce waiting)"
definition found :: SettlementDispatcher where "found = the (runOnce (the (runOnce delivering)))"
definition handed_over :: SettlementDispatcher where "handed_over = the (runOnce found)"

lemma waiting_reachable: "sd_reachable waiting"
  using reachable_steps(3) [OF reachable_steps(1) [OF sd_reachable.start [of 0], of "''u1''"], of settled_body]
  by (simp add: waiting_def Let_def Register_def NewSettlementDispatcher_def)

lemma delivering_reachable: "sd_reachable delivering"
proof -
  have "runOnce waiting \<noteq> None" by code_simp
  then show ?thesis unfolding delivering_def by (rule reachable_consume [OF waiting_reachable])
qed

lemma found_reachable: "sd_reachable found"
proof -
  have "runOnce delivering \<noteq> None" "runOnce (the (runOnce delivering)) \<noteq> None" by code_simp+
  then show ?thesis
    unfolding found_def by (intro reachable_consume delivering_reachable)
qed

lemma handed_over_reachable: "sd_reachable handed_over"
proof -
  have "runOnce found \<noteq> None" by code_simp
  then show ?thesis unfolding handed_over_def by (rule reachable_consume [OF found_reachable])
qed

text \<open>
  C9: however deliveries, registrations and streams interleave, what a channel of the dispatcher
  holds is the settlement of the UUID the channel was made for, and the channel is open exactly as
  long as it is the one registered for that UUID: no stream gets another order's settlement, and
  none is left on an open channel that no settlement can reach.
\<close>

theorem settlement_routing:
  assumes "sd_reachable s" and "i < length (chans s)"
  shows "(buf (chans s ! i) = Some x \<longrightarrow> o_BuyOrderUUID x = handed s ! i)
    \<and> (ch_closed (chans s ! i) \<longleftrightarrow>
         \<not> (\<exists>k. waiters s (handed s ! i) = Some k \<and> w_ch (waiter_heap s ! k) = i))"
proof -
  have ok: "heaps_ok s" using sd_reachable_inv [OF assms(1)] by (simp add: sd_inv_def)
  note i = heaps_okD [OF ok assms(2)]
  show ?thesis using i(1,3,4) heaps_ok_waiter(5) [OF ok, of "handed s ! i"] by auto
qed

theorem settlement_routing_witness:
  "o_BuyOrderUUID settled_order = ''u1'' \<and> \<not> ch_closed (chans handed_over ! 0)"
proof -
  have "0 < length (chans handed_over)" "buf (chans handed_over ! 0) = Some settled_order"
      "handed handed_over ! 0 = ''u1''" "waiters handed_over ''u1'' = Some 0"
      "w_ch (waiter_heap handed_over ! 0) = 0"
    by code_simp+
  then show ?thesis
    using settlement_routing [OF handed_over_reachable, of 0 settled_order] by auto
qed

text \<open>
  C22: A settlement whose stream is registered by the time \<open>deliver\<close> looks, within
  its 500 ms, and has not been sent one already, is in that stream's channel three steps of the
  consumer later, and the delivery is acknowledged, if no stream registers or unregisters between
  these steps.
\<close>

theorem settlement_delivered:
  assumes "sd_reachable s" and "pc s = Loop x d" and "now_ms s < d"
    and "waiters s (o_BuyOrderUUID x) = Some i" and "buf (chans s ! i) = None"
  shows "\<exists>t. Option.bind (Option.bind (runOnce s) runOnce) runOnce = Some t
    \<and> buf (chans t ! i) = Some x \<and> pc t = Receiving \<and> answers t = answers s @ [Ack]"
proof -
  have ok: "heaps_ok s" using sd_reachable_inv [OF assms(1)] by (simp add: sd_inv_def)
  note i = heaps_ok_waiter [OF ok assms(4)]
  let ?s2 = "s\<lparr>pc := Sending x d i, lookups := lookups s + 1\<rparr>"
  have "Option.bind (runOnce s) runOnce = Some ?s2"
    using assms i by (simp add: runOnce_def)
  then show ?thesis
    using assms i by (simp add: runOnce_def deliver_send_def answer_with_def Let_def)
qed

theorem settlement_delivered_witness:
  "\<exists>t. Option.bind (Option.bind (runOnce delivering) runOnce) runOnce = Some t
    \<and> buf (chans t ! 0) = Some settled_order \<and> pc t = Receiving \<and> answers t = answers delivering @ [Ack]"
proof -
  have "pc delivering = Loop settled_order 500" "now_ms delivering < 500"
      "waiters delivering (o_BuyOrderUUID settled_order) = Some 0" "buf (chans delivering ! 0) = None"
    by code_simp+
  then show ?thesis by (rule settlement_delivered [OF delivering_reachable])
qed

text \<open>
  C24: the dispatcher can panic. \<open>deliver\<close> tests \<open>closed\<close> and sends outside of the lock, so a stream
  that unregisters in between (it timed out, or its client went away) closes the channel that the
  consumer then sends on.
\<close>

theorem settlement_can_panic: "\<exists>s. sd_reachable s \<and> pc s = Panicked"
proof -
  let ?s = "the (runOnce (Unregister ''u1'' found))"
  have "runOnce (Unregister ''u1'' found) \<noteq> None" "pc ?s = Panicked" by code_simp+
  moreover from this have "sd_reachable ?s"
    by (intro reachable_consume reachable_steps found_reachable)
  ultimately show ?thesis by blast
qed

section \<open>Termination\<close>

text \<open>What is left of a \<open>deliver\<close>, from its place and the lookups it has made.\<close>

fun rank :: "place \<Rightarrow> nat \<Rightarrow> nat" where
  "rank (Loop x d) n = 4 * (10 - n) + 1"
| "rank (Looked x d w) n = 4 * (10 - n) + 4"
| "rank (Sending x d i) n = 4 * (10 - n) + 3"
| "rank (Sleeping x d w) n = 4 * (10 - n) + 2"
| "rank Receiving n = 0"
| "rank Panicked n = 0"

definition deliver_rank :: "SettlementDispatcher \<Rightarrow> nat" where
  "deliver_rank s = rank (pc s) (lookups s)"

text \<open>Each lookup comes 50 ms after the one before it.\<close>

fun timely :: "place \<Rightarrow> nat \<Rightarrow> int \<Rightarrow> bool" where
  "timely (Loop x d) n t \<longleftrightarrow> d - 500 + 50 * int n \<le> t \<and> n \<le> 10"
| "timely (Looked x d w) n t \<longleftrightarrow> d - 550 + 50 * int n \<le> t \<and> 1 \<le> n \<and> n \<le> 10"
| "timely (Sending x d i) n t \<longleftrightarrow> d - 550 + 50 * int n \<le> t \<and> 1 \<le> n \<and> n \<le> 10"
| "timely (Sleeping x d w) n t \<longleftrightarrow> d - 500 + 50 * int n \<le> w \<and> w \<le> t + 50 \<and> 1 \<le> n \<and> n \<le> 10"
| "timely p n t \<longleftrightarrow> True"

definition time_inv :: "SettlementDispatcher \<Rightarrow> bool" where
  "time_inv s \<longleftrightarrow> timely (pc s) (lookups s) (now_ms s)"

lemma timely_later: "timely p n t \<Longrightarrow> t \<le> u \<Longrightarrow> timely p n u"
  by (cases "(p, n, t)" rule: timely.cases) auto

lemma deliver_timely:
  assumes "time_inv s" and "pc s = p" and "deliver p s = Some t"
  shows "time_inv t \<and> deliver_rank t < deliver_rank s"
  using assms
  by (cases "(p, s)" rule: deliver.cases)
    (auto simp: time_inv_def deliver_rank_def answer_with_def go_to_sleep_def deliver_send_def Let_def
      split: if_splits option.splits)

lemma runOnce_timely:
  assumes "time_inv s" and "runOnce s = Some t"
  shows "time_inv t \<and> (pc s \<noteq> Receiving \<longrightarrow> deliver_rank t < deliver_rank s)"
proof (cases "pc s = Receiving")
  case True
  then show ?thesis using assms
    by (auto simp: runOnce_def receive_delivery_def answer_with_def time_inv_def
        split: list.splits option.splits)
next
  case False
  then have "deliver (pc s) s = Some t" using assms(2) by (auto simp: runOnce_def split: place.splits)
  then show ?thesis using deliver_timely [OF assms(1) refl] by blast
qed

text \<open>The streams do not touch the consumer's place and counter.\<close>

lemma Unregister_frame [simp]:
  "pc (Unregister u s) = pc s" "lookups (Unregister u s) = lookups s" "now_ms (Unregister u s) = now_ms s"
  by (simp_all add: Unregister_def close_waiter_def Let_def split: option.split)

lemma Register_frame [simp]:
  "pc (snd (Register u s)) = pc s" "lookups (snd (Register u s)) = lookups s"
  "now_ms (snd (Register u s)) = now_ms s"
  by (simp_all add: Register_eq fresh_waiter_def)

lemma take_order_frame [simp]:
  "pc (take_order i s) = pc s" "lookups (take_order i s) = lookups s" "now_ms (take_order i s) = now_ms s"
  by (simp_all add: take_order_def)

lemma sd_step_timely:
  assumes "sd_step s t" and "time_inv s"
  shows "time_inv t \<and> (pc s \<noteq> Receiving \<longrightarrow> runOnce s = Some t \<and> deliver_rank t < deliver_rank s
    \<or> pc t = pc s \<and> deliver_rank t = deliver_rank s)"
  using assms
proof (induction rule: sd_step.induct)
  case (consume s t)
  then show ?case using runOnce_timely by blast
next
  case (pass d s)
  then show ?case using timely_later [of "pc s" "lookups s" "now_ms s" "now_ms s + d"]
    by (simp add: time_inv_def deliver_rank_def)
qed (simp_all add: time_inv_def deliver_rank_def)

lemma sd_reachable_timely: "sd_reachable s \<Longrightarrow> time_inv s"
proof (induction rule: sd_reachable.induct)
  case (start t)
  show ?case by (simp add: time_inv_def NewSettlementDispatcher_def)
next
  case (further s t)
  then show ?case using sd_step_timely by blast
qed

text \<open>
  C21: \<open>deliver\<close> returns or panics. At most 41 steps of the consumer are left at any
  time, each step it takes leaves fewer, nothing the streams do adds any, and it is only ever
  blocked asleep, for 50 ms at most, or for good by the panic of a send on a closed channel.
\<close>

theorem deliver_terminates:
  assumes "sd_reachable s" and "pc s \<noteq> Receiving"
  shows "deliver_rank s \<le> 41
    \<and> (\<forall>t. sd_step s t \<longrightarrow> deliver_rank t < deliver_rank s \<or> pc t = pc s \<and> deliver_rank t = deliver_rank s)
    \<and> (runOnce s = None \<longrightarrow> pc s = Panicked
         \<or> (\<exists>x d w. pc s = Sleeping x d w \<and> now_ms s < w \<and> w \<le> now_ms s + 50))"
proof (intro conjI allI impI)
  have t: "time_inv s" using sd_reachable_timely [OF assms(1)] .
  show "deliver_rank s \<le> 41"
    using t by (cases "(pc s, lookups s, now_ms s)" rule: timely.cases)
      (auto simp: time_inv_def deliver_rank_def)
  show "deliver_rank u < deliver_rank s \<or> pc u = pc s \<and> deliver_rank u = deliver_rank s"
    if "sd_step s u" for u using sd_step_timely [OF that t] assms(2) by blast
  show "pc s = Panicked \<or> (\<exists>x d w. pc s = Sleeping x d w \<and> now_ms s < w \<and> w \<le> now_ms s + 50)"
    if "runOnce s = None"
    using t that assms(2)
    by (cases "(pc s, s)" rule: deliver.cases) (auto simp: runOnce_def time_inv_def split: if_splits)
qed

theorem deliver_terminates_witness:
  "deliver_rank delivering \<le> 41 \<and> runOnce delivering \<noteq> None"
proof -
  have "pc delivering \<noteq> Receiving" "pc delivering = Loop settled_order 500" by code_simp+
  then show ?thesis using deliver_terminates [OF delivering_reachable] by auto
qed

section \<open>Formats\<close>

text \<open>
  The dispatcher reads the order the broker settled: a published result with a UUID and a
  total below the \<open>float32\<close> range is decoded to its order.
\<close>

theorem settlement_reads_result:
  assumes "publishResult_ok r" and "o_BuyOrderUUID (pr_Order r) \<noteq> []"
    and "pr_TotalCost r = Fin c" and "\<bar>c\<bar> < 2 ^ 128 - 2 ^ 103"
  shows "decode_delivery (enc_publishResult r) = Some (pr_Order r)"
proof -
  obtain ord where ord: "enc_BuyOrder (pr_Order r) = Some ord" "dec_BuyOrder ord = Some (pr_Order r)"
    using dec_enc_BuyOrder assms(1) by (auto simp: publishResult_ok_def)
  obtain ms where ms: "enc_list enc_OrderItem (pr_Items r) = Some ms"
    using dec_enc_list [of "pr_Items r" enc_OrderItem dec_OrderItem] dec_enc_OrderItem assms(1)
    by (auto simp: publishResult_ok_def)
  then have "is_array ms" by (auto simp: enc_list_def split: if_splits)
  then show ?thesis
    using ord ms assms(2-4)
    by (simp add: enc_publishResult_def decode_delivery_def decode_result_def jfield_def)
qed

theorem settlement_reads_result_witness:
  "decode_delivery (enc_publishResult sample_result) = Some (pr_Order sample_result)"
proof -
  have "publishResult_ok sample_result" "o_BuyOrderUUID (pr_Order sample_result) \<noteq> []"
      "pr_TotalCost sample_result = Fin 0"
    by (simp_all add: publishResult_ok_def sample_result_def BuyOrder_ok_def Bread_ok_def OrderItem_ok_def
        zero_BuyOrder_def zero_Bread_def zero_Customer_def is_int64_def zero_f64_def)
  then show ?thesis by (rule settlement_reads_result) simp
qed

text \<open>
  What the server puts into the outbox is another format: published as it is, it would be read as
  an order without a UUID, which no stream waits for.
\<close>

lemma dec_BuyOrder_foreign:
  assumes "set (map fst fs) \<inter> {''id'', ''customer_id'', ''buy_order_uuid'', ''customer'', ''breads'',
      ''status'', ''sequence_number'', ''bid_price'', ''allow_partial'', ''skip_unavailable_items'',
      ''matched_items'', ''created_at'', ''updated_at''} = {}"
  shows "dec_BuyOrder (JObj fs) = Some zero_BuyOrder"
proof -
  have "jfield k fs = JNull" if "k \<notin> fst ` set fs" for k
    using that by (simp add: jfield_def map_of_eq_None_iff split: option.split)
      (metis map_of_eq_None_iff option.distinct(1) set_rev)
  moreover have "k \<notin> fst ` set fs" if "k \<in> {''id'', ''customer_id'', ''buy_order_uuid'', ''customer'', ''breads'',
      ''status'', ''sequence_number'', ''bid_price'', ''allow_partial'', ''skip_unavailable_items'',
      ''matched_items'', ''created_at'', ''updated_at''}" for k
    using assms that by (simp only: set_map) blast
  ultimately have null: "jfield k fs = JNull" if "k \<in> {''id'', ''customer_id'', ''buy_order_uuid'', ''customer'', ''breads'',
      ''status'', ''sequence_number'', ''bid_price'', ''allow_partial'', ''skip_unavailable_items'',
      ''matched_items'', ''created_at'', ''updated_at''}" for k
    using that by blast
  have "jfield ''id'' fs = JNull" "jfield ''customer_id'' fs = JNull" "jfield ''buy_order_uuid'' fs = JNull"
      "jfield ''customer'' fs = JNull" "jfield ''breads'' fs = JNull" "jfield ''status'' fs = JNull"
      "jfield ''sequence_number'' fs = JNull" "jfield ''bid_price'' fs = JNull"
      "jfield ''allow_partial'' fs = JNull" "jfield ''skip_unavailable_items'' fs = JNull"
      "jfield ''matched_items'' fs = JNull" "jfield ''created_at'' fs = JNull" "jfield ''updated_at'' fs = JNull"
    by (rule null; simp)+
  moreover have "jfield k [] = JNull" for k by (simp add: jfield_def)
  ultimately show ?thesis
    by (simp add: dec_BuyOrder_def dec_Customer_def zero_BuyOrder_def zero_Customer_def)
qed

lemma outbox_payload_has_no_uuid:
  "map_option o_BuyOrderUUID (decode_delivery (Some (matchingResultToPayload r))) = Some []"
proof -
  have "dec_BuyOrder (matchingResultToPayload r) = Some zero_BuyOrder"
    unfolding matchingResultToPayload_def by (auto split: option.split intro!: dec_BuyOrder_foreign)
  moreover have "decode_result (matchingResultToPayload r) = Some x \<Longrightarrow> x = zero_BuyOrder" for x
    by (auto simp: decode_result_def matchingResultToPayload_def jfield_def dec_BuyOrder_def
        dec_Customer_def zero_BuyOrder_def zero_Customer_def split: option.splits if_splits)
  ultimately show ?thesis
    by (auto simp: decode_delivery_def zero_BuyOrder_def split: option.split)
qed

end
