(* ===== verification/Bakery.thy ===== *)
theory Bakery
  imports Wire Settlement
begin

text \<open>
  \<open>server/gRPCBakery.go\<close>: the public services of the bakery. Orders and bread notices go to
  RabbitMQ, inventory and orders are read from the database, and settled orders come back through
  the dispatcher.
\<close>

record BreadRequest =
  req_Breads :: "pbBread list"
  req_BuyOrderUuid :: string
  Preferences :: "(f64 \<times> bool \<times> bool) option" \<comment> \<open>bid price, allow partial, skip unavailable\<close>

record BreadResponse =
  rsp_Message :: string
  rsp_Breads :: "pbBread list option"
  rsp_BuyOrderId :: int
  rsp_BuyOrderUuid :: string

definition bread_response :: "pbBread list \<Rightarrow> BreadResponse" where
  "bread_response bs = \<lparr>rsp_Message = [], rsp_Breads = Some bs, rsp_BuyOrderId = 0, rsp_BuyOrderUuid = []\<rparr>"

section \<open>Notices about bread\<close>

text \<open>
  The three methods that announce bread share their loop: each bread is marshalled and published in
  turn, and the first failure ends the call; what was published stays published.
  \<open>SendBreadToBakery\<close> sets the status of a bread after it has marshalled it.
\<close>

definition announce :: "string \<Rightarrow> (pbBread \<Rightarrow> pbBread) \<Rightarrow> pbBread list \<Rightarrow> (bakery, code, BreadResponse) proc" where
  "announce queue mark breads = with_channel
     (seq (for_each (\<lambda>bread made.
        case enc_pbBread bread of
          None \<Rightarrow> fail Internal
        | Some breadData \<Rightarrow>
            attempt (Publish queue breadData) (\<lambda>err. fail Internal) (\<lambda>_. ret (made @ [mark bread])))
        breads []) (\<lambda>made. ret (bread_response made)))"

definition BakeBread :: "BreadRequest \<Rightarrow> (bakery, code, BreadResponse) proc" where
  "BakeBread req = announce ''bread-to-make'' id (req_Breads req)"

definition SendBreadToBakery :: "BreadRequest \<Rightarrow> (bakery, code, BreadResponse) proc" where
  "SendBreadToBakery req =
     announce ''bread-in-bakery'' (\<lambda>b. b\<lparr>bd_Status := ''bread ready to consume''\<rparr>) (req_Breads req)"

definition RemoveBread :: "BreadRequest \<Rightarrow> (bakery, code, BreadResponse) proc" where
  "RemoveBread req = announce ''bread-removed'' id (req_Breads req)"

section \<open>Streams of bread\<close>

text \<open>
  A consumer that forwards deliveries to a gRPC stream: what was sent to the client, how each
  delivery was answered, and which of its next operations (sends and answers) fail.
\<close>

datatype settle = Acked | Requeued

record stream =
  responses :: "pbBread list list"
  settled :: "settle list"
  send_fails :: "bool list"

definition stream_op :: "(stream \<Rightarrow> stream) \<Rightarrow> (stream, code, unit) proc" where
  "stream_op f st = (case send_fails st of
     [] \<Rightarrow> (Inr (), f st)
   | x # xs \<Rightarrow> if x then (Inl Unavailable, st\<lparr>send_fails := xs\<rparr>) else (Inr (), f (st\<lparr>send_fails := xs\<rparr>)))"

definition Send :: "pbBread list \<Rightarrow> (stream, code, unit) proc" where
  "Send r = stream_op (\<lambda>st. st\<lparr>responses := responses st @ [r]\<rparr>)"

definition settle :: "settle \<Rightarrow> (stream, code, unit) proc" where
  "settle a = stream_op (\<lambda>st. st\<lparr>settled := settled st @ [a]\<rparr>)"

text \<open>
  \<open>MadeBreadStream\<close>, from the deliveries on: every response repeats the breads before it. A delivery
  that cannot be read or sent is put back; after a failed send the error returned is the
  \<open>Nack\<close>'s, which shadows the one of the send, so that the method ends without an error.
\<close>

fun made_bread_loop :: "json option list \<Rightarrow> pbBread list \<Rightarrow> (stream, code, unit) proc" where
  "made_bread_loop [] delivered = ret ()"
| "made_bread_loop (body # rest) delivered =
     (case Option.bind body dec_pbBread of
        None \<Rightarrow> seq (settle Requeued) (\<lambda>_. fail Internal)
      | Some bread \<Rightarrow>
          attempt (Send (delivered @ [bread]))
            (\<lambda>err. settle Requeued)
            (\<lambda>_. seq (settle Acked) (\<lambda>_. made_bread_loop rest (delivered @ [bread]))))"

definition MadeBreadStream :: "json option list \<Rightarrow> (stream, code, unit) proc" where
  "MadeBreadStream msgs = made_bread_loop msgs []"

text \<open>\<open>RemoveBreadStream\<close>: one bread per response; a delivery that fails is not answered at all.\<close>

fun RemoveBreadStream :: "json option list \<Rightarrow> (stream, code, unit) proc" where
  "RemoveBreadStream [] = ret ()"
| "RemoveBreadStream (body # rest) =
     (case Option.bind body dec_pbBread of
        None \<Rightarrow> fail Internal
      | Some bread \<Rightarrow>
          seq (Send [bread]) (\<lambda>_. seq (settle Acked) (\<lambda>_. RemoveBreadStream rest)))"

section \<open>Inventory\<close>

definition CheckBreadInventory :: "(db, code, BreadResponse) proc" where
  "CheckBreadInventory =
     attempt GetAvailableBread (\<lambda>err. fail Unknown)
       (\<lambda>breads. if breads = [] then fail NotFound else ret (bread_response (map bread_to_pb breads)))"

text \<open>
  The stream sends the inventory, one bread per response, every 15 seconds, until an error. One
  round, and the first \<open>n\<close> rounds (the database at the beginning of each is given: others use it
  meanwhile); \<open>None\<close> says that the method is still running.
\<close>

definition inventory_round :: "db \<Rightarrow> (stream, code, unit) proc" where
  "inventory_round s =
     (case fst (GetAvailableBread s) of
        Inl err \<Rightarrow> fail Unknown
      | Inr breads \<Rightarrow> if breads = [] then fail NotFound
          else for_each (\<lambda>bread _. Send [bread_to_pb bread]) breads ())"

fun CheckBreadInventoryStream :: "db list \<Rightarrow> stream \<Rightarrow> (code + unit) option \<times> stream" where
  "CheckBreadInventoryStream [] st = (None, st)"
| "CheckBreadInventoryStream (s # rest) st =
     (case inventory_round s st of
        (Inl err, st1) \<Rightarrow> (Some (Inl err), st1)
      | (Inr _, st1) \<Rightarrow> CheckBreadInventoryStream rest st1)"

section \<open>Buying\<close>

text \<open>\<open>orderSequence.Add(1)\<close>.\<close>

definition next_sequence :: "(bakery, code, int) proc" where
  "next_sequence b = (let n = int64 (orderSequence b + 1) in (Inr n, b\<lparr>orderSequence := n\<rparr>))"

text \<open>
  The bread that goes into the order: the catalogue's, with the quantity asked for; when it cannot
  be read, what the client sent.
\<close>

definition order_bread :: "pbBread \<Rightarrow> (bakery, code, Bread) proc" where
  "order_bread bread =
     seq (query (\<lambda>b. now (bk_db b))) (\<lambda>t.
     attempt (bk_lift (GetBreadByID (bd_Id bread)))
       (\<lambda>err. ret \<lparr>b_ID = bd_Id bread, b_Name = bd_Name bread, b_Price = bd_Price bread,
          b_Quantity = bd_Quantity bread, b_CreatedAt = zero_time, b_UpdatedAt = t,
          b_Image = bd_Image bread, b_Description = [], b_Type = bd_Type bread, b_Status = ''Bought''\<rparr>)
       (\<lambda>breadDB. ret (breadDB\<lparr>b_Quantity := bd_Quantity bread, b_Status := ''Bought'', b_UpdatedAt := t\<rparr>)))"

definition add_bread :: "pbBread \<Rightarrow> Bread list \<Rightarrow> (bakery, code, Bread list) proc" where
  "add_bread bread breads = seq (order_bread bread) (\<lambda>b. ret (breads @ [b]))"

definition buyer :: "gctx \<Rightarrow> int" where
  "buyer ctx = (let i = GetCustomerIDFromContext ctx in if i = 0 then 1 else i)"

definition buy_order :: "string \<Rightarrow> gctx \<Rightarrow> BreadRequest \<Rightarrow> int \<Rightarrow> int \<Rightarrow> Bread list \<Rightarrow> BuyOrder" where
  "buy_order uuid ctx req n t breads = zero_BuyOrder
     \<lparr>o_BuyOrderUUID := (if req_BuyOrderUuid req \<noteq> [] then req_BuyOrderUuid req else uuid),
      o_SequenceNumber := n,
      o_BidPrice := (case Preferences req of Some (p, _, _) \<Rightarrow> p | None \<Rightarrow> 0),
      o_AllowPartial := (case Preferences req of Some (_, a, _) \<Rightarrow> a | None \<Rightarrow> False),
      o_SkipUnavailableItems := (case Preferences req of Some (_, _, k) \<Rightarrow> k | None \<Rightarrow> False),
      o_CustomerID := buyer ctx,
      o_Customer := zero_Customer\<lparr>c_ID := buyer ctx, c_CreatedAt := t\<rparr>,
      o_Breads := breads\<rparr>"

definition buy_response :: "BuyOrder \<Rightarrow> BreadResponse" where
  "buy_response buyOrder =
     \<lparr>rsp_Message = ''Bread buying process started, you'll receive the order that will be settled later. Buy order ID: ''
        @ Itoa (o_ID buyOrder),
      rsp_Breads = Some (map bread_to_pb_untimed (o_Breads buyOrder)),
      rsp_BuyOrderId = int32 (o_ID buyOrder), rsp_BuyOrderUuid = []\<rparr>"

text \<open>
  \<open>uuid\<close> is what \<open>uuid.NewString\<close> would give; \<open>cancelled\<close> whether the context is done when the
  order is about to be published.
\<close>

definition BuyBread :: "string \<Rightarrow> bool \<Rightarrow> gctx \<Rightarrow> BreadRequest \<Rightarrow> (bakery, code, BreadResponse) proc" where
  "BuyBread uuid cancelled ctx req = with_channel
     (seq next_sequence (\<lambda>n.
      seq (query (\<lambda>b. now (bk_db b))) (\<lambda>t.
      seq (for_each add_bread (req_Breads req) [])
        (\<lambda>breads.
          let buyOrder = buy_order uuid ctx req n t breads in
          case enc_BuyOrder buyOrder of
            None \<Rightarrow> fail Internal
          | Some orderData \<Rightarrow>
              if cancelled then fail Canceled
              else attempt (Publish ''buy-bread-order'' orderData) (\<lambda>err. fail Internal)
                     (\<lambda>_. ret (buy_response buyOrder))))))"

section \<open>Waiting for the settlement\<close>

text \<open>What ends the \<open>select\<close> of \<open>BuyBreadStream\<close>.\<close>

datatype wake = Settlement BuyOrder | ChannelClosed | ContextDone | TimedOut

text \<open>What the stream's channel gives it, when it gives anything.\<close>

definition channel_gives :: "nat \<Rightarrow> SettlementDispatcher \<Rightarrow> wake option" where
  "channel_gives c sd =
     (case buf (chans sd ! c) of
        Some ord \<Rightarrow> Some (Settlement ord)
      | None \<Rightarrow> if ch_closed (chans sd ! c) then Some ChannelClosed else None)"

definition fallbackGetSettledOrder :: "string \<Rightarrow> (db, code, BuyOrder option) proc" where
  "fallbackGetSettledOrder uuid =
     attempt (GetBuyOrderByUUID uuid) (\<lambda>err. ret None)
       (\<lambda>order. if o_Status order = ''Processed'' \<or> o_Status order = ''Failed'' then ret (Some order) else ret None)"

definition settled_response :: "BuyOrder \<Rightarrow> f64 \<Rightarrow> BreadResponse" where
  "settled_response order totalCost =
     \<lparr>rsp_Message = ''Order '' @ o_BuyOrderUUID order @ '' settled, total cost $'' @ Sprintf_2f totalCost,
      rsp_Breads = None, rsp_BuyOrderId = int32 (o_ID order), rsp_BuyOrderUuid = o_BuyOrderUUID order\<rparr>"

definition report_settlement :: "BuyOrder \<Rightarrow> (db, code, BreadResponse) proc" where
  "report_settlement order =
     attempt (GetOrderTotalCost (o_ID order)) (\<lambda>err. fail Internal)
       (\<lambda>totalCost. ret (settled_response order totalCost))"

text \<open>
  From the end of the \<open>select\<close> to the response it sends. (The stream registered before and
  unregisters after: \<open>Register\<close> and \<open>Unregister\<close> of the dispatcher.)
\<close>

definition BuyBreadStream :: "string \<Rightarrow> wake \<Rightarrow> (db, code, BreadResponse) proc" where
  "BuyBreadStream uuid w =
     (case w of
        Settlement order \<Rightarrow> report_settlement order
      | ChannelClosed \<Rightarrow> fail Internal
      | ContextDone \<Rightarrow> fail DeadlineExceeded
      | TimedOut \<Rightarrow> seq (fallbackGetSettledOrder uuid) (\<lambda>r. case r of
            None \<Rightarrow> fail DeadlineExceeded
          | Some order \<Rightarrow> report_settlement order))"

section \<open>Orders\<close>

text \<open>\<open>pb.BuyOrder\<close> as the order services fill it, and its details.\<close>

record pbOrder =
  po_Id :: int
  po_CustomerId :: int
  po_BuyOrderUuid :: string
  po_TotalCost :: f64
  po_Status :: string

record BuyOrderDetails =
  dt_BuyOrderId :: int
  dt_BuyOrderUuid :: string
  dt_BreadId :: int
  dt_Quantity :: int
  dt_Price :: f64
  dt_Status :: string
  dt_CreatedAt :: "int \<times> int"
  dt_UpdatedAt :: "int \<times> int"

definition bread_details :: "BuyOrder \<Rightarrow> string \<Rightarrow> Bread \<Rightarrow> BuyOrderDetails" where
  "bread_details order st b = \<lparr>dt_BuyOrderId = int32 (o_ID order), dt_BuyOrderUuid = o_BuyOrderUUID order,
     dt_BreadId = int32 (b_ID b), dt_Quantity = int32 (b_Quantity b), dt_Price = b_Price b, dt_Status = st,
     dt_CreatedAt = timestamp (o_CreatedAt order), dt_UpdatedAt = timestamp (o_UpdatedAt order)\<rparr>"

text \<open>
  The response of the two order methods. The slice of details is made with its final length and
  then appended to, so that it begins with as many nil pointers.
\<close>

record OrderListing =
  ls_Orders :: "pbOrder list"
  ls_Details :: "BuyOrderDetails option list"

definition order_listing :: "BuyOrder \<Rightarrow> f64 \<Rightarrow> OrderListing" where
  "order_listing order totalCost =
     \<lparr>ls_Orders = [\<lparr>po_Id = int32 (o_ID order), po_CustomerId = int32 (o_CustomerID order),
        po_BuyOrderUuid = o_BuyOrderUUID order, po_TotalCost = totalCost, po_Status = []\<rparr>],
      ls_Details = replicate (length (o_Breads order)) None
        @ map (\<lambda>b. Some (bread_details order (b_Status b) b)) (o_Breads order)\<rparr>"

definition BuyOrder_rpc :: "string \<Rightarrow> (db, code, OrderListing) proc" where
  "BuyOrder_rpc uuid =
     attempt (GetBuyOrderByUUID uuid) (\<lambda>err. fail Internal) (\<lambda>order.
     attempt (GetOrderTotalCost (o_ID order)) (\<lambda>err. fail Internal) (\<lambda>totalCost.
     ret (order_listing order totalCost)))"

text \<open>
  The stream: the listings it has sent, each to a client that may be gone, and the error it ends
  with, if any.
\<close>

fun send_listings :: "(OrderListing \<Rightarrow> bool) \<Rightarrow> BuyOrder list \<Rightarrow> OrderListing list
    \<Rightarrow> (db, code, OrderListing list \<times> code option) proc" where
  "send_listings arrives [] out = ret (out, None)"
| "send_listings arrives (order # rest) out =
     attempt (GetOrderTotalCost (o_ID order)) (\<lambda>err. ret (out, Some Internal)) (\<lambda>totalCost.
       let l = order_listing order totalCost
       in if arrives l then send_listings arrives rest (out @ [l]) else ret (out, Some Internal))"

definition BuyOrderStream ::
  "string \<Rightarrow> (OrderListing \<Rightarrow> bool) \<Rightarrow> (db, code, OrderListing list \<times> code option) proc" where
  "BuyOrderStream uuid arrives =
     attempt (if uuid \<noteq> [] then seq (GetBuyOrderByUUID uuid) (\<lambda>order. ret [order]) else GetAllBuyOrders)
       (\<lambda>err. ret ([], Some Internal)) (\<lambda>orders. send_listings arrives orders [])"

section \<open>What is published\<close>

lemma amqp_op_Inr: "amqp_op b = (Inr u, b') \<Longrightarrow> \<exists>gs. b' = b\<lparr>amqp := gs\<rparr>"
  by (cases "amqp b") (auto simp: amqp_op_def split: if_splits intro: exI [of _ "amqp b"])

lemma Publish_Inr: "Publish q j b = (Inr u, b') \<Longrightarrow> \<exists>gs. b' = b\<lparr>sent := sent b @ [(q, j)], amqp := gs\<rparr>"
  by (cases "amqp b")
    (auto simp: Publish_def Let_def split: fault.splits intro: exI [of _ "amqp b"])

lemma with_channel_Inr:
  assumes "with_channel body b = (Inr r, b')"
  shows "\<exists>gs. body (b\<lparr>amqp := gs\<rparr>) = (Inr r, b')"
proof -
  obtain u b1 where 1: "amqp_op b = (Inr u, b1)" and "seq amqp_op (\<lambda>_. body) b1 = (Inr r, b')"
    using seq_Inr [OF assms [unfolded with_channel_def]] by blast
  from seq_Inr [OF this(2)] obtain v b2 where 2: "amqp_op b1 = (Inr v, b2)" "body b2 = (Inr r, b')"
    by blast
  from amqp_op_Inr [OF 1] amqp_op_Inr [OF 2(1)] 2(2) show ?thesis by auto
qed

text \<open>The bread of an order, when the database answers.\<close>

definition catalogue :: "db \<Rightarrow> int \<Rightarrow> bread_row option" where
  "catalogue s i = find (\<lambda>r. br_id r = i) (bread_t s)"

definition ordered_as :: "db \<Rightarrow> pbBread \<Rightarrow> Bread \<Rightarrow> bool" where
  "ordered_as s bread b \<longleftrightarrow> b_ID b = bd_Id bread \<and> b_Quantity b = bd_Quantity bread
     \<and> b_Price b = (case catalogue s (bd_Id bread) of Some r \<Rightarrow> f64_of_numeric (br_price r) | None \<Rightarrow> bd_Price bread)"

lemma find_filter: "find P xs = (case filter P xs of [] \<Rightarrow> None | x # ys \<Rightarrow> Some x)"
  by (induction xs) auto

lemma GetBreadByID_calm:
  "faults s = [] \<Longrightarrow> GetBreadByID i s
    = (case catalogue s i of None \<Rightarrow> (Inl ErrNoRows, s) | Some r \<Rightarrow> (Inr (scan_bread r), s))"
  by (simp add: GetBreadByID_def seq_apply query_row_no_fault catalogue_def find_filter split: list.split)

lemma catalogue_id: "catalogue s i = Some r \<Longrightarrow> br_id r = i"
  by (auto simp: catalogue_def dest: find_SomeD)

lemma order_bread_calm:
  assumes "faults (bk_db b) = []"
  shows "\<exists>x. order_bread bread b = (Inr x, b) \<and> ordered_as (bk_db b) bread x"
  using assms catalogue_id [of "bk_db b" "bd_Id bread"]
  by (cases "catalogue (bk_db b) (bd_Id bread)")
    (auto simp: order_bread_def seq_apply attempt_apply bk_lift_def GetBreadByID_calm ordered_as_def scan_bread_def)

lemma order_breads_calm:
  assumes "faults (bk_db b) = []"
  shows "\<exists>xs. for_each add_bread reqs ys b = (Inr (ys @ xs), b)
    \<and> list_all2 (ordered_as (bk_db b)) reqs xs"
proof (induction reqs arbitrary: ys)
  case (Cons req reqs)
  obtain x where x: "order_bread req b = (Inr x, b)" "ordered_as (bk_db b) req x"
    using order_bread_calm [OF assms] by blast
  obtain xs where "for_each add_bread reqs (ys @ [x]) b
      = (Inr ((ys @ [x]) @ xs), b)" "list_all2 (ordered_as (bk_db b)) reqs xs"
    using Cons by blast
  moreover have "add_bread req ys b = (Inr (ys @ [x]), b)" using x(1) by (simp add: add_bread_def seq_apply)
  ultimately show ?case using x(2) by (intro exI [of _ "x # xs"]) (simp add: seq_apply)
qed simp

text \<open>
  C12: What a successful \<open>BuyBread\<close> publishes, when the database answers its lookups,
  is the order the customer placed: one message on buy-bread-order, with the request's UUID (a
  fresh one without it), the customer of the context (the first customer without one) and
  preferences, the next sequence number, and the breads and quantities asked for, in their order;
  a bread in the catalogue has the catalogue's price and not the client's, any other the price
  that the client sent; the database is only read.
\<close>

theorem BuyBread_publishes_order:
  assumes "BuyBread uuid cancelled ctx req b = (Inr r, b')" and "faults (bk_db b) = []"
  shows "\<exists>ord j. enc_BuyOrder ord = Some j \<and> sent b' = sent b @ [(''buy-bread-order'', j)]
    \<and> bk_db b' = bk_db b \<and> orderSequence b' = int64 (orderSequence b + 1)
    \<and> o_SequenceNumber ord = int64 (orderSequence b + 1)
    \<and> o_CustomerID ord = (if GetCustomerIDFromContext ctx = 0 then 1 else GetCustomerIDFromContext ctx)
    \<and> (case Preferences req of
          None \<Rightarrow> o_BidPrice ord = 0 \<and> \<not> o_AllowPartial ord \<and> \<not> o_SkipUnavailableItems ord
        | Some (p, a, k) \<Rightarrow> o_BidPrice ord = p \<and> o_AllowPartial ord = a \<and> o_SkipUnavailableItems ord = k)
    \<and> o_BuyOrderUUID ord = (if req_BuyOrderUuid req = [] then uuid else req_BuyOrderUuid req)
    \<and> list_all2 (ordered_as (bk_db b)) (req_Breads req) (o_Breads ord)"
proof -
  obtain gs where gs: "seq next_sequence (\<lambda>n. seq (query (\<lambda>b. now (bk_db b))) (\<lambda>t.
      seq (for_each add_bread (req_Breads req) [])
        (\<lambda>breads. let buyOrder = buy_order uuid ctx req n t breads in
          case enc_BuyOrder buyOrder of None \<Rightarrow> fail Internal
          | Some orderData \<Rightarrow> if cancelled then fail Canceled
              else attempt (Publish ''buy-bread-order'' orderData) (\<lambda>err. fail Internal)
                     (\<lambda>_. ret (buy_response buyOrder))))) (b\<lparr>amqp := gs\<rparr>) = (Inr r, b')"
    using with_channel_Inr [OF assms(1) [unfolded BuyBread_def]] by blast
  let ?n = "int64 (orderSequence b + 1)"
  let ?b = "b\<lparr>amqp := gs, orderSequence := ?n\<rparr>"
  obtain xs where xs: "for_each add_bread (req_Breads req) [] ?b
      = (Inr xs, ?b)" "list_all2 (ordered_as (bk_db b)) (req_Breads req) xs"
    using order_breads_calm [of ?b "req_Breads req" "[]"] assms(2) by auto
  let ?ord = "buy_order uuid ctx req ?n (now (bk_db b)) xs"
  obtain j where j: "enc_BuyOrder ?ord = Some j"
      "attempt (Publish ''buy-bread-order'' j) (\<lambda>err. fail Internal) (\<lambda>_. ret (buy_response ?ord)) ?b = (Inr r, b')"
    using gs xs(1) by (auto simp: seq_apply next_sequence_def Let_def split: option.splits if_splits)
  from j(2) have "\<exists>u. Publish ''buy-bread-order'' j ?b = (Inr u, b')"
    by (cases rule: attempt_cases) auto
  then obtain hs where "b' = ?b\<lparr>sent := sent ?b @ [(''buy-bread-order'', j)], amqp := hs\<rparr>"
    using Publish_Inr by blast
  then show ?thesis
    using j(1) xs(2) by (intro exI [of _ ?ord] exI [of _ j])
      (auto simp: buy_order_def buyer_def Let_def split: option.split)
qed

definition pb_of :: "int \<Rightarrow> int \<Rightarrow> pbBread" where
  "pb_of i q = \<lparr>bd_Id = i, bd_Name = ''roll'', bd_Price = 0, bd_Quantity = q, bd_Description = [],
     bd_Type = [], bd_Status = [], bd_CreatedAt = None, bd_UpdatedAt = None, bd_Image = []\<rparr>"

definition sample_request :: BreadRequest where
  "sample_request = \<lparr>req_Breads = [pb_of 1 2, pb_of 2 1], req_BuyOrderUuid = ''u7'', Preferences = None\<rparr>"

definition sample_bakery :: bakery where
  "sample_bakery = \<lparr>bk_db = sample_db, amqp = [NoFault], sent = [], orderSequence = 4\<rparr>"

theorem BuyBread_publishes_order_witness:
  "\<exists>ord j. enc_BuyOrder ord = Some j \<and> o_BuyOrderUUID ord = ''u7'' \<and> o_SequenceNumber ord = 5
    \<and> sent (snd (BuyBread ''v'' False (headers []) sample_request sample_bakery)) = [(''buy-bread-order'', j)]"
proof -
  let ?p = "BuyBread ''v'' False (headers []) sample_request sample_bakery"
  have ok: "isl (fst ?p) = False" by code_simp
  then obtain r where "fst ?p = Inr r" by (cases "fst ?p") simp_all
  then have p: "?p = (Inr r, snd ?p)" by (rule result_eq)
  have "faults (bk_db sample_bakery) = []" by code_simp
  from BuyBread_publishes_order [OF p this] obtain ord j where "enc_BuyOrder ord = Some j"
      "sent (snd ?p) = sent sample_bakery @ [(''buy-bread-order'', j)]"
      "o_SequenceNumber ord = int64 (orderSequence sample_bakery + 1)"
      "o_BuyOrderUUID ord = (if req_BuyOrderUuid sample_request = [] then ''v'' else req_BuyOrderUuid sample_request)"
    by blast
  then show ?thesis
    by (intro exI [of _ ord] exI [of _ j]) (simp add: sample_bakery_def sample_request_def is_int64_def)
qed

section \<open>From the order to its settlement\<close>

text \<open>
  The settlement a stream reports is its own: whatever the interleaving of streams and
  deliveries, when a channel made for a UUID ends the wait with an order, the response names that
  UUID.
\<close>

theorem stream_reports_own_order:
  assumes "sd_reachable sd" and "c < length (chans sd)" and "channel_gives c sd = Some w"
    and "BuyBreadStream (handed sd ! c) w s = (Inr r, t)"
  shows "rsp_BuyOrderUuid r = handed sd ! c"
proof -
  have ok: "heaps_ok sd" using sd_reachable_inv [OF assms(1)] by (simp add: sd_inv_def)
  obtain x where x: "buf (chans sd ! c) = Some x" "w = Settlement x"
    using assms(3,4) by (auto simp: channel_gives_def BuyBreadStream_def split: option.splits if_splits)
  then have "report_settlement x s = (Inr r, t)" using assms(4) by (simp add: BuyBreadStream_def)
  then have "rsp_BuyOrderUuid r = o_BuyOrderUUID x"
    unfolding report_settlement_def by (cases rule: attempt_cases) (auto simp: settled_response_def)
  then show ?thesis using heaps_okD(4) [OF ok assms(2) x(1)] by simp
qed

theorem stream_reports_own_order_witness:
  "map_sum id rsp_BuyOrderUuid (fst (BuyBreadStream ''u1'' (Settlement settled_order) sample_db)) = Inr ''u1''"
proof -
  let ?p = "BuyBreadStream ''u1'' (Settlement settled_order) sample_db"
  have "isl (fst ?p) = False" by code_simp
  then obtain r where r: "fst ?p = Inr r" by (cases "fst ?p") simp_all
  have "0 < length (chans handed_over)" "handed handed_over ! 0 = ''u1''"
      "channel_gives 0 handed_over = Some (Settlement settled_order)"
    by code_simp+
  moreover from this(2) have "BuyBreadStream (handed handed_over ! 0) (Settlement settled_order) sample_db = (Inr r, snd ?p)"
    using result_eq [OF r] by simp
  ultimately have "rsp_BuyOrderUuid r = ''u1''"
    using stream_reports_own_order [OF handed_over_reachable] by metis
  then show ?thesis by (simp add: r)
qed

lemma load_order_row:
  assumes "load_order P s = (Inr ord, t)"
  shows "\<exists>r \<in> set (buy_order_t s). o_Status ord = (if bo_status r = [] then ''processing'' else bo_status r)"
proof -
  obtain r u where r: "query_row (\<lambda>s. filter P (buy_order_t s)) s = (Inr r, u)"
      "seq (query_rows (details_of (bo_id r))) (\<lambda>(rows, broken). ret (scan_details rows (scan_order r))) u = (Inr ord, t)"
    using seq_Inr [OF assms [unfolded load_order_def]] by blast
  obtain rs where "filter P (buy_order_t s) = r # rs" using query_row_Inr [OF r(1)] by auto
  then have "r \<in> set (filter P (buy_order_t s))" by simp
  moreover have "o_Status (fold (\<lambda>d ord. ord\<lparr>o_CreatedAt := od_created_at d, o_UpdatedAt := od_updated_at d\<rparr>) rows x) = o_Status x" for rows x
    by (induction rows arbitrary: x) simp_all
  then have "o_Status ord = o_Status (scan_order r)"
    using seq_Inr [OF r(2)] by (auto simp: scan_details_def)
  ultimately show ?thesis by (auto simp: scan_order_def)
qed

text \<open>What is found has one of the statuses that the schema admits.\<close>

lemma found_status:
  assumes "db_inv s" and "fst (GetBuyOrderByUUID uuid s) = Inr ord"
  shows "o_Status ord \<noteq> ''Processed'' \<and> o_Status ord \<noteq> ''Failed''"
proof -
  have "load_order (\<lambda>r. bo_uuid r = uuid) s = (Inr ord, snd (GetBuyOrderByUUID uuid s))"
    using assms(2) unfolding GetBuyOrderByUUID_def by (rule result_eq)
  from load_order_row [OF this] obtain r where "r \<in> set (buy_order_t s)"
      "o_Status ord = (if bo_status r = [] then ''processing'' else bo_status r)" by blast
  moreover from this(1) have "bo_status r \<in> set buy_order_statuses"
    using assms(1) by (auto simp: db_inv_def orders_inv_def buy_order_row_error_def split: if_splits)
  ultimately show ?thesis by (auto simp: buy_order_statuses_def)
qed

text \<open>
  A stream that waits its 12 seconds out reports no settlement, even of an order the database
  has as processed: the fallback compares with statuses that the schema does not let any order have.
\<close>

theorem timeout_never_settles:
  assumes "db_inv s"
  shows "fst (BuyBreadStream uuid TimedOut s) = Inl DeadlineExceeded"
proof -
  have "fst (fallbackGetSettledOrder uuid s) = Inr None"
  proof (cases "fst (GetBuyOrderByUUID uuid s)")
    case (Inl e)
    show ?thesis by (simp add: fallbackGetSettledOrder_def attempt_Inl [of "GetBuyOrderByUUID uuid" s, OF result_eq [OF Inl]])
  next
    case (Inr ord)
    then show ?thesis using found_status [OF assms Inr]
      by (simp add: fallbackGetSettledOrder_def attempt_Inr [of "GetBuyOrderByUUID uuid" s, OF result_eq [OF Inr]])
  qed
  then show ?thesis
    by (cases "fallbackGetSettledOrder uuid s") (auto simp: BuyBreadStream_def seq_apply)
qed

text \<open>An order that is stored as processed.\<close>

definition processed_db :: db where
  "processed_db = snd (UpdateOrderStatus ''u1'' ''processed''
     (snd (InsertBuyOrder sample_order (o_Breads sample_order) sample_db)))"

theorem timeout_never_settles_witness:
  "map bo_status (buy_order_t processed_db) = [''processed'']
    \<and> fst (BuyBreadStream ''u1'' TimedOut processed_db) = Inl DeadlineExceeded"
proof -
  have "db_inv processed_db" "map bo_status (buy_order_t processed_db) = [''processed'']" by code_simp+
  then show ?thesis using timeout_never_settles by blast
qed

section \<open>Bread on its way to the bakery\<close>

text \<open>The bodies on a queue, in the order they were published.\<close>

definition on_queue :: "string \<Rightarrow> bakery \<Rightarrow> json option list" where
  "on_queue q b = map (\<lambda>(k, j). Some j) (filter (\<lambda>(k, j). k = q) (sent b))"

lemma announce_calm:
  assumes "amqp b = []" and "\<forall>x \<in> set breads. pbBread_ok x"
  shows "\<exists>js. announce queue mark breads b
      = (Inr (bread_response (map mark breads)), b\<lparr>sent := sent b @ map (Pair queue) js\<rparr>)
    \<and> map dec_pbBread js = map Some breads"
proof -
  let ?f = "\<lambda>bread made. case enc_pbBread bread of None \<Rightarrow> fail Internal
     | Some breadData \<Rightarrow> attempt (Publish queue breadData) (\<lambda>err. fail Internal) (\<lambda>_. ret (made @ [mark bread]))"
  have "\<exists>js. for_each ?f breads ys c = (Inr (ys @ map mark breads), c\<lparr>sent := sent c @ map (Pair queue) js\<rparr>)
      \<and> map dec_pbBread js = map Some breads" if "amqp c = []" for ys c
    using assms(2) that
  proof (induction breads arbitrary: ys c)
    case Nil
    show ?case by (intro exI [of _ "[]"]) simp
  next
    case (Cons x xs)
    obtain j where j: "enc_pbBread x = Some j" "dec_pbBread j = Some x"
      using dec_enc_pbBread [of x] Cons.prems(1) by auto
    let ?c = "c\<lparr>sent := sent c @ [(queue, j)]\<rparr>"
    obtain js where js: "for_each ?f xs (ys @ [mark x]) ?c
        = (Inr ((ys @ [mark x]) @ map mark xs), ?c\<lparr>sent := sent ?c @ map (Pair queue) js\<rparr>)"
        "map dec_pbBread js = map Some xs"
      using Cons.IH [of ?c "ys @ [mark x]"] Cons.prems by auto
    have "?f x ys c = (Inr (ys @ [mark x]), ?c)"
      using j Cons.prems(2) by (simp add: attempt_apply)
    then have "for_each ?f (x # xs) ys c = for_each ?f xs (ys @ [mark x]) ?c"
      by (simp only: for_each.simps seq_apply prod.case sum.case)
    then show ?case using js j(2) by (intro exI [of _ "j # js"]) simp
  qed
  from this [OF assms(1), of "[]"] show ?thesis
    using assms(1) by (auto simp: announce_def seq_apply)
qed

text \<open>The responses of a stream that repeats what it sent before.\<close>

fun growing :: "'a list \<Rightarrow> 'a list \<Rightarrow> 'a list list" where
  "growing ys [] = []"
| "growing ys (x # xs) = (ys @ [x]) # growing (ys @ [x]) xs"

lemma made_bread_calm:
  assumes "send_fails st = []" and "map dec_pbBread js = map Some breads"
  shows "made_bread_loop (map Some js) ys st
    = (Inr (), st\<lparr>responses := responses st @ growing ys breads,
                  settled := settled st @ replicate (length breads) Acked\<rparr>)"
  using assms
proof (induction js arbitrary: breads ys st)
  case (Cons j js)
  then obtain x xs where x: "breads = x # xs" "dec_pbBread j = Some x" "map dec_pbBread js = map Some xs"
    by (cases breads) auto
  let ?st = "st\<lparr>responses := responses st @ [ys @ [x]], settled := settled st @ [Acked]\<rparr>"
  have "made_bread_loop (map Some (j # js)) ys st = made_bread_loop (map Some js) (ys @ [x]) ?st"
    using x(2) Cons.prems(1) by (simp add: attempt_apply seq_apply Send_def settle_def stream_op_def)
  then show ?case
    using Cons.IH [of ?st xs "ys @ [x]"] Cons.prems(1) x by simp
qed simp

text \<open>
  Bread arrives as it was sent: what \<open>SendBreadToBakery\<close> publishes on bread-in-bakery,
  \<open>MadeBreadStream\<close> streams to its client, every bread as it was in the request, with all those
  before it, and acknowledges each; only the sender sees the new status.
\<close>

theorem bread_arrives_as_sent:
  assumes "amqp b = []" and "sent b = []" and "send_fails st = []"
    and "\<forall>x \<in> set (req_Breads req). pbBread_ok x"
  shows "\<exists>r b'. SendBreadToBakery req b = (Inr r, b')
    \<and> rsp_Breads r = Some (map (\<lambda>x. x\<lparr>bd_Status := ''bread ready to consume''\<rparr>) (req_Breads req))
    \<and> MadeBreadStream (on_queue ''bread-in-bakery'' b') st
        = (Inr (), st\<lparr>responses := responses st @ growing [] (req_Breads req),
                      settled := settled st @ replicate (length (req_Breads req)) Acked\<rparr>)"
proof -
  obtain js where js: "SendBreadToBakery req b
      = (Inr (bread_response (map (\<lambda>x. x\<lparr>bd_Status := ''bread ready to consume''\<rparr>) (req_Breads req))),
         b\<lparr>sent := sent b @ map (Pair ''bread-in-bakery'') js\<rparr>)"
      "map dec_pbBread js = map Some (req_Breads req)"
    unfolding SendBreadToBakery_def using announce_calm [OF assms(1,4)] by blast
  have "on_queue ''bread-in-bakery'' (b\<lparr>sent := sent b @ map (Pair ''bread-in-bakery'') js\<rparr>) = map Some js"
    by (simp add: on_queue_def assms(2) o_def filter_map case_prod_beta)
  then show ?thesis
    using js made_bread_calm [OF assms(3) js(2), of "[]"]
    by (simp add: MadeBreadStream_def bread_response_def)
qed

definition quiet_bakery :: bakery where
  "quiet_bakery = sample_bakery\<lparr>amqp := []\<rparr>"

definition new_stream :: stream where
  "new_stream = \<lparr>responses = [], settled = [], send_fails = []\<rparr>"

theorem bread_arrives_as_sent_witness:
  "responses (snd (MadeBreadStream (on_queue ''bread-in-bakery''
      (snd (SendBreadToBakery sample_request quiet_bakery))) new_stream)) = [[pb_of 1 2], [pb_of 1 2, pb_of 2 1]]"
proof -
  have "amqp quiet_bakery = []" "sent quiet_bakery = []" "send_fails new_stream = []"
      "\<forall>x \<in> set (req_Breads sample_request). pbBread_ok x"
    by (simp_all add: quiet_bakery_def sample_bakery_def new_stream_def sample_request_def pb_of_def
        pbBread_ok_def is_int32_def time_ok_def)
  from bread_arrives_as_sent [OF this] show ?thesis
    by (auto simp: new_stream_def sample_request_def)
qed

section \<open>Listings\<close>

text \<open>The details of a listing come behind as many nil pointers: it is twice as long as the order.\<close>

lemma listing_details_doubled:
  "length (ls_Details (order_listing order c)) = 2 * length (o_Breads order)
    \<and> (\<forall>i < length (o_Breads order). ls_Details (order_listing order c) ! i = None)"
  by (simp add: order_listing_def nth_append)

end
