(* ===== verification/Database.thy ===== *)
theory Database
  imports Orders Outbox Accounts Invoices
begin

text \<open>
  The database under all processes at once. A step is one repository method that may write
  (\<open>data/models.go\<close>), with any arguments; the read and the write of \<open>AdjustBreadQuantity\<close> are
  apart, so that others may come in between; the clock and the faults are the environment's. Every
  interleaving of requests of the server, of its broker API and of its background loops is a run
  of these steps.
\<close>

inductive db_step :: "db \<Rightarrow> db \<Rightarrow> bool" where
  environment: "db_step s (s\<lparr>faults := fs, now := t\<rparr>)"
| insert_bread: "db_step s (snd (InsertBread bread s))"
| adjust_quantity_write: "db_step s (snd (adjust_write i n flag s))"
| adjust_price: "db_step s (snd (AdjustBreadPrice i p s))"
| update_bread: "db_step s (snd (UpdateBread bread s))"
| delete_bread: "db_step s (snd (DeleteBread i s))"
| fulfill_item: "db_step s (snd (FulfillOrderItem i q s))"
| fulfill_order: "db_step s (snd (FulfillOrderTx ord s))"
| insert_buy_order: "db_step s (snd (InsertBuyOrder ord breads s))"
| update_order_status: "db_step s (snd (UpdateOrderStatus uuid st s))"
| insert_make_order: "db_step s (snd (InsertMakeOrder mk breads s))"
| insert_pending: "db_step s (snd (InsertPendingMakeOrder p' s))"
| claim_pending: "db_step s (snd (ClaimPendingMakeOrders k s))"
| update_pending: "db_step s (snd (UpdatePendingMakeOrderStatus i st s))"
| insert_outbox: "db_step s (snd (InsertOutboxMessage msg s))"
| claim_outbox: "db_step s (snd (ClaimOutboxMessage s))"
| delete_outbox: "db_step s (snd (DeleteOutboxMessage i s))"
| insert_customer: "db_step s (snd (InsertCustomer bc customer s))"
| insert_bread_maker: "db_step s (snd (InsertBreadMaker bm s))"
| insert_admin: "db_step s (snd (InsertAdminUser bc usr s))"
| insert_invoice: "db_step s (snd (InsertInvoice inv' s))"

lemma keeps_adjust_write: "keeps db_inv (adjust_write i n flag)"
  unfolding adjust_write_def by (intro keeps_intros keeps_sql_update_bread) simp_all

lemma env_db_inv: "db_inv (s\<lparr>faults := fs, now := t\<rparr>) = db_inv s"
  by (simp add: db_inv_def bread_inv_def accounts_inv_def orders_inv_def supply_inv_def billing_inv_def)

lemma db_step_inv: "db_step s t \<Longrightarrow> db_inv s \<Longrightarrow> db_inv t"
  by (induction rule: db_step.induct)
     (simp_all only: env_db_inv, (rule keepsD [rotated], assumption,
       rule keeps_adjust_write keeps_inventory keeps_orders keeps_outbox keeps_accounts keeps_invoices)+)

text \<open>
  In every state the database can reach from an empty one, under any interleaving of the methods
  and any faults of its connections, the tables satisfy \<open>bakery.sql\<close>: every column in its range and
  every CHECK, keys unique, and every order, detail, request and invoice refers to rows that
  exist.
\<close>

theorem reachable_db_inv:
  assumes "db_step\<^sup>*\<^sup>* empty_db s"
  shows "db_inv s"
  using assms
proof (induction rule: rtranclp_induct)
  case base
  show ?case by code_simp
qed (rule db_step_inv)

definition one_bread :: Bread where
  "one_bread = zero_Bread\<lparr>b_Name := ''rye'', b_Quantity := 3, b_Status := ''available''\<rparr>"

theorem reachable_db_inv_witness:
  "let s = snd (InsertBread one_bread empty_db) in map br_quantity (bread_t s) = [3] \<and> db_inv s"
  unfolding Let_def
proof
  show "map br_quantity (bread_t (snd (InsertBread one_bread empty_db))) = [3]" by code_simp
  show "db_inv (snd (InsertBread one_bread empty_db))"
    by (rule reachable_db_inv) (blast intro: db_step.insert_bread)
qed

section \<open>What stays\<close>

text \<open>Orders keep their identifiers and are never deleted; invoices are only ever added.\<close>

definition kept :: "db \<Rightarrow> db \<Rightarrow> bool" where
  "kept s t \<longleftrightarrow> (\<forall>r \<in> set (buy_order_t s). \<exists>r' \<in> set (buy_order_t t). bo_id r' = bo_id r \<and> bo_uuid r' = bo_uuid r)
     \<and> (\<exists>xs. invoice_t t = invoice_t s @ xs)"

lemma kept_refl [simp]: "kept s s"
  by (auto simp: kept_def)

lemma kept_trans: "kept s t \<Longrightarrow> kept t u \<Longrightarrow> kept s u"
  unfolding kept_def by (metis append.assoc)

lemma table_pred_kept [simp]: "table_pred (kept s)"
  by (simp add: table_pred_def kept_def)

lemma kept_inserts:
  "kept s t \<Longrightarrow> kept s (t\<lparr>buy_order_t := buy_order_t t @ [r]\<rparr>)"
  "kept s t \<Longrightarrow> kept s (t\<lparr>invoice_t := invoice_t t @ [v]\<rparr>)"
  by (auto simp: kept_def)

lemma kept_others [simp]:
  "kept s (t\<lparr>bread_t := a1\<rparr>) = kept s t" "kept s (t\<lparr>bread_maker_t := a2\<rparr>) = kept s t"
  "kept s (t\<lparr>make_order_t := a3\<rparr>) = kept s t" "kept s (t\<lparr>make_details_t := a4\<rparr>) = kept s t"
  "kept s (t\<lparr>pending_t := a5\<rparr>) = kept s t" "kept s (t\<lparr>customer_t := a6\<rparr>) = kept s t"
  "kept s (t\<lparr>order_details_t := a7\<rparr>) = kept s t" "kept s (t\<lparr>outbox_t := a8\<rparr>) = kept s t"
  "kept s (t\<lparr>admin_t := a9\<rparr>) = kept s t" "kept s (t\<lparr>invoice_items_t := a10\<rparr>) = kept s t"
  by (simp_all add: kept_def)

lemma kept_update_order:
  assumes "kept s t" and "\<And>r. bo_id (g r) = bo_id r" and "\<And>r. bo_uuid (g r) = bo_uuid r"
  shows "kept s (t\<lparr>buy_order_t := update_where P g (buy_order_t t)\<rparr>)"
proof -
  have "\<exists>r' \<in> set (update_where P g rs). bo_id r' = bo_id r \<and> bo_uuid r' = bo_uuid r"
    if "r \<in> set rs" for r rs
    using that assms(2,3) by (intro bexI [of _ "if P r then g r else r"]) (auto simp: update_where_def)
  then show ?thesis using assms(1) by (simp add: kept_def) metis
qed

lemma keeps_kept_update_order:
  "(\<And>r. bo_id (g r) = bo_id r) \<Longrightarrow> (\<And>r. bo_uuid (g r) = bo_uuid r) \<Longrightarrow> keeps (kept s) (sql_update_order P g)"
  unfolding sql_update_order_def by (intro keeps_guarded kept_update_order)

lemma keeps_kept_sql_update_bread [keeps_intros]: "keeps (kept s) (sql_update_bread i g)"
  unfolding sql_update_bread_def by (intro keeps_intros) simp

lemma kept_InsertBread: "keeps (kept s) (InsertBread bread)"
  unfolding InsertBread_def Let_def by (intro keeps_intros) simp_all

lemma kept_adjust_write: "keeps (kept s) (adjust_write i n flag)"
  unfolding adjust_write_def by (intro keeps_intros) simp_all

lemma kept_AdjustBreadPrice: "keeps (kept s) (AdjustBreadPrice i p)"
  unfolding AdjustBreadPrice_def by (intro keeps_intros) simp_all

lemma kept_UpdateBread: "keeps (kept s) (UpdateBread bread)"
  unfolding UpdateBread_def by (intro keeps_intros) simp_all

lemma kept_DeleteBread: "keeps (kept s) (DeleteBread i)"
  unfolding DeleteBread_def by (intro keeps_intros) simp_all

lemma kept_FulfillOrderItem: "keeps (kept s) (FulfillOrderItem i n)"
  unfolding FulfillOrderItem_def fulfill_item_def sql_deduct_def Let_def by (intro keeps_intros) simp_all

lemma kept_FulfillOrderTx: "keeps (kept s) (FulfillOrderTx ord)"
  unfolding FulfillOrderTx_def fulfill_tx_item_def mark_detail_def settle_detail_def sql_update_detail_def sql_deduct_def Let_def
  by (intro keeps_intros keeps_kept_update_order) simp_all

lemma kept_InsertBuyOrder: "keeps (kept s) (InsertBuyOrder ord breads)"
  unfolding InsertBuyOrder_def insert_order_header_def insert_order_detail_def Let_def
  by (intro keeps_intros kept_inserts) simp_all

lemma kept_UpdateOrderStatus: "keeps (kept s) (UpdateOrderStatus uuid st)"
  unfolding UpdateOrderStatus_def by (intro keeps_intros keeps_kept_update_order) simp_all

lemma kept_InsertMakeOrder: "keeps (kept s) (InsertMakeOrder mk breads)"
  unfolding InsertMakeOrder_def insert_make_header_def insert_make_detail_def AdjustBreadQuantity_def adjust_read_def adjust_write_def Let_def
  by (intro keeps_transaction_with keeps_intros) (auto simp: rollback_but_bread_def table_pred_rollback)

lemma kept_InsertPendingMakeOrder: "keeps (kept s) (InsertPendingMakeOrder p)"
  unfolding InsertPendingMakeOrder_def Let_def by (intro keeps_intros) simp_all

lemma kept_ClaimPendingMakeOrders: "keeps (kept s) (ClaimPendingMakeOrders k)"
  unfolding ClaimPendingMakeOrders_def by (intro keeps_intros) simp_all

lemma kept_UpdatePendingMakeOrderStatus: "keeps (kept s) (UpdatePendingMakeOrderStatus i st)"
  unfolding UpdatePendingMakeOrderStatus_def Let_def by (intro keeps_intros) simp_all

lemma kept_InsertOutboxMessage: "keeps (kept s) (InsertOutboxMessage msg)"
  unfolding InsertOutboxMessage_def Let_def by (intro keeps_intros) simp_all

lemma kept_ClaimOutboxMessage: "keeps (kept s) ClaimOutboxMessage"
  unfolding ClaimOutboxMessage_def claim_outbox_def
  by (intro keeps_intros keepsI) (auto split: list.split)

lemma kept_DeleteOutboxMessage: "keeps (kept s) (DeleteOutboxMessage i)"
  unfolding DeleteOutboxMessage_def by (intro keeps_intros keeps_modify) simp_all

lemma kept_InsertCustomer: "keeps (kept s) (InsertCustomer bc c)"
  unfolding InsertCustomer_def insert_customer_def Let_def by (intro keeps_intros) simp_all

lemma kept_InsertBreadMaker: "keeps (kept s) (InsertBreadMaker m)"
  unfolding InsertBreadMaker_def Let_def by (intro keeps_intros) simp_all

lemma kept_InsertAdminUser: "keeps (kept s) (InsertAdminUser bc u)"
  unfolding InsertAdminUser_def Let_def by (intro keeps_intros) simp_all

lemma kept_InsertInvoice: "keeps (kept s) (InsertInvoice v)"
  unfolding InsertInvoice_def insert_invoice_header_def insert_invoice_item_def Let_def
  by (intro keeps_intros kept_inserts) simp_all

lemmas kept_methods = kept_InsertBread kept_adjust_write kept_AdjustBreadPrice kept_UpdateBread
  kept_DeleteBread kept_FulfillOrderItem kept_FulfillOrderTx kept_InsertBuyOrder
  kept_UpdateOrderStatus kept_InsertMakeOrder kept_InsertPendingMakeOrder
  kept_ClaimPendingMakeOrders kept_UpdatePendingMakeOrderStatus kept_InsertOutboxMessage
  kept_ClaimOutboxMessage kept_DeleteOutboxMessage kept_InsertCustomer kept_InsertBreadMaker
  kept_InsertAdminUser kept_InsertInvoice

lemma kept_after: "keeps (kept s) f \<Longrightarrow> kept s (snd (f s))"
  by (rule keepsD) simp_all

lemma kept_environment: "kept s (s\<lparr>faults := fs, now := t\<rparr>)"
  by (auto simp: kept_def)

lemma db_step_kept: "db_step s t \<Longrightarrow> kept s t"
  by (induction rule: db_step.induct) (rule kept_environment, (rule kept_after, rule kept_methods)+)

lemma db_steps_kept: "db_step\<^sup>*\<^sup>* s t \<Longrightarrow> kept s t"
  by (induction rule: rtranclp_induct) (auto intro: kept_trans dest: db_step_kept)

lemma db_steps_inv: "db_step\<^sup>*\<^sup>* s t \<Longrightarrow> db_inv s \<Longrightarrow> db_inv t"
  by (induction rule: rtranclp_induct) (auto dest: db_step_inv)

lemma kept_uuid: "kept s t \<Longrightarrow> u \<in> bo_uuid ` set (buy_order_t s) \<Longrightarrow> u \<in> bo_uuid ` set (buy_order_t t)"
  unfolding kept_def image_iff by metis

lemma kept_order_id: "kept s t \<Longrightarrow> i \<in> bo_id ` set (buy_order_t s) \<Longrightarrow> i \<in> bo_id ` set (buy_order_t t)"
  unfolding kept_def image_iff by metis

end
