(* ===== verification/Admin.thy ===== *)
theory Admin
  imports Bakery Database
begin

text \<open>
  \<open>server/gRPCAdmin.go\<close> and \<open>server/gRPCInvoice.go\<close>: the administrators' service, invoices, and the
  customers' portal. Methods that share their name with one of the repository are prefixed with
  their service.
\<close>

section \<open>Messages\<close>

record pbMaker =
  pm_Id :: int
  pm_Name :: string
  pm_Email :: string
  pm_CreatedAt :: "int \<times> int"
  pm_UpdatedAt :: "int \<times> int"

record pbMakeOrder =
  pk_Id :: int
  pk_BreadMakerId :: int
  pk_MakeOrderUuid :: string
  pk_CreatedAt :: "int \<times> int"
  pk_UpdatedAt :: "int \<times> int"
  pk_Breads :: "pbBread list"

record pbInvoiceItem =
  pt_Id :: int
  pt_InvoiceId :: int
  pt_BreadId :: int
  pt_BreadName :: string
  pt_Quantity :: int
  pt_UnitPrice :: f64
  pt_Total :: f64

record pbInvoice =
  pi_Id :: int
  pi_BuyOrderId :: int
  pi_CustomerId :: int
  pi_InvoiceNumber :: string
  pi_Subtotal :: f64
  pi_Tax :: f64
  pi_Total :: f64
  pi_Status :: string
  pi_CreatedAt :: "int \<times> int"
  pi_DueDate :: "int \<times> int"
  pi_PaidAt :: "(int \<times> int) option"
  pi_Items :: "pbInvoiceItem list"

definition customer_to_pb :: "Customer \<Rightarrow> pbCustomer" where
  "customer_to_pb c = \<lparr>pc_Id = int32 (c_ID c), pc_Name = c_Name c, pc_Email = c_Email c,
     pc_CreatedAt = c_CreatedAt c, pc_UpdatedAt = c_UpdatedAt c\<rparr>"

definition maker_to_pb :: "BreadMaker \<Rightarrow> pbMaker" where
  "maker_to_pb m = \<lparr>pm_Id = int32 (m_ID m), pm_Name = m_Name m, pm_Email = m_Email m,
     pm_CreatedAt = timestamp (m_CreatedAt m), pm_UpdatedAt = timestamp (m_UpdatedAt m)\<rparr>"

definition make_order_to_pb :: "MakeOrder \<Rightarrow> pbMakeOrder" where
  "make_order_to_pb ord = \<lparr>pk_Id = int32 (mo_ID ord), pk_BreadMakerId = int32 (mo_BreadMakerID ord),
     pk_MakeOrderUuid = mo_MakeOrderUUID ord, pk_CreatedAt = timestamp (mo_CreatedAt ord),
     pk_UpdatedAt = timestamp (mo_UpdatedAt ord),
     pk_Breads = map (\<lambda>b. (bread_to_pb_untimed b)\<lparr>bd_Status := []\<rparr>) (mo_Breads ord)\<rparr>"

definition order_to_pb :: "BuyOrder \<Rightarrow> string \<Rightarrow> f64 \<Rightarrow> pbOrder" where
  "order_to_pb ord st totalCost = \<lparr>po_Id = int32 (o_ID ord), po_CustomerId = int32 (o_CustomerID ord),
     po_BuyOrderUuid = o_BuyOrderUUID ord, po_TotalCost = totalCost, po_Status = st\<rparr>"

definition invoiceToProto :: "Invoice \<Rightarrow> pbInvoice" where
  "invoiceToProto invoice =
     \<lparr>pi_Id = int32 (inv_ID invoice), pi_BuyOrderId = int32 (inv_BuyOrderID invoice),
      pi_CustomerId = int32 (inv_CustomerID invoice), pi_InvoiceNumber = inv_InvoiceNumber invoice,
      pi_Subtotal = inv_Subtotal invoice, pi_Tax = inv_Tax invoice, pi_Total = inv_Total invoice,
      pi_Status = inv_Status invoice, pi_CreatedAt = timestamp (inv_CreatedAt invoice),
      pi_DueDate = timestamp (inv_DueDate invoice), pi_PaidAt = map_option timestamp (inv_PaidAt invoice),
      pi_Items = map (\<lambda>x. \<lparr>pt_Id = int32 (ii_ID x), pt_InvoiceId = int32 (ii_InvoiceID x),
        pt_BreadId = int32 (ii_BreadID x), pt_BreadName = ii_BreadName x, pt_Quantity = int32 (ii_Quantity x),
        pt_UnitPrice = ii_UnitPrice x, pt_Total = ii_Total x\<rparr>) (inv_Items invoice)\<rparr>"

section \<open>AdminService: reading\<close>

text \<open>A method that answers a failure of the repository with one code.\<close>

definition or_code :: "code \<Rightarrow> 'a repo \<Rightarrow> ('a \<Rightarrow> (db, code, 'b) proc) \<Rightarrow> (db, code, 'b) proc" where
  "or_code c m k = attempt m (\<lambda>err. fail c) k"

definition Admin_GetDashboardStats :: "(db, code, DashboardStats) proc" where
  "Admin_GetDashboardStats = or_code Internal GetDashboardStats (\<lambda>stats. ret
     \<lparr>TotalOrders = int32 (TotalOrders stats), TotalRevenue = TotalRevenue stats,
      TotalProducts = int32 (TotalProducts stats), TotalCustomers = int32 (TotalCustomers stats),
      TotalBreadMakers = int32 (TotalBreadMakers stats), LowStockCount = int32 (LowStockCount stats)\<rparr>)"

definition Admin_GetAllCustomers :: "(db, code, pbCustomer list) proc" where
  "Admin_GetAllCustomers = or_code Internal GetAllCustomers (\<lambda>cs. ret (map customer_to_pb cs))"

definition Admin_GetAllBreadMakers :: "(db, code, pbMaker list) proc" where
  "Admin_GetAllBreadMakers = or_code Internal GetAllBreadMakers (\<lambda>ms. ret (map maker_to_pb ms))"

definition GetAllBread :: "(db, code, pbBread list) proc" where
  "GetAllBread = or_code Internal GetAvailableBread (\<lambda>bs. ret (map bread_to_pb bs))"

definition Admin_GetBreadById :: "int \<Rightarrow> (db, code, pbBread) proc" where
  "Admin_GetBreadById i = or_code NotFound (GetBreadByID i) (\<lambda>b. ret (bread_to_pb b))"

definition GetLowStockAlerts :: "(db, code, pbBread list) proc" where
  "GetLowStockAlerts = or_code Internal (GetLowStockBread 10) (\<lambda>bs. ret (map bread_to_pb bs))"

text \<open>The total of an order whose query fails is zero; the error is dropped.\<close>

definition total_or_zero :: "BuyOrder \<Rightarrow> (db, code, f64) proc" where
  "total_or_zero ord = attempt (GetOrderTotalCost (o_ID ord)) (\<lambda>err. ret 0) ret"

definition list_orders :: "(BuyOrder \<Rightarrow> string) \<Rightarrow> BuyOrder list \<Rightarrow> (db, code, pbOrder list) proc" where
  "list_orders st orders =
     for_each (\<lambda>ord out. seq (total_or_zero ord) (\<lambda>c. ret (out @ [order_to_pb ord (st ord) c]))) orders []"

definition Admin_GetCustomerOrders :: "int \<Rightarrow> (db, code, pbCustomer \<times> pbOrder list) proc" where
  "Admin_GetCustomerOrders i =
     or_code NotFound (GetCustomerByID i) (\<lambda>customer.
     or_code Internal (GetCustomerOrders i) (\<lambda>orders.
     seq (list_orders o_Status orders) (\<lambda>pbOrders. ret (customer_to_pb customer, pbOrders))))"

definition Admin_GetMakerOrders :: "int \<Rightarrow> (db, code, pbMaker \<times> pbMakeOrder list) proc" where
  "Admin_GetMakerOrders i =
     or_code NotFound (GetBreadMakerByID i) (\<lambda>maker.
     or_code Internal (GetMakerOrders i) (\<lambda>orders.
     ret (maker_to_pb maker, map make_order_to_pb orders)))"

definition GetAllOrders :: "(db, code, pbOrder list \<times> BuyOrderDetails list) proc" where
  "GetAllOrders =
     or_code Internal GetAllBuyOrders (\<lambda>orders.
     seq (list_orders o_Status orders) (\<lambda>pbOrders.
     ret (pbOrders, concat (map (\<lambda>ord. map (\<lambda>b. bread_details ord (b_Status b) b) (o_Breads ord)) orders))))"

definition Admin_GetAllMakeOrders :: "(db, code, pbMakeOrder list) proc" where
  "Admin_GetAllMakeOrders = or_code Internal GetAllMakeOrders (\<lambda>orders. ret (map make_order_to_pb orders))"

section \<open>AdminService: writing\<close>

record BreadForm =
  fm_Name :: string
  fm_Price :: f64
  fm_Quantity :: int
  fm_Description :: string
  fm_Type :: string
  fm_Image :: string

definition CreateBread :: "BreadForm \<Rightarrow> (db, code, pbBread) proc" where
  "CreateBread f =
     seq (query now) (\<lambda>t.
       let bread = \<lparr>b_ID = 0, b_Name = fm_Name f, b_Price = fm_Price f, b_Quantity = fm_Quantity f,
         b_CreatedAt = t, b_UpdatedAt = t, b_Image = fm_Image f, b_Description = fm_Description f,
         b_Type = fm_Type f, b_Status = ''available''\<rparr>
       in or_code Internal (InsertBread bread) (\<lambda>newID. ret (bread_to_pb (bread\<lparr>b_ID := newID\<rparr>))))"

definition Admin_UpdateBread :: "int \<Rightarrow> BreadForm \<Rightarrow> (db, code, pbBread) proc" where
  "Admin_UpdateBread i f =
     or_code Internal (UpdateBread (zero_Bread\<lparr>b_ID := i, b_Name := fm_Name f, b_Price := fm_Price f,
        b_Quantity := fm_Quantity f, b_Description := fm_Description f, b_Type := fm_Type f,
        b_Image := fm_Image f\<rparr>)) (\<lambda>_.
     or_code Internal (GetBreadByID i) (\<lambda>b. ret (bread_to_pb b)))"

definition Admin_DeleteBread :: "int \<Rightarrow> (db, code, unit) proc" where
  "Admin_DeleteBread i = or_code Internal (DeleteBread i) ret"

text \<open>Thirty days on, by the UTC calendar.\<close>

definition thirty_days :: int where "thirty_days = 30 * day"

definition item_total :: "Bread \<Rightarrow> f64" where
  "item_total b = b_Price b * f64_of_int (b_Quantity b)"

definition invoice_items :: "Bread list \<Rightarrow> InvoiceItem list" where
  "invoice_items breads = map (\<lambda>b. \<lparr>ii_ID = 0, ii_InvoiceID = 0, ii_BreadID = b_ID b, ii_BreadName = b_Name b,
     ii_Quantity = b_Quantity b, ii_UnitPrice = b_Price b, ii_Total = item_total b\<rparr>) breads"

text \<open>Both ways to an invoice look for one first; a lookup that fails counts as none.\<close>

definition existing_invoice :: "int \<Rightarrow> (db, 'e, Invoice option) proc" where
  "existing_invoice orderID =
     attempt (GetInvoiceByOrderID orderID) (\<lambda>err. ret None)
       (\<lambda>old. ret (if 0 < inv_ID old then Some old else None))"

definition generateInvoiceForOrder :: "BuyOrder \<Rightarrow> f64 \<Rightarrow> unit repo" where
  "generateInvoiceForOrder order subtotal =
     seq (existing_invoice (o_ID order)) (\<lambda>r. case r of
       Some old \<Rightarrow> ret ()
     | None \<Rightarrow> seq (query now) (\<lambda>t.
         let tax = subtotal * rnd64 (1 / 10) in
         seq (InsertInvoice \<lparr>inv_ID = 0, inv_BuyOrderID = o_ID order, inv_CustomerID = o_CustomerID order,
            inv_InvoiceNumber = ''INV-'' @ Itoa (o_ID order) @ ''-'' @ Itoa (t div 1000000000),
            inv_Subtotal = subtotal, inv_Tax = tax, inv_Total = subtotal + tax, inv_Status = ''paid'',
            inv_CreatedAt = zero_time, inv_DueDate = t + thirty_days, inv_PaidAt = Some t,
            inv_Items = invoice_items (o_Breads order)\<rparr>)
           (\<lambda>_. ret ())))"

text \<open>An error of the total is logged and the total zero; one of the invoice is logged.\<close>

definition Admin_UpdateOrderStatus :: "string \<Rightarrow> string \<Rightarrow> (db, code, pbOrder) proc" where
  "Admin_UpdateOrderStatus uuid st =
     or_code Internal (UpdateOrderStatus uuid st) (\<lambda>_.
     or_code Internal (GetBuyOrderByUUID uuid) (\<lambda>order.
     seq (total_or_zero order) (\<lambda>totalCost.
     seq (if st = ''completed'' then attempt (generateInvoiceForOrder order totalCost) (\<lambda>err. ret ()) ret else ret ())
       (\<lambda>_. ret (order_to_pb order (o_Status order) totalCost)))))"

section \<open>InvoiceService\<close>

definition subtotal_of :: "Bread list \<Rightarrow> f64" where
  "subtotal_of breads = foldl (\<lambda>acc b. acc + item_total b) 0 breads"

definition pending_invoice :: "BuyOrder \<Rightarrow> int \<Rightarrow> Invoice" where
  "pending_invoice order t =
     (let subtotal = subtotal_of (o_Breads order);
          tax = subtotal * rnd64 (8 / 100)
      in \<lparr>inv_ID = 0, inv_BuyOrderID = o_ID order, inv_CustomerID = o_CustomerID order,
           inv_InvoiceNumber = ''INV-'' @ Itoa (year_of t) @ ''-'' @ Itoa (t - quot t 100000 * 100000),
           inv_Subtotal = subtotal, inv_Tax = tax, inv_Total = subtotal + tax, inv_Status = ''pending'',
           inv_CreatedAt = zero_time, inv_DueDate = t + thirty_days, inv_PaidAt = None,
           inv_Items = invoice_items (o_Breads order)\<rparr>)"

definition CreateInvoice :: "int \<Rightarrow> (db, code, pbInvoice) proc" where
  "CreateInvoice orderID =
     or_code NotFound (GetBuyOrderByID orderID) (\<lambda>order.
     seq (existing_invoice orderID) (\<lambda>r. case r of
       Some old \<Rightarrow> ret (invoiceToProto old)
     | None \<Rightarrow> seq (query now) (\<lambda>t.
         or_code Internal (InsertInvoice (pending_invoice order t)) (\<lambda>newID.
         ret (invoiceToProto ((pending_invoice order t)\<lparr>inv_ID := newID, inv_CreatedAt := t\<rparr>))))))"

definition GetInvoice :: "int \<Rightarrow> (db, code, pbInvoice) proc" where
  "GetInvoice i = or_code NotFound (GetInvoiceByID i) (\<lambda>x. ret (invoiceToProto x))"

definition GetCustomerInvoices :: "int \<Rightarrow> (db, code, pbInvoice list) proc" where
  "GetCustomerInvoices i = or_code Internal (GetInvoicesByCustomerID i) (\<lambda>xs. ret (map invoiceToProto xs))"

definition Invoice_GetAllInvoices :: "(db, code, pbInvoice list) proc" where
  "Invoice_GetAllInvoices = or_code Internal GetAllInvoices (\<lambda>xs. ret (map invoiceToProto xs))"

section \<open>CustomerPortalService\<close>

text \<open>The portal leaves the status of the orders out.\<close>

definition GetMyOrders :: "int \<Rightarrow> (db, code, pbCustomer \<times> pbOrder list) proc" where
  "GetMyOrders i =
     or_code NotFound (GetCustomerByID i) (\<lambda>customer.
     or_code Internal (GetCustomerOrders i) (\<lambda>orders.
     seq (list_orders (\<lambda>ord. []) orders) (\<lambda>pbOrders. ret (customer_to_pb customer, pbOrders))))"

definition GetMyInvoices :: "int \<Rightarrow> (db, code, pbInvoice list) proc" where
  "GetMyInvoices i = or_code Internal (GetInvoicesByCustomerID i) (\<lambda>xs. ret (map invoiceToProto xs))"

definition GetOrderDetails :: "int \<Rightarrow> (db, code, pbOrder \<times> BuyOrderDetails list \<times> f64) proc" where
  "GetOrderDetails i =
     or_code NotFound (GetBuyOrderByID i) (\<lambda>order.
     seq (total_or_zero order) (\<lambda>totalCost.
     ret (order_to_pb order [] totalCost,
          map (\<lambda>b. bread_details order (o_Status order) b) (o_Breads order), totalCost)))"

section \<open>Invoices\<close>

text \<open>The header of an invoice, once it is stored; the items and the orders do not touch it.\<close>

definition invoice_added :: "Invoice \<Rightarrow> invoice_row list \<Rightarrow> buy_order_row list \<Rightarrow> int \<Rightarrow> db \<Rightarrow> bool" where
  "invoice_added x B orders i s \<longleftrightarrow> buy_order_t s = orders
     \<and> (\<exists>r. invoice_t s = B @ [r] \<and> iv_id r = i \<and> iv_buy_order_id r = inv_BuyOrderID x
          \<and> iv_number r = inv_InvoiceNumber x \<and> iv_status r = inv_Status x \<and> is_int32 i)"

lemma table_pred_invoice_added [simp]: "table_pred (invoice_added x B orders i)"
  by (simp add: table_pred_def invoice_added_def)

lemma insert_invoice_header_triple:
  "triple (\<lambda>s. invoice_t s = B \<and> buy_order_t s = orders) (insert_invoice_header x)
     (\<lambda>i. invoice_added x B orders i) (\<lambda>_ _. True)"
proof -
  let ?P = "\<lambda>s. invoice_t s = B \<and> buy_order_t s = orders"
  have P: "table_pred ?P" by (simp add: table_pred_def)
  have par: "triple ?P (param_numeric k y) (\<lambda>_. ?P) (\<lambda>_ _. True)" for k y
    by (rule triple_param_numeric) simp_all
  show ?thesis
    unfolding insert_invoice_header_def Let_def
    by (rule triple_seq [where R = "\<lambda>_. ?P"], simp add: triple_query,
        rule triple_stmt [OF P], rule triple_seq [OF par], rule triple_seq [OF par], rule triple_seq [OF par],
        rule triple_seq [OF triple_nextval [OF P]],
        rule triple_seq [where R = "\<lambda>_ s. invoice_added x B orders _ s"], rule triple_guarded)
      (auto simp: invoice_added_def insert_invoice_error_def invoice_row_error_def check_simps
        split: if_splits intro!: triple_ret)
qed

lemma insert_invoice_item_triple:
  "triple (invoice_added x B orders i) (insert_invoice_item j item) (\<lambda>_. invoice_added x B orders i) (\<lambda>_ _. True)"
proof -
  let ?P = "invoice_added x B orders i"
  have par: "triple ?P (param_numeric k y) (\<lambda>_. ?P) (\<lambda>_ _. True)" for k y
    by (rule triple_param_numeric) simp_all
  show ?thesis
    unfolding insert_invoice_item_def Let_def
    by (rule triple_stmt, simp, rule triple_seq [OF par], rule triple_seq [OF par],
        rule triple_seq [OF triple_nextval], simp, rule triple_guarded)
      (auto simp: invoice_added_def)
qed

lemma InsertInvoice_triple:
  "triple (\<lambda>s. invoice_t s = B \<and> buy_order_t s = orders) (InsertInvoice x)
     (\<lambda>i. invoice_added x B orders i) (\<lambda>_ _. True)"
  unfolding InsertInvoice_def
proof (rule triple_transaction)
  have loop: "triple (invoice_added x B orders i) (for_each (\<lambda>item _. insert_invoice_item i item) items ())
      (\<lambda>_. invoice_added x B orders i) (\<lambda>_ _. True)" for i items
    using triple_for_each [of "\<lambda>ys _. invoice_added x B orders i" "\<lambda>item _. insert_invoice_item i item"
        "\<lambda>_ _. True" "[]" "()" items] insert_invoice_item_triple by simp
  show "triple (\<lambda>s. invoice_t s = B \<and> buy_order_t s = orders)
     (seq (insert_invoice_header x) (\<lambda>newID.
      seq (for_each (\<lambda>item _. insert_invoice_item newID item) (inv_Items x) ()) (\<lambda>_. ret newID)))
     (\<lambda>i. invoice_added x B orders i) (\<lambda>_ _. True)"
    by (rule triple_seq [OF insert_invoice_header_triple], rule triple_seq [OF loop]) (auto intro: triple_ret)
qed (auto simp: table_pred_def invoice_added_def)

lemma load_order_calm:
  "faults s = [] \<Longrightarrow> load_order P s = (case filter P (buy_order_t s) of
       [] \<Rightarrow> (Inl ErrNoRows, s)
     | r # rs \<Rightarrow> (Inr (scan_details (details_of (bo_id r) s) (scan_order r)), s))"
  by (simp add: load_order_def seq_apply no_fault_simps split: list.split)

lemma existing_invoice_calm:
  "faults s = [] \<Longrightarrow> existing_invoice i s = (Inr (case filter (\<lambda>r. iv_buy_order_id r = i) (invoice_t s) of
       [] \<Rightarrow> None
     | r # rs \<Rightarrow> if 0 < iv_id r then Some (scan_invoice r) else None), s)"
  by (simp add: existing_invoice_def GetInvoiceByOrderID_def attempt_apply seq_apply no_fault_simps
      scan_invoice_def split: list.split)

lemma CreateInvoice_new:
  assumes "faults s = []" and "GetBuyOrderByID orderID s = (Inr ord, s)"
    and "filter (\<lambda>r. iv_buy_order_id r = orderID) (invoice_t s) = []"
  shows "CreateInvoice orderID s = (case InsertInvoice (pending_invoice ord (now s)) s of
      (Inl e, t) \<Rightarrow> (Inl Internal, t)
    | (Inr i, t) \<Rightarrow> (Inr (invoiceToProto ((pending_invoice ord (now s))\<lparr>inv_ID := i, inv_CreatedAt := now s\<rparr>)), t))"
  using assms
  by (simp add: CreateInvoice_def or_code_def attempt_Inr [of "GetBuyOrderByID orderID" s, OF assms(2)]
      attempt_apply seq_apply existing_invoice_calm split: prod.split sum.split)

text \<open>An order that is there is found when the database answers.\<close>

lemma order_found_calm:
  assumes "faults s = []" and "i \<in> bo_id ` set (buy_order_t s)"
  shows "\<exists>ord. GetBuyOrderByID i s = (Inr ord, s)"
  using assms by (auto simp: GetBuyOrderByID_def load_order_calm filter_empty_conv split: list.split)

lemma order_found_id:
  assumes "faults s = []" and "GetBuyOrderByID i s = (Inr ord, t)"
  shows "o_ID ord = i \<and> t = s \<and> i \<in> bo_id ` set (buy_order_t s)"
  using assms by (auto simp: GetBuyOrderByID_def load_order_calm scan_order_def filter_eq_Cons_iff split: list.splits)

text \<open>What an answer of \<open>CreateInvoice\<close> leaves: the first invoice of the order is the one in the answer.\<close>

definition invoiced_as :: "int \<Rightarrow> pbInvoice \<Rightarrow> db \<Rightarrow> bool" where
  "invoiced_as orderID x t \<longleftrightarrow> orderID \<in> bo_id ` set (buy_order_t t)
     \<and> (\<exists>r rs. filter (\<lambda>r. iv_buy_order_id r = orderID) (invoice_t t) = r # rs \<and> 0 < iv_id r
          \<and> int32 (iv_id r) = pi_Id x \<and> iv_number r = pi_InvoiceNumber x \<and> iv_status r = pi_Status x)"

lemma CreateInvoice_invoiced:
  assumes "CreateInvoice orderID s = (Inr x, t)" and "faults s = []"
    and "\<forall>r \<in> set (invoice_t s). 0 < iv_id r" and "0 < pi_Id x"
  shows "invoiced_as orderID x t"
proof -
  obtain ord where ord: "GetBuyOrderByID orderID s = (Inr ord, s)"
    using assms(1,2)
    by (auto simp: CreateInvoice_def or_code_def attempt_apply GetBuyOrderByID_def load_order_calm
        split: list.splits)
  note id = order_found_id [OF assms(2) ord]
  show ?thesis
  proof (cases "filter (\<lambda>r. iv_buy_order_id r = orderID) (invoice_t s)")
    case (Cons r rs)
    then have "0 < iv_id r" using assms(3) by (auto simp: filter_eq_Cons_iff)
    moreover from this have "CreateInvoice orderID s = (Inr (invoiceToProto (scan_invoice r)), s)"
      using ord Cons assms(2) by (simp add: CreateInvoice_def or_code_def attempt_apply seq_apply existing_invoice_calm)
    ultimately show ?thesis using assms(1) Cons id
      by (auto simp: invoiced_as_def invoiceToProto_def scan_invoice_def)
  next
    case Nil
    let ?inv = "pending_invoice ord (now s)"
    obtain i where i: "InsertInvoice ?inv s = (Inr i, t)" "x = invoiceToProto (?inv\<lparr>inv_ID := i, inv_CreatedAt := now s\<rparr>)"
      using assms(1) CreateInvoice_new [OF assms(2) ord Nil] by (auto split: prod.splits sum.splits)
    have "invoice_added ?inv (invoice_t s) (buy_order_t s) i t"
      using tripleD_Inr [OF InsertInvoice_triple _ i(1)] by blast
    then obtain r where r: "buy_order_t t = buy_order_t s" "invoice_t t = invoice_t s @ [r]" "iv_id r = i"
        "iv_buy_order_id r = o_ID ord" "iv_number r = inv_InvoiceNumber ?inv" "iv_status r = inv_Status ?inv" "is_int32 i"
      unfolding invoice_added_def by (auto simp: pending_invoice_def Let_def)
    have "0 < i" using assms(4) i(2) r(7) by (simp add: invoiceToProto_def)
    then show ?thesis using Nil r i(2) id by (auto simp: invoiced_as_def invoiceToProto_def)
  qed
qed

lemma invoiced_as_kept:
  assumes "invoiced_as orderID x t" and "kept t u"
  shows "invoiced_as orderID x u"
proof -
  obtain vs where "invoice_t u = invoice_t t @ vs" using assms(2) by (auto simp: kept_def)
  then show ?thesis using assms(1) kept_order_id [OF assms(2), of orderID] by (auto simp: invoiced_as_def)
qed


text \<open>A stored order without breads.\<close>

definition empty_order_db :: db where
  "empty_order_db = snd (InsertBuyOrder sample_order [] sample_db)"

definition first_order :: BuyOrder where
  "first_order = projr (fst (GetBuyOrderByID 1 empty_order_db))"


section \<open>Completed orders\<close>

lemma update_order_unmatched:
  assumes "UpdateOrderStatus uuid st s = (Inr u, t)" and "st \<notin> set buy_order_statuses"
  shows "filter (\<lambda>r. bo_uuid r = uuid) (buy_order_t t) = [] \<and> invoice_t t = invoice_t s"
proof -
  let ?upd = "\<lambda>r. r\<lparr>bo_status := st\<rparr>"
  obtain g where g: "sql_update_order (\<lambda>r. bo_uuid r = uuid) ?upd (s\<lparr>faults := g\<rparr>) = (Inr u, t)"
    using stmt_Inr [OF assms(1) [unfolded UpdateOrderStatus_def]] by blast
  let ?rs = "map ?upd (filter (\<lambda>r. bo_uuid r = uuid) (buy_order_t s))"
  have "filter (\<lambda>r. bo_uuid r = uuid) (buy_order_t s) = []"
  proof (rule ccontr)
    assume ne: "filter (\<lambda>r. bo_uuid r = uuid) (buy_order_t s) \<noteq> []"
    obtain e where "buy_order_row_error (hd ?rs) = Some e"
      using unknown_status_error [OF assms(2)] ne by (auto simp: hd_map)
    then have "\<exists>e. update_error buy_order_row_error (\<lambda>r. bo_uuid r = uuid) ?upd (buy_order_t s) = Some e"
      using first_error_hd [of ?rs buy_order_row_error e] ne by (auto simp: update_error_def)
    then show False using g by (auto simp: sql_update_order_def guarded_def)
  qed
  moreover have "update_where (\<lambda>r. bo_uuid r = uuid) ?upd (buy_order_t s) = buy_order_t s"
    using calculation by (auto simp: update_where_def filter_empty_conv intro: map_idI)
  moreover have "t = s\<lparr>faults := g, buy_order_t := update_where (\<lambda>r. bo_uuid r = uuid) ?upd (buy_order_t s)\<rparr>"
    using g by (auto simp: sql_update_order_def guarded_def split: option.splits)
  ultimately show ?thesis by simp
qed

text \<open>
  C32: completing an order never works, and never makes the invoice it is meant to make: the schema
  knows no status completed, so that \<open>UpdateOrderStatus\<close> answers every such request with an internal
  error and the invoices stay as they are, whatever is lost on the way to the database.
\<close>

theorem completing_never_invoices:
  "\<exists>t. Admin_UpdateOrderStatus uuid ''completed'' s = (Inl Internal, t) \<and> invoice_t t = invoice_t s"
proof -
  have bad: "''completed'' \<notin> set buy_order_statuses" by (simp add: buy_order_statuses_def)
  obtain x t where x: "UpdateOrderStatus uuid ''completed'' s = (x, t)" by fastforce
  have keep: "invoice_t (snd (m s)) = invoice_t s" if "keeps (\<lambda>t. invoice_t t = invoice_t s) m" for m :: "'b repo"
    using that by (simp add: keeps_def)
  show ?thesis
  proof (cases x)
    case (Inl e)
    have "keeps (\<lambda>t. invoice_t t = invoice_t s) (UpdateOrderStatus uuid ''completed'')"
      unfolding UpdateOrderStatus_def sql_update_order_def guarded_def
      by (intro keeps_stmt) (auto simp: keeps_def table_pred_def split: option.splits)
    then have "invoice_t t = invoice_t s" using keep x by fastforce
    then show ?thesis
      using x Inl by (simp add: Admin_UpdateOrderStatus_def or_code_def attempt_apply)
  next
    case (Inr u)
    note unmatched = update_order_unmatched [OF x [unfolded Inr] bad]
    obtain y v where y: "GetBuyOrderByUUID uuid t = (y, v)" by fastforce
    have "\<exists>e. y = Inl e"
    proof (rule ccontr)
      assume "\<nexists>e. y = Inl e"
      then obtain ord where "load_order (\<lambda>r. bo_uuid r = uuid) t = (Inr ord, v)"
        using y by (cases y) (auto simp: GetBuyOrderByUUID_def)
      from seq_Inr [OF this [unfolded load_order_def]] obtain r w
        where "query_row (\<lambda>s. filter (\<lambda>r. bo_uuid r = uuid) (buy_order_t s)) t = (Inr r, w)" by blast
      from query_row_Inr [OF this] show False using unmatched by simp
    qed
    moreover have "invoice_t v = invoice_t t"
    proof -
      have "keeps (\<lambda>v. invoice_t v = invoice_t t) (GetBuyOrderByUUID uuid)"
        unfolding GetBuyOrderByUUID_def load_order_def
        by (intro keeps_intros) (simp_all add: table_pred_def)
      then show ?thesis using y by (fastforce simp: keeps_def)
    qed
    ultimately show ?thesis
      using x Inr y unmatched by (auto simp: Admin_UpdateOrderStatus_def or_code_def attempt_apply)
  qed
qed

section \<open>The invariant\<close>

lemma keeps_or_code [keeps_intros]:
  "keeps I m \<Longrightarrow> (\<And>a. keeps I (k a)) \<Longrightarrow> keeps I (or_code c m k)"
  unfolding or_code_def by (intro keeps_intros)

lemma keeps_total_or_zero [keeps_intros]: "keeps db_inv (total_or_zero ord)"
  unfolding total_or_zero_def by (intro keeps_intros keeps_orders)

lemma keeps_list_orders [keeps_intros]: "keeps db_inv (list_orders f ords)"
  unfolding list_orders_def by (intro keeps_intros)

lemma keeps_existing_invoice [keeps_intros]: "keeps db_inv (existing_invoice i)"
  unfolding existing_invoice_def by (intro keeps_intros keeps_invoices)

lemma keeps_generateInvoice: "keeps db_inv (generateInvoiceForOrder ord c)"
  unfolding generateInvoiceForOrder_def Let_def by (intro keeps_intros keeps_invoices)

lemma keeps_admin:
  "keeps db_inv Admin_GetDashboardStats" "keeps db_inv Admin_GetAllCustomers"
  "keeps db_inv Admin_GetAllBreadMakers" "keeps db_inv GetAllBread" "keeps db_inv (Admin_GetBreadById i)"
  "keeps db_inv GetLowStockAlerts" "keeps db_inv (Admin_GetCustomerOrders i)"
  "keeps db_inv (Admin_GetMakerOrders i)" "keeps db_inv GetAllOrders" "keeps db_inv Admin_GetAllMakeOrders"
  "keeps db_inv (CreateBread f)" "keeps db_inv (Admin_UpdateBread i f)" "keeps db_inv (Admin_DeleteBread i)"
  "keeps db_inv (Admin_UpdateOrderStatus u st)"
  unfolding Admin_GetDashboardStats_def Admin_GetAllCustomers_def Admin_GetAllBreadMakers_def GetAllBread_def
    Admin_GetBreadById_def GetLowStockAlerts_def Admin_GetCustomerOrders_def Admin_GetMakerOrders_def
    GetAllOrders_def Admin_GetAllMakeOrders_def CreateBread_def Let_def Admin_UpdateBread_def
    Admin_DeleteBread_def Admin_UpdateOrderStatus_def
  by (intro keeps_intros keeps_accounts keeps_inventory keeps_orders keeps_generateInvoice)+

lemma keeps_invoicing:
  "keeps db_inv (CreateInvoice i)" "keeps db_inv (GetInvoice i)" "keeps db_inv (GetCustomerInvoices i)"
  "keeps db_inv Invoice_GetAllInvoices" "keeps db_inv (GetMyOrders i)" "keeps db_inv (GetMyInvoices i)"
  "keeps db_inv (GetOrderDetails i)"
  unfolding CreateInvoice_def GetInvoice_def GetCustomerInvoices_def Invoice_GetAllInvoices_def
    GetMyOrders_def GetMyInvoices_def GetOrderDetails_def
  by (intro keeps_intros keeps_accounts keeps_orders keeps_invoices)+

end
