(* ===== verification/Web.thy ===== *)
theory Web
  imports Access Admin
begin

text \<open>
  The web front end (\<open>frontend/cmd/web\<close>): what all its handlers share - cookies and the tokens in them,
  the guards in front of the pages, and calls to the server, which pass the server's own
  interceptor - and the logins (\<open>auth_handlers.go\<close>).
\<close>

section \<open>Requests and replies\<close>

text \<open>
  \<open>form\<close> is \<open>None\<close> when \<open>ParseForm\<close> fails; absent values are empty. The CSRF token is the one
  gorilla/csrf has for the request.
\<close>

record http_request =
  cookies :: "string \<Rightarrow> string option"
  form :: "(string \<Rightarrow> string) option"
  path_vars :: "string \<Rightarrow> string"
  url_query :: "string \<Rightarrow> string"
  csrf_token :: string

record cookie =
  ck_Name :: string
  ck_Value :: string
  ck_MaxAge :: int

datatype 'p reply =
    Redirect "cookie list" string
  | HttpError int string
  | Page string 'p

text \<open>
  The front end's surroundings: the secret and the libraries, its address, and the templates parsed
  at start-up, each with the error its execution ends in, if any.
\<close>

record web_env =
  wauth :: auth_env
  templates :: "string \<Rightarrow> string option option"
  web_addr :: string

text \<open>Behind it: the server, and the faults of the next calls to it (a deadline that passes is one).\<close>

record web =
  backend :: server
  grpc :: "fault list"

type_synonym 'p handler = "http_request \<Rightarrow> int \<Rightarrow> web \<Rightarrow> 'p reply \<times> web"

definition render :: "web_env \<Rightarrow> string \<Rightarrow> 'p \<Rightarrow> 'p reply" where
  "render W name p = (case templates W name of
     None \<Rightarrow> HttpError 500 ''Template not found''
   | Some None \<Rightarrow> Page name p
   | Some (Some err) \<Rightarrow> HttpError 500 err)"

text \<open>The public pages name the template, and put a prefix before what its execution reports.\<close>

definition render_public :: "web_env \<Rightarrow> string \<Rightarrow> string \<Rightarrow> 'p \<Rightarrow> 'p reply" where
  "render_public W prefix name p = (case templates W name of
     None \<Rightarrow> HttpError 500 (''Template not found: '' @ name)
   | Some None \<Rightarrow> Page name p
   | Some (Some err) \<Rightarrow> HttpError 500 (prefix @ err))"

section \<open>Calls to the server\<close>

text \<open>The context a call arrives with: the metadata sent along and the address of the front end.\<close>

definition incoming :: "web_env \<Rightarrow> (string \<times> string) list \<Rightarrow> gctx" where
  "incoming W hs = \<lparr>metadata = Some (\<lambda>k. map snd (filter (\<lambda>(k', v). k' = k) hs)),
     peer_addr = Some (web_addr W), role_claims = None, customer_value = None\<rparr>"

definition served :: "web_env \<Rightarrow> string \<Rightarrow> (string \<times> string) list \<Rightarrow> (gctx \<Rightarrow> (db, code, 'a) proc)
    \<Rightarrow> (web, code, 'a) proc" where
  "served W m hs h w = (case BuildInterceptorChain (wauth W) m (incoming W hs) h (backend w) of
     (r, s) \<Rightarrow> (r, w\<lparr>backend := s\<rparr>))"

definition grpc_call :: "web_env \<Rightarrow> string \<Rightarrow> (string \<times> string) list \<Rightarrow> (gctx \<Rightarrow> (db, code, 'a) proc)
    \<Rightarrow> (web, code, 'a) proc" where
  "grpc_call W m hs h w = (case grpc w of
     [] \<Rightarrow> served W m hs h w
   | f # fs \<Rightarrow> (let w' = w\<lparr>grpc := fs\<rparr> in
       case f of
         NoFault \<Rightarrow> served W m hs h w'
       | LostRequest \<Rightarrow> (Inl Unavailable, w')
       | LostReply \<Rightarrow> (Inl Unavailable, snd (served W m hs h w'))
       | CutAfter n \<Rightarrow> (Inl Unavailable, snd (served W m hs h w'))))"

section \<open>Tokens\<close>

text \<open>The front end gives the secret to whatever method a token names.\<close>

definition getJWTSecret :: "auth_env \<Rightarrow> signing_method \<Rightarrow> string option" where
  "getJWTSecret E m = Some (jwtSecret E)"

definition token_claims :: "auth_env \<Rightarrow> string \<Rightarrow> int \<Rightarrow> Claims option" where
  "token_claims E tokenString t =
     (case ParseWithClaims (jwt_lib E) tokenString (getJWTSecret E) t of
        None \<Rightarrow> None
      | Some (claims, valid) \<Rightarrow> if valid then Some claims else None)"

definition validateToken :: "auth_env \<Rightarrow> string \<Rightarrow> string \<Rightarrow> int \<Rightarrow> bool" where
  "validateToken E tokenString expectedType t =
     (case token_claims E tokenString t of
        None \<Rightarrow> False
      | Some claims \<Rightarrow> expectedType = [] \<or> UserType claims = expectedType)"

definition getCustomerIDFromToken :: "auth_env \<Rightarrow> http_request \<Rightarrow> int \<Rightarrow> int" where
  "getCustomerIDFromToken E r t =
     (case cookies r ''customer_token'' of
        None \<Rightarrow> 0
      | Some v \<Rightarrow> (case token_claims E v t of None \<Rightarrow> 0 | Some claims \<Rightarrow> UserID claims))"

definition getAdminUserFromToken :: "auth_env \<Rightarrow> http_request \<Rightarrow> int \<Rightarrow> int \<times> string \<times> string" where
  "getAdminUserFromToken E r t =
     (case cookies r ''admin_token'' of
        None \<Rightarrow> (0, [], [])
      | Some v \<Rightarrow> (case token_claims E v t of
           None \<Rightarrow> (0, [], [])
         | Some claims \<Rightarrow> (UserID claims, cl_Username claims, Role claims)))"

text \<open>The metadata of a customer's calls, and of an administrator's (\<open>None\<close> without a cookie).\<close>

definition customerGRPCContext :: "auth_env \<Rightarrow> http_request \<Rightarrow> int \<Rightarrow> (string \<times> string) list" where
  "customerGRPCContext E r t =
     (let customerID = getCustomerIDFromToken E r t;
          auth = (case cookies r ''customer_token'' of
            None \<Rightarrow> [] | Some v \<Rightarrow> if v = [] then [] else [(''authorization'', ''Bearer '' @ v)])
      in auth @ (if 0 < customerID then [(''customer_id'', Itoa customerID)] else []))"

definition adminGRPCContext :: "http_request \<Rightarrow> (string \<times> string) list option" where
  "adminGRPCContext r =
     (case cookies r ''admin_token'' of
        None \<Rightarrow> None
      | Some v \<Rightarrow> if v = [] then None else Some [(''authorization'', ''Bearer '' @ v)])"

section \<open>Guards\<close>

text \<open>Both guards differ in their cookie, user type and login page only.\<close>

definition require_auth :: "string \<Rightarrow> string \<Rightarrow> string \<Rightarrow> web_env \<Rightarrow> 'p handler \<Rightarrow> 'p handler" where
  "require_auth name kind login W next r t w =
     (case cookies r name of
        None \<Rightarrow> (Redirect [] login, w)
      | Some v \<Rightarrow>
          if v = [] then (Redirect [] login, w)
          else if \<not> validateToken (wauth W) v kind t then (Redirect [] (login @ ''?error=Session+expired''), w)
          else next r t w)"

definition RequireAdminAuth :: "web_env \<Rightarrow> 'p handler \<Rightarrow> 'p handler" where
  "RequireAdminAuth = require_auth ''admin_token'' ''admin'' ''/admin/login''"

definition RequireCustomerAuth :: "web_env \<Rightarrow> 'p handler \<Rightarrow> 'p handler" where
  "RequireCustomerAuth = require_auth ''customer_token'' ''customer'' ''/portal/login''"

section \<open>Logins\<close>

text \<open>The login pages, for a browser that may still be logged in.\<close>

record AuthTemplateData =
  auth_Title :: string
  auth_Error :: string
  auth_CSRFToken :: string

definition login_page ::
  "string \<Rightarrow> string \<Rightarrow> string \<Rightarrow> string \<Rightarrow> string \<Rightarrow> web_env \<Rightarrow> AuthTemplateData handler" where
  "login_page name kind home page title W r t w =
     (if \<exists>v \<in> set_option (cookies r name). v \<noteq> [] \<and> validateToken (wauth W) v kind t
      then (Redirect [] home, w)
      else (render W page \<lparr>auth_Title = title, auth_Error = url_query r ''error'',
              auth_CSRFToken = csrf_token r\<rparr>, w))"

definition AdminLoginPageHandler :: "web_env \<Rightarrow> AuthTemplateData handler" where
  "AdminLoginPageHandler = login_page ''admin_token'' ''admin'' ''/admin'' ''admin/login.html'' ''Admin Login''"

definition CustomerLoginPageHandler :: "web_env \<Rightarrow> AuthTemplateData handler" where
  "CustomerLoginPageHandler =
     login_page ''customer_token'' ''customer'' ''/portal'' ''portal/login.html'' ''Customer Login''"

text \<open>What a login does with the answer of the server; a day, in seconds, for the cookie.\<close>

definition session_cookie :: "string \<Rightarrow> string \<Rightarrow> cookie" where
  "session_cookie name token = \<lparr>ck_Name = name, ck_Value = token, ck_MaxAge = 86400\<rparr>"

definition login_reply :: "string \<Rightarrow> string \<Rightarrow> string \<Rightarrow> code + 'u LoginResponse \<Rightarrow> unit reply" where
  "login_reply name home login res =
     (case res of
        Inl err \<Rightarrow> Redirect [] (login @ ''?error=Login+failed'')
      | Inr response \<Rightarrow>
          if \<not> Success response then Redirect [] (login @ ''?error='' @ lr_Message response)
          else Redirect [session_cookie name (Token response)] home)"

definition AdminLoginHandler :: "web_env \<Rightarrow> unit handler" where
  "AdminLoginHandler W r t w =
     (case form r of
        None \<Rightarrow> (Redirect [] ''/admin/login?error=Invalid+form+data'', w)
      | Some f \<Rightarrow>
          (case grpc_call W ''/bread.AuthService/AdminLogin'' []
              (\<lambda>ctx. AdminLogin (wauth W) (f ''username'') (f ''password'')) w of
             (res, w') \<Rightarrow> (login_reply ''admin_token'' ''/admin'' ''/admin/login'' res, w')))"

definition CustomerLoginHandler :: "web_env \<Rightarrow> unit handler" where
  "CustomerLoginHandler W r t w =
     (case form r of
        None \<Rightarrow> (Redirect [] ''/portal/login?error=Invalid+form+data'', w)
      | Some f \<Rightarrow>
          (case grpc_call W ''/bread.AuthService/CustomerLogin'' []
              (\<lambda>ctx. CustomerLogin (wauth W) (f ''email'') (f ''password'')) w of
             (res, w') \<Rightarrow> (login_reply ''customer_token'' ''/portal'' ''/portal/login'' res, w')))"

definition expired_cookie :: "string \<Rightarrow> cookie" where
  "expired_cookie name = \<lparr>ck_Name = name, ck_Value = [], ck_MaxAge = - 1\<rparr>"

definition AdminLogoutHandler :: "unit handler" where
  "AdminLogoutHandler r t w = (Redirect [expired_cookie ''admin_token''] ''/admin/login'', w)"

definition CustomerLogoutHandler :: "unit handler" where
  "CustomerLogoutHandler r t w = (Redirect [expired_cookie ''customer_token''] ''/portal/login'', w)"

text \<open>A browser that takes the cookies of a reply.\<close>

definition browse :: "cookie list \<Rightarrow> http_request \<Rightarrow> http_request" where
  "browse cs r = r\<lparr>cookies := foldl (\<lambda>m c. m(ck_Name c := if ck_MaxAge c < 0 then None else Some (ck_Value c))) (cookies r) cs\<rparr>"

section \<open>Numbers in forms\<close>

text \<open>\<open>strconv.Atoi\<close>: an optional sign and digits, within 64 bits; anything else is an error.\<close>

definition Atoi :: "string \<Rightarrow> int option" where
  "Atoi s =
     (let (neg, ds) = (case s of
            [] \<Rightarrow> (False, [])
          | c # cs \<Rightarrow> if c = CHR ''-'' then (True, cs) else if c = CHR ''+'' then (False, cs) else (False, s));
          n = (if neg then - parse_digits ds else parse_digits ds)
      in if ds \<noteq> [] \<and> list_all is_digit ds \<and> is_int64 n then Some n else None)"

text \<open>
  Its value when the error is ignored: zero for what is not a number, the nearest limit for what is
  too large.
\<close>

definition Atoi_value :: "string \<Rightarrow> int" where
  "Atoi_value s = (case Atoi s of
     Some n \<Rightarrow> n
   | None \<Rightarrow>
       let ds = (if take 1 s = ''-'' \<or> take 1 s = ''+'' then drop 1 s else s)
       in if ds = [] \<or> \<not> list_all is_digit ds then 0
          else if take 1 s = ''-'' then - 9223372036854775808 else 9223372036854775807)"

text \<open>
  \<open>strconv.ParseFloat(s, 32)\<close>, its value as a \<open>float64\<close> when the error is ignored: a decimal
  number rounded to binary32 (an infinity beyond its range), an infinity or NaN by name, or zero.
  Hexadecimal notation is not modelled.
\<close>

definition rnd32 :: "rat \<Rightarrow> f64" where
  "rnd32 x =
     (if x = 0 then Fin 0
      else let u = pow2 (max (binade \<bar>x\<bar>) (- 126) - 23);
               r = of_int (round_half_even (x / u)) * u
           in if r \<noteq> 0 \<and> 128 \<le> binade \<bar>r\<bar> then (if 0 < r then PInf else NInf) else Fin r)"

definition lower :: "string \<Rightarrow> string" where
  "lower s = map (\<lambda>c. if 65 \<le> (of_char c :: nat) \<and> of_char c \<le> (90 :: nat) then char_of (of_char c + 32 :: nat) else c) s"

text \<open>Digits with an optional point, and an optional exponent.\<close>

definition mantissa :: "string \<Rightarrow> rat option" where
  "mantissa s =
     (let i = takeWhile is_digit s; rest = dropWhile is_digit s;
          f = (case rest of c # cs \<Rightarrow> if c = CHR ''.'' then Some cs else None | [] \<Rightarrow> Some [])
      in case f of
           None \<Rightarrow> None
         | Some ds \<Rightarrow> if i @ ds = [] \<or> \<not> list_all is_digit ds then None
             else Some (of_int (parse_digits (i @ ds)) / 10 ^ length ds))"

definition power10 :: "int \<Rightarrow> rat" where
  "power10 e = (if 0 \<le> e then 10 ^ nat e else 1 / 10 ^ nat (- e))"

definition decimal :: "string \<Rightarrow> rat option" where
  "decimal s =
     (let m = takeWhile (\<lambda>c. c \<noteq> CHR ''e'') s; rest = drop (length m) s
      in case mantissa m of
           None \<Rightarrow> None
         | Some x \<Rightarrow> (case rest of
              [] \<Rightarrow> Some x
            | e # es \<Rightarrow> map_option (\<lambda>n. x * power10 n) (Atoi es)))"

definition ParseFloat32 :: "string \<Rightarrow> f64" where
  "ParseFloat32 s0 =
     (let s = lower s0;
          neg = (take 1 s = ''-'');
          u = (if neg \<or> take 1 s = ''+'' then drop 1 s else s)
      in if u = ''inf'' \<or> u = ''infinity'' then (if neg then NInf else PInf)
         else if s = ''nan'' then NaN
         else (case decimal u of None \<Rightarrow> Fin 0 | Some x \<Rightarrow> rnd32 (if neg then - x else x)))"

lemma ParseFloat32_examples:
  "ParseFloat32 ''0.5'' = Fin (1 / 2)" "ParseFloat32 ''-12e1'' = Fin (- 120)" "ParseFloat32 ''x'' = Fin 0"
  "ParseFloat32 ''Inf'' = PInf" "ParseFloat32 ''16777217'' = Fin 16777216"
  by code_simp+

end
