(* ===== verification/Portal.thy ===== *)
theory Portal
  imports Web
begin

text \<open>
  The customers' portal of the front end (\<open>auth_handlers.go\<close>): the pages of orders and invoices,
  from the cookie of the browser to the rows of the server's database, and what a customer can get
  to see.
\<close>

section \<open>Pages\<close>

record PortalTemplateData =
  Title :: string
  ActivePage :: string
  CustomerName :: string
  CustomerID :: int
  page_Customer :: "pbCustomer option"
  page_Orders :: "pbOrder list"
  page_Order :: "pbOrder option"
  page_Details :: "BuyOrderDetails list"
  page_Invoices :: "pbInvoice list"
  page_Invoice :: "pbInvoice option"
  page_TotalCost :: f64
  page_TotalOrders :: int
  page_TotalInvoices :: int
  page_TotalSpent :: f64
  RecentOrders :: "pbOrder list"
  RecentInvoices :: "pbInvoice list"

definition portal_data :: "string \<Rightarrow> string \<Rightarrow> PortalTemplateData" where
  "portal_data title active = \<lparr>Title = title, ActivePage = active, CustomerName = [], CustomerID = 0,
     page_Customer = None, page_Orders = [], page_Order = None, page_Details = [], page_Invoices = [],
     page_Invoice = None, page_TotalCost = 0, page_TotalOrders = 0, page_TotalInvoices = 0,
     page_TotalSpent = 0, RecentOrders = [], RecentInvoices = []\<rparr>"

section \<open>Calls\<close>

definition call_GetMyOrders :: "web_env \<Rightarrow> (string \<times> string) list \<Rightarrow> int \<Rightarrow> (web, code, pbCustomer \<times> pbOrder list) proc" where
  "call_GetMyOrders W hs i = grpc_call W ''/bread.CustomerPortalService/GetMyOrders'' hs (\<lambda>ctx. GetMyOrders i)"

definition call_GetMyInvoices :: "web_env \<Rightarrow> (string \<times> string) list \<Rightarrow> int \<Rightarrow> (web, code, pbInvoice list) proc" where
  "call_GetMyInvoices W hs i = grpc_call W ''/bread.CustomerPortalService/GetMyInvoices'' hs (\<lambda>ctx. GetMyInvoices i)"

definition call_GetOrderDetails ::
  "web_env \<Rightarrow> (string \<times> string) list \<Rightarrow> int \<Rightarrow> (web, code, pbOrder \<times> BuyOrderDetails list \<times> f64) proc" where
  "call_GetOrderDetails W hs i = grpc_call W ''/bread.CustomerPortalService/GetOrderDetails'' hs (\<lambda>ctx. GetOrderDetails i)"

definition call_GetInvoice :: "web_env \<Rightarrow> (string \<times> string) list \<Rightarrow> int \<Rightarrow> (web, code, pbInvoice) proc" where
  "call_GetInvoice W hs i = grpc_call W ''/bread.InvoiceService/GetInvoice'' hs (\<lambda>ctx. GetInvoice i)"

section \<open>Handlers\<close>

text \<open>All of them go back to the login without a customer's token.\<close>

definition with_customer :: "web_env \<Rightarrow> (int \<Rightarrow> (string \<times> string) list \<Rightarrow> web \<Rightarrow> 'p reply \<times> web) \<Rightarrow> 'p handler" where
  "with_customer W page r t w =
     (let customerID = getCustomerIDFromToken (wauth W) r t
      in if customerID = 0 then (Redirect [] ''/portal/login'', w)
         else page customerID (customerGRPCContext (wauth W) r t) w)"

text \<open>The name on a page, from a call whose failure is not looked at.\<close>

definition customer_name :: "web_env \<Rightarrow> (string \<times> string) list \<Rightarrow> int \<Rightarrow> web \<Rightarrow> string \<times> web" where
  "customer_name W hs i w = (case call_GetMyOrders W hs i w of
     (Inl err, w') \<Rightarrow> ([], w')
   | (Inr (customer, orders), w') \<Rightarrow> (pc_Name customer, w'))"

definition with_orders :: "(code + pbCustomer \<times> pbOrder list) \<Rightarrow> PortalTemplateData \<Rightarrow> PortalTemplateData" where
  "with_orders res p = (case res of
     Inl err \<Rightarrow> p
   | Inr (customer, orders) \<Rightarrow> p\<lparr>page_Customer := Some customer, page_Orders := orders,
       page_TotalOrders := int (length orders), CustomerName := pc_Name customer, CustomerID := pc_Id customer,
       page_TotalSpent := foldl (\<lambda>acc ord. acc + po_TotalCost ord) 0 orders,
       RecentOrders := take 5 orders\<rparr>)"

definition with_invoices :: "(code + pbInvoice list) \<Rightarrow> PortalTemplateData \<Rightarrow> PortalTemplateData" where
  "with_invoices res p = (case res of
     Inl err \<Rightarrow> p
   | Inr invoices \<Rightarrow> p\<lparr>page_Invoices := invoices, page_TotalInvoices := int (length invoices),
       RecentInvoices := take 5 invoices\<rparr>)"

definition CustomerPortalDashboardHandler :: "web_env \<Rightarrow> PortalTemplateData handler" where
  "CustomerPortalDashboardHandler W = with_customer W (\<lambda>customerID hs w.
     case call_GetMyOrders W hs (int32 customerID) w of
       (ordersResp, w1) \<Rightarrow> (case call_GetMyInvoices W hs (int32 customerID) w1 of
         (invoicesResp, w2) \<Rightarrow>
           (render W ''portal/base.html''
              (with_invoices invoicesResp (with_orders ordersResp (portal_data ''My Dashboard'' ''dashboard''))), w2)))"

definition CustomerOrdersHandler :: "web_env \<Rightarrow> PortalTemplateData handler" where
  "CustomerOrdersHandler W = with_customer W (\<lambda>customerID hs w.
     case call_GetMyOrders W hs (int32 customerID) w of
       (Inl err, w1) \<Rightarrow> (HttpError 500 ''Failed to get orders'', w1)
     | (Inr (customer, orders), w1) \<Rightarrow>
         (render W ''portal/orders.html'' ((portal_data ''My Orders'' ''orders'')
            \<lparr>page_Customer := Some customer, page_Orders := orders, CustomerName := pc_Name customer\<rparr>), w1))"

definition CustomerOrderDetailHandler :: "web_env \<Rightarrow> PortalTemplateData handler" where
  "CustomerOrderDetailHandler W r = with_customer W (\<lambda>customerID hs w.
     case Atoi (path_vars r ''id'') of
       None \<Rightarrow> (HttpError 400 ''Invalid order ID'', w)
     | Some orderID \<Rightarrow>
         (case call_GetOrderDetails W hs (int32 orderID) w of
            (Inl err, w1) \<Rightarrow> (HttpError 404 ''Order not found'', w1)
          | (Inr (order, details, totalCost), w1) \<Rightarrow>
              if po_CustomerId order \<noteq> int32 customerID then (HttpError 403 ''Unauthorized'', w1)
              else (case customer_name W hs (int32 customerID) w1 of
                (name, w2) \<Rightarrow>
                  (render W ''portal/order_detail.html'' ((portal_data ''Order Details'' ''orders'')
                     \<lparr>CustomerName := name, page_Order := Some order, page_Details := details,
                      page_TotalCost := totalCost\<rparr>), w2)))) r"

definition CustomerInvoicesHandler :: "web_env \<Rightarrow> PortalTemplateData handler" where
  "CustomerInvoicesHandler W = with_customer W (\<lambda>customerID hs w.
     case call_GetMyInvoices W hs (int32 customerID) w of
       (Inl err, w1) \<Rightarrow> (HttpError 500 ''Failed to get invoices'', w1)
     | (Inr invoices, w1) \<Rightarrow>
         (case customer_name W hs (int32 customerID) w1 of
            (name, w2) \<Rightarrow>
              (render W ''portal/invoices.html'' ((portal_data ''My Invoices'' ''invoices'')
                 \<lparr>CustomerName := name, page_Invoices := invoices\<rparr>), w2)))"

definition CustomerInvoiceDetailHandler :: "web_env \<Rightarrow> PortalTemplateData handler" where
  "CustomerInvoiceDetailHandler W r = with_customer W (\<lambda>customerID hs w.
     case Atoi (path_vars r ''id'') of
       None \<Rightarrow> (HttpError 400 ''Invalid invoice ID'', w)
     | Some invoiceID \<Rightarrow>
         (case call_GetInvoice W hs (int32 invoiceID) w of
            (Inl err, w1) \<Rightarrow> (HttpError 404 ''Invoice not found'', w1)
          | (Inr invoice, w1) \<Rightarrow>
              if pi_CustomerId invoice \<noteq> int32 customerID then (HttpError 403 ''Unauthorized'', w1)
              else (case customer_name W hs (int32 customerID) w1 of
                (name, w2) \<Rightarrow>
                  (render W ''portal/invoice_detail.html'' ((portal_data ''Invoice Details'' ''invoices'')
                     \<lparr>CustomerName := name, page_Invoice := Some invoice\<rparr>), w2)))) r"

section \<open>Routes\<close>

text \<open>The portal's routes of \<open>main\<close>, all of them \<open>GET\<close>.\<close>

datatype portal_route = Dashboard | OrderList | OrderDetail | InvoiceList | InvoiceDetail

fun portal :: "web_env \<Rightarrow> portal_route \<Rightarrow> PortalTemplateData handler" where
  "portal W Dashboard = RequireCustomerAuth W (CustomerPortalDashboardHandler W)"
| "portal W OrderList = RequireCustomerAuth W (CustomerOrdersHandler W)"
| "portal W OrderDetail = RequireCustomerAuth W (CustomerOrderDetailHandler W)"
| "portal W InvoiceList = RequireCustomerAuth W (CustomerInvoicesHandler W)"
| "portal W InvoiceDetail = RequireCustomerAuth W (CustomerInvoiceDetailHandler W)"

section \<open>Whose orders a page shows\<close>

text \<open>A procedure gives only values in \<open>P\<close>, from any state.\<close>

definition gives :: "('s, 'e, 'a) proc \<Rightarrow> ('a \<Rightarrow> bool) \<Rightarrow> bool" where
  "gives m P \<longleftrightarrow> (\<forall>s a t. m s = (Inr a, t) \<longrightarrow> P a)"

lemma givesI: "(\<And>s a t. m s = (Inr a, t) \<Longrightarrow> P a) \<Longrightarrow> gives m P"
  unfolding gives_def by blast

lemma givesD: "gives m P \<Longrightarrow> m s = (Inr a, t) \<Longrightarrow> P a"
  unfolding gives_def by blast

lemma gives_ret: "P a \<Longrightarrow> gives (ret a) P"
  by (auto intro: givesI)

lemma gives_fail: "gives (fail e) P"
  by (auto intro: givesI)

lemma gives_any: "(\<And>a. P a) \<Longrightarrow> gives m P"
  by (rule givesI)

lemma gives_attempt:
  assumes "gives m R" and "\<And>e. gives (h e) P" and "\<And>a. R a \<Longrightarrow> gives (k a) P"
  shows "gives (attempt m h k) P"
proof (rule givesI)
  fix s a t assume "attempt m h k s = (Inr a, t)"
  then show "P a"
  proof (cases rule: attempt_cases)
    case (1 e u)
    then show ?thesis using givesD [OF assms(2)] by blast
  next
    case (2 b u)
    then show ?thesis using givesD [OF assms(1) 2(1)] givesD [OF assms(3)] by blast
  qed
qed

lemma gives_seq: "gives m R \<Longrightarrow> (\<And>a. R a \<Longrightarrow> gives (k a) P) \<Longrightarrow> gives (seq m k) P"
  unfolding seq_def by (rule gives_attempt [of m R]) (auto intro: gives_fail)

lemma gives_for_each:
  "P b \<Longrightarrow> (\<And>x b. x \<in> set xs \<Longrightarrow> P b \<Longrightarrow> gives (f x b) P) \<Longrightarrow> gives (for_each f xs b) P"
proof (induction xs arbitrary: b)
  case (Cons x xs)
  show ?case unfolding for_each.simps by (rule gives_seq [of _ P]) (use Cons in auto)
qed (simp add: gives_ret)

lemma gives_query_rows: "gives (query_rows f) (\<lambda>(rows, broken). \<exists>s. set rows \<subseteq> set (f s))"
  by (rule givesI) (auto simp: query_rows_def Let_def split: list.splits fault.splits dest: in_set_takeD)

lemma gives_query_row: "gives (query_row f) (\<lambda>r. \<exists>s. r \<in> set (f s))"
proof (rule givesI)
  fix s r t assume "query_row f s = (Inr r, t)"
  from query_row_Inr [OF this] obtain g rs where "f (s\<lparr>faults := g\<rparr>) = r # rs" by blast
  then have "r \<in> set (f (s\<lparr>faults := g\<rparr>))" by simp
  then show "\<exists>s. r \<in> set (f s)" by blast
qed

lemma gives_or_code: "gives m R \<Longrightarrow> (\<And>a. R a \<Longrightarrow> gives (k a) P) \<Longrightarrow> gives (or_code c m k) P"
  unfolding or_code_def by (rule gives_attempt [of m R]) (auto intro: gives_fail)

lemma customer_scan_details: "o_CustomerID (scan_details rows ord) = o_CustomerID ord"
proof -
  have "o_CustomerID (fold (\<lambda>d ord. ord\<lparr>o_CreatedAt := od_created_at d, o_UpdatedAt := od_updated_at d\<rparr>) rows ord)
    = o_CustomerID ord" by (induction rows arbitrary: ord) simp_all
  then show ?thesis by (simp add: scan_details_def)
qed

lemma gives_GetCustomerOrders: "gives (GetCustomerOrders i) (\<lambda>os. \<forall>x \<in> set os. o_CustomerID x = i)"
  unfolding GetCustomerOrders_def
proof (rule gives_seq [OF gives_query_rows], clarify)
  fix rows broken s
  assume "set rows \<subseteq> set (rev (sort_key bo_id (filter (\<lambda>r. bo_customer_id r = i) (buy_order_t s))))"
  then have "\<forall>r \<in> set rows. bo_customer_id r = i" by auto
  then show "gives (for_each (\<lambda>r orders. attempt (query_rows (details_of (bo_id r))) (\<lambda>e. ret orders)
      (\<lambda>(rows, cut). ret (orders @ [scan_details rows (scan_order r)]))) rows [])
      (\<lambda>os. \<forall>x \<in> set os. o_CustomerID x = i)"
    by (intro gives_for_each gives_attempt [OF gives_any] gives_ret)
       (auto intro!: gives_ret simp: customer_scan_details scan_order_def)
qed

lemma gives_GetInvoices: "gives (GetInvoicesByCustomerID i) (\<lambda>xs. \<forall>x \<in> set xs. inv_CustomerID x = i)"
  unfolding GetInvoicesByCustomerID_def
  by (rule gives_seq [OF gives_query_rows]) (auto intro!: gives_ret simp: scan_invoice_def subset_iff)

lemma gives_GetCustomerByID: "gives (GetCustomerByID i) (\<lambda>c. c_ID c = i)"
  unfolding GetCustomerByID_def
  by (rule gives_seq [OF gives_query_row]) (auto intro!: gives_ret simp: scan_customer_def)

lemma gives_list_orders:
  "\<forall>x \<in> set os. o_CustomerID x = i \<Longrightarrow> gives (list_orders st os) (\<lambda>ps. \<forall>p \<in> set ps. po_CustomerId p = int32 i)"
  unfolding list_orders_def
  by (intro gives_for_each gives_seq [OF gives_any] gives_ret) (auto simp: order_to_pb_def)

lemma gives_GetMyOrders:
  "gives (GetMyOrders i) (\<lambda>(c, os). pc_Id c = int32 i \<and> (\<forall>p \<in> set os. po_CustomerId p = int32 i))"
  unfolding GetMyOrders_def
  by (rule gives_or_code [OF gives_GetCustomerByID], rule gives_or_code [OF gives_GetCustomerOrders],
      rule gives_seq [OF gives_list_orders])
     (auto intro!: gives_ret simp: customer_to_pb_def)

lemma gives_GetMyInvoices: "gives (GetMyInvoices i) (\<lambda>xs. \<forall>x \<in> set xs. pi_CustomerId x = int32 i)"
  unfolding GetMyInvoices_def
  by (rule gives_or_code [OF gives_GetInvoices]) (auto intro!: gives_ret simp: invoiceToProto_def)

lemma gives_GetOrderDetails:
  "gives (GetOrderDetails i) (\<lambda>(ord, ds, c). \<forall>d \<in> set ds. dt_BuyOrderId d = po_Id ord)"
  unfolding GetOrderDetails_def
  by (rule gives_or_code [OF gives_any], simp, rule gives_seq [OF gives_any])
     (auto intro!: gives_ret simp: order_to_pb_def bread_details_def)

lemma gives_on_db: "gives h P \<Longrightarrow> gives (on_db h) P"
  by (auto simp: gives_def on_db_def split: prod.splits)

lemma gives_served: "(\<And>ctx. gives (h ctx) P) \<Longrightarrow> gives (served W m hs h) P"
proof (rule givesI)
  fix w a w' assume h: "\<And>ctx. gives (h ctx) P" and "served W m hs h w = (Inr a, w')"
  then obtain s where "BuildInterceptorChain (wauth W) m (incoming W hs) h (backend w) = (Inr a, s)"
    by (auto simp: served_def split: prod.splits)
  then show "P a" using givesD [OF gives_on_db [OF h]]
    by (auto simp: BuildInterceptorChain_def split: prod.splits bool.splits sum.splits)
qed

lemma gives_grpc_call: "(\<And>ctx. gives (h ctx) P) \<Longrightarrow> gives (grpc_call W m hs h) P"
  using gives_served [of h P W m hs]
  by (auto simp: gives_def grpc_call_def Let_def split: list.splits fault.splits)

definition own_page :: "int \<Rightarrow> PortalTemplateData \<Rightarrow> bool" where
  "own_page i p \<longleftrightarrow>
     (\<forall>x \<in> set (page_Orders p) \<union> set (RecentOrders p) \<union> set_option (page_Order p). po_CustomerId x = i)
     \<and> (\<forall>x \<in> set (page_Invoices p) \<union> set (RecentInvoices p) \<union> set_option (page_Invoice p). pi_CustomerId x = i)
     \<and> (\<forall>c \<in> set_option (page_Customer p). pc_Id c = i)
     \<and> (\<forall>d \<in> set (page_Details p). \<exists>x \<in> set_option (page_Order p). dt_BuyOrderId d = po_Id x)"

lemma render_Page: "render W n p = Page m q \<longleftrightarrow> templates W n = Some None \<and> m = n \<and> q = p"
  by (auto simp: render_def split: option.splits)

lemma own_portal_data: "own_page i (portal_data title active)"
  by (simp add: own_page_def portal_data_def)

lemma int32_idem [simp]: "int32 (int32 x) = int32 x"
  by simp

lemma call_gives:
  "call_GetMyOrders W hs i w = (Inr (c, os), w') \<Longrightarrow> pc_Id c = int32 i \<and> (\<forall>x \<in> set os. po_CustomerId x = int32 i)"
  "call_GetMyInvoices W hs i w = (Inr xs, w') \<Longrightarrow> \<forall>x \<in> set xs. pi_CustomerId x = int32 i"
  "call_GetOrderDetails W hs i w = (Inr (ord, ds, cost), w') \<Longrightarrow> \<forall>d \<in> set ds. dt_BuyOrderId d = po_Id ord"
  unfolding call_GetMyOrders_def call_GetMyInvoices_def call_GetOrderDetails_def
  using givesD [OF gives_grpc_call [OF gives_GetMyOrders]] givesD [OF gives_grpc_call [OF gives_GetMyInvoices]]
    givesD [OF gives_grpc_call [OF gives_GetOrderDetails]]
  by fastforce+

text \<open>What the handlers put on a page, whoever asks.\<close>

definition own_handler :: "web_env \<Rightarrow> PortalTemplateData handler \<Rightarrow> bool" where
  "own_handler W h \<longleftrightarrow> (\<forall>r t w name p w'. h r t w = (Page name p, w')
     \<longrightarrow> own_page (int32 (getCustomerIDFromToken (wauth W) r t)) p)"

lemma own_handlerI:
  assumes "\<And>r. h r = with_customer W (page r) r"
    and "\<And>r i hs w name p w'. page r i hs w = (Page name p, w') \<Longrightarrow> own_page (int32 i) p"
  shows "own_handler W h"
  unfolding own_handler_def assms(1) with_customer_def Let_def
  using assms(2) by (auto split: if_splits)

lemma own_Dashboard: "own_handler W (CustomerPortalDashboardHandler W)"
proof (rule own_handlerI, simp only: CustomerPortalDashboardHandler_def)
  fix i hs w name p w'
  assume h: "(case call_GetMyOrders W hs (int32 i) w of (ordersResp, w1) \<Rightarrow>
      case call_GetMyInvoices W hs (int32 i) w1 of (invoicesResp, w2) \<Rightarrow>
        (render W ''portal/base.html''
           (with_invoices invoicesResp (with_orders ordersResp (portal_data ''My Dashboard'' ''dashboard''))), w2))
    = (Page name p, w')"
  obtain x w1 where 1: "call_GetMyOrders W hs (int32 i) w = (x, w1)" by fastforce
  obtain y w2 where 2: "call_GetMyInvoices W hs (int32 i) w1 = (y, w2)" by fastforce
  have p: "p = with_invoices y (with_orders x (portal_data ''My Dashboard'' ''dashboard''))"
    using h 1 2 by (simp add: render_Page)
  have "own_page (int32 i) (with_orders x (portal_data ''My Dashboard'' ''dashboard''))"
  proof (cases x)
    case (Inr a)
    then obtain c os where a: "x = Inr (c, os)" by (cases a) auto
    then show ?thesis using call_gives(1) [OF 1 [unfolded a]]
      by (auto simp: with_orders_def own_page_def portal_data_def dest: in_set_takeD)
  qed (simp add: with_orders_def own_portal_data)
  then show "own_page (int32 i) p" unfolding p
  proof (cases y)
    case (Inr a)
    assume "own_page (int32 i) (with_orders x (portal_data ''My Dashboard'' ''dashboard''))"
    then show "own_page (int32 i) (with_invoices y (with_orders x (portal_data ''My Dashboard'' ''dashboard'')))"
      using call_gives(2) [OF 2 [unfolded Inr]] Inr
      by (auto simp: with_invoices_def own_page_def dest: in_set_takeD)
  qed (simp add: with_invoices_def)
qed

lemma own_Orders: "own_handler W (CustomerOrdersHandler W)"
proof (rule own_handlerI, simp only: CustomerOrdersHandler_def)
  fix i hs w name p w'
  assume h: "(case call_GetMyOrders W hs (int32 i) w of
       (Inl err, w1) \<Rightarrow> (HttpError 500 ''Failed to get orders'', w1)
     | (Inr (customer, orders), w1) \<Rightarrow>
         (render W ''portal/orders.html'' ((portal_data ''My Orders'' ''orders'')
            \<lparr>page_Customer := Some customer, page_Orders := orders, CustomerName := pc_Name customer\<rparr>), w1))
     = (Page name p, w')"
  then obtain c os w1 where 1: "call_GetMyOrders W hs (int32 i) w = (Inr (c, os), w1)"
    by (auto split: prod.splits sum.splits)
  then show "own_page (int32 i) p"
    using h call_gives(1) [OF 1] by (auto simp: render_Page own_page_def portal_data_def)
qed

lemma own_Invoices: "own_handler W (CustomerInvoicesHandler W)"
proof (rule own_handlerI, simp only: CustomerInvoicesHandler_def)
  fix i hs w name p w'
  assume h: "(case call_GetMyInvoices W hs (int32 i) w of
       (Inl err, w1) \<Rightarrow> (HttpError 500 ''Failed to get invoices'', w1)
     | (Inr invoices, w1) \<Rightarrow>
         (case customer_name W hs (int32 i) w1 of
            (name, w2) \<Rightarrow>
              (render W ''portal/invoices.html'' ((portal_data ''My Invoices'' ''invoices'')
                 \<lparr>CustomerName := name, page_Invoices := invoices\<rparr>), w2)))
     = (Page name p, w')"
  then obtain xs w1 where 1: "call_GetMyInvoices W hs (int32 i) w = (Inr xs, w1)"
    by (auto split: prod.splits sum.splits)
  then show "own_page (int32 i) p"
    using h call_gives(2) [OF 1] by (auto simp: render_Page own_page_def portal_data_def split: prod.splits)
qed

lemma own_OrderDetail: "own_handler W (CustomerOrderDetailHandler W)"
proof (rule own_handlerI, simp only: CustomerOrderDetailHandler_def)
  fix r i hs w name p w'
  assume h: "(case Atoi (path_vars r ''id'') of
       None \<Rightarrow> (HttpError 400 ''Invalid order ID'', w)
     | Some orderID \<Rightarrow>
         (case call_GetOrderDetails W hs (int32 orderID) w of
            (Inl err, w1) \<Rightarrow> (HttpError 404 ''Order not found'', w1)
          | (Inr (order, details, totalCost), w1) \<Rightarrow>
              if po_CustomerId order \<noteq> int32 i then (HttpError 403 ''Unauthorized'', w1)
              else (case customer_name W hs (int32 i) w1 of
                (name, w2) \<Rightarrow>
                  (render W ''portal/order_detail.html'' ((portal_data ''Order Details'' ''orders'')
                     \<lparr>CustomerName := name, page_Order := Some order, page_Details := details,
                      page_TotalCost := totalCost\<rparr>), w2)))) = (Page name p, w')"
  then obtain n ord ds c w1 where 1: "call_GetOrderDetails W hs (int32 n) w = (Inr (ord, ds, c), w1)"
      "Atoi (path_vars r ''id'') = Some n"
    by (auto split: prod.splits sum.splits option.splits)
  then show "own_page (int32 i) p"
    using h call_gives(3) [OF 1(1)]
    by (auto simp: render_Page own_page_def portal_data_def split: prod.splits if_splits)
qed

lemma own_InvoiceDetail: "own_handler W (CustomerInvoiceDetailHandler W)"
proof (rule own_handlerI, simp only: CustomerInvoiceDetailHandler_def)
  fix r i hs w name p w'
  assume h: "(case Atoi (path_vars r ''id'') of
       None \<Rightarrow> (HttpError 400 ''Invalid invoice ID'', w)
     | Some invoiceID \<Rightarrow>
         (case call_GetInvoice W hs (int32 invoiceID) w of
            (Inl err, w1) \<Rightarrow> (HttpError 404 ''Invoice not found'', w1)
          | (Inr invoice, w1) \<Rightarrow>
              if pi_CustomerId invoice \<noteq> int32 i then (HttpError 403 ''Unauthorized'', w1)
              else (case customer_name W hs (int32 i) w1 of
                (name, w2) \<Rightarrow>
                  (render W ''portal/invoice_detail.html'' ((portal_data ''Invoice Details'' ''invoices'')
                     \<lparr>CustomerName := name, page_Invoice := Some invoice\<rparr>), w2)))) = (Page name p, w')"
  then show "own_page (int32 i) p"
    by (auto simp: render_Page own_page_def portal_data_def
        split: prod.splits if_splits option.splits sum.splits)
qed

definition portal_handler :: "web_env \<Rightarrow> portal_route \<Rightarrow> PortalTemplateData handler" where
  "portal_handler W route = (case route of
     Dashboard \<Rightarrow> CustomerPortalDashboardHandler W | OrderList \<Rightarrow> CustomerOrdersHandler W
   | OrderDetail \<Rightarrow> CustomerOrderDetailHandler W | InvoiceList \<Rightarrow> CustomerInvoicesHandler W
   | InvoiceDetail \<Rightarrow> CustomerInvoiceDetailHandler W)"

lemma portal_conv: "portal W route = RequireCustomerAuth W (portal_handler W route)"
  by (cases route) (simp_all add: portal_handler_def)

lemma own_portal_handler: "own_handler W (portal_handler W route)"
  by (cases route) (simp_all add: portal_handler_def own_Dashboard own_Orders own_Invoices own_OrderDetail
      own_InvoiceDetail)

text \<open>
  C30: The portal shows a customer nothing of another: a page is shown only for a cookie with a
  valid token of a customer, and every order, invoice and customer on it, and every detail of an
  order, belongs to the customer of that token; any other request is sent to the login, and the
  server is not asked.
\<close>

theorem portal_shows_own:
  "case portal W route r t w of (rep, w') \<Rightarrow>
     (\<exists>v c. cookies r ''customer_token'' = Some v \<and> token_claims (wauth W) v t = Some c
        \<and> UserType c = ''customer'' \<and> (\<forall>name p. rep = Page name p \<longrightarrow> own_page (int32 (UserID c)) p))
     \<or> w' = w \<and> (\<exists>url. rep = Redirect [] url)"
proof (cases "\<exists>v. cookies r ''customer_token'' = Some v \<and> v \<noteq> [] \<and> validateToken (wauth W) v ''customer'' t")
  case True
  then obtain v c where v: "cookies r ''customer_token'' = Some v" "v \<noteq> []" "validateToken (wauth W) v ''customer'' t"
      "token_claims (wauth W) v t = Some c" "UserType c = ''customer''"
    by (auto simp: validateToken_def split: option.splits)
  obtain rep w' where h: "portal_handler W route r t w = (rep, w')" by fastforce
  then have "portal W route r t w = (rep, w')"
    using v by (simp add: portal_conv RequireCustomerAuth_def require_auth_def)
  moreover have "getCustomerIDFromToken (wauth W) r t = UserID c" using v by (simp add: getCustomerIDFromToken_def)
  then have "own_page (int32 (UserID c)) p" if "rep = Page name p" for name p
    using own_portal_handler [of W route] h that unfolding own_handler_def by metis
  ultimately show ?thesis using v by auto
next
  case False
  then show ?thesis
    by (auto simp: portal_conv RequireCustomerAuth_def require_auth_def split: option.split)
qed

text \<open>A front end before the sample server, and a browser with bob's cookie.\<close>

definition test_web_env :: web_env where
  "test_web_env = \<lparr>wauth = test_env, templates = (\<lambda>n. Some None), web_addr = ''web''\<rparr>"

definition test_web :: web where
  "test_web = \<lparr>backend = test_server, grpc = []\<rparr>"

definition browser :: "(string \<times> string) list \<Rightarrow> http_request" where
  "browser cs = \<lparr>cookies = map_of cs,
     form = Some (\<lambda>k. case map_of [(''email'', ''bob@b.c''), (''password'', ''pw'')] k of Some v \<Rightarrow> v | None \<Rightarrow> []),
     path_vars = (\<lambda>k. []), url_query = (\<lambda>k. []), csrf_token = ''t''\<rparr>"

theorem portal_shows_own_witness:
  "\<exists>p. fst (portal test_web_env OrderList (browser [(''customer_token'', ''bob'')]) 5 test_web)
       = Page ''portal/orders.html'' p \<and> own_page 1 p \<and> map_option pc_Id (page_Customer p) = Some 1"
proof -
  let ?p = "portal test_web_env OrderList (browser [(''customer_token'', ''bob'')]) 5 test_web"
  have "(case fst ?p of Page n p \<Rightarrow> n = ''portal/orders.html'' \<and> map_option pc_Id (page_Customer p) = Some 1 | _ \<Rightarrow> False)"
    by code_simp
  then obtain p where p: "fst ?p = Page ''portal/orders.html'' p" "map_option pc_Id (page_Customer p) = Some 1"
    by (cases "fst ?p") auto
  have c: "map_option UserID (token_claims (wauth test_web_env) ''bob'' 5) = Some 1" by code_simp
  obtain rep w' where r: "?p = (rep, w')" by fastforce
  have "own_page 1 p"
    using portal_shows_own [where W = test_web_env and route = OrderList
        and r = "browser [(''customer_token'', ''bob'')]" and t = 5 and w = test_web] p(1) c
    unfolding r by (auto simp: browser_def is_int32_def)
  then show ?thesis using p by blast
qed

section \<open>From the login to the portal\<close>

lemma signed_token_claims:
  assumes "jwt_ok (jwt_lib E)" and "sign E c = Some tok" and "t < ExpiresAt c"
  shows "token_claims E tok t = Some c"
  using assms unfolding jwt_ok_def sign_def token_claims_def by (auto simp: getJWTSecret_def)

lemma served_open:
  assumes "getMethodRole m = []" and "served W m hs h w = (r, w')"
  shows "\<exists>ctx d. h ctx (sdb (backend w)) = (r, d) \<and> sdb (backend w') = d"
  using assms by (auto simp: served_def BuildInterceptorChain_def rbacCheck_def on_db_def split: prod.splits)

lemma grpc_open:
  assumes "getMethodRole m = []" and "grpc_call W m hs h w = (Inr a, w')"
  shows "\<exists>ctx d. h ctx (sdb (backend w)) = (Inr a, d) \<and> sdb (backend w') = d"
proof -
  have "\<exists>fs. served W m hs h (w\<lparr>grpc := fs\<rparr>) = (Inr a, w')"
  proof (cases "grpc w")
    case Nil
    then have w: "w\<lparr>grpc := []\<rparr> = w" by (cases w) simp
    have "served W m hs h (w\<lparr>grpc := []\<rparr>) = (Inr a, w')"
      unfolding w using assms(2) Nil by (simp add: grpc_call_def)
    then show ?thesis by blast
  next
    case (Cons f fs)
    then show ?thesis using assms(2) by (cases f) (auto simp: grpc_call_def Let_def)
  qed
  then obtain fs where fs: "served W m hs h (w\<lparr>grpc := fs\<rparr>) = (Inr a, w')" by blast
  from served_open [OF assms(1) fs] show ?thesis by simp
qed

text \<open>
  C31: The login opens the portal: the cookie a successful login sets lets every page of the portal
  through for the rest of the day, as the customer whose stored password was given; the calls made
  with it pass the server's role check, and the server attributes them to the same customer.
\<close>

theorem login_opens_portal:
  assumes "jwt_ok (jwt_lib (wauth W))" and "db_inv (sdb (backend w))"
    and "CustomerLoginHandler W r t w = (Redirect cs ''/portal'', w')" and "cs \<noteq> []"
    and "t' < now (sdb (backend w')) + day - 1000000000"
  shows "\<exists>row \<in> set (customer_t (sdb (backend w))). \<exists>f. form r = Some f \<and> cu_email row = f ''email''
    \<and> CompareHashAndPassword (bcrypt_lib (wauth W)) (cu_password row) (f ''password'') = Matches
    \<and> getCustomerIDFromToken (wauth W) (browse cs r') t' = cu_id row
    \<and> (\<forall>route v. portal W route (browse cs r') t' v = portal_handler W route (browse cs r') t' v)
    \<and> (\<forall>m. getMethodRole m = RoleCustomer \<longrightarrow>
         (\<exists>ctx. rbacCheck (wauth W) (incoming W (customerGRPCContext (wauth W) (browse cs r') t')) m t' = Inr ctx
            \<and> GetCustomerIDFromContext (injectCustomerID ctx) = max 0 (cu_id row)))"
proof -
  let ?E = "wauth W" and ?b = "browse cs r'"
  obtain f where f: "form r = Some f" using assms(3,4) by (auto simp: CustomerLoginHandler_def split: option.splits)
  obtain res where res: "grpc_call W ''/bread.AuthService/CustomerLogin'' []
      (\<lambda>ctx. CustomerLogin ?E (f ''email'') (f ''password'')) w = (res, w')"
      "login_reply ''customer_token'' ''/portal'' ''/portal/login'' res = Redirect cs ''/portal''"
    using assms(3) f by (auto simp: CustomerLoginHandler_def split: prod.splits)
  then obtain rsp where rsp: "res = Inr rsp" "Success rsp" "cs = [session_cookie ''customer_token'' (Token rsp)]"
    using assms(4) by (auto simp: login_reply_def split: sum.splits if_splits)
  have role: "getMethodRole ''/bread.AuthService/CustomerLogin'' = []" by code_simp
  from grpc_open [OF role res(1) [unfolded rsp(1)]]
  have login: "CustomerLogin ?E (f ''email'') (f ''password'') (sdb (backend w)) = (Inr rsp, sdb (backend w'))"
    by auto
  obtain row where row: "row \<in> set (customer_t (sdb (backend w)))" "cu_email row = f ''email''"
      "CompareHashAndPassword (bcrypt_lib ?E) (cu_password row) (f ''password'') = Matches"
      "sign ?E (login_claims ?E (cu_id row) (f ''email'') ''customer'' [] (now (sdb (backend w')))) = Some (Token rsp)"
    using CustomerLogin_success [OF login rsp(2)] by blast
  let ?c = "login_claims ?E (cu_id row) (f ''email'') ''customer'' [] (now (sdb (backend w')))"
  have "now (sdb (backend w')) + day - 1000000000 < ExpiresAt ?c"
    using assms(1) by (simp add: jwt_ok_def login_claims_def)
  then have t': "t' < ExpiresAt ?c" using assms(5) by simp
  note tok = signed_token_claims [OF assms(1) row(4) t'] signed_valid [OF assms(1) row(4) t']
  have ck: "cookies ?b ''customer_token'' = Some (Token rsp)"
    by (simp add: rsp(3) browse_def session_cookie_def)
  have id: "getCustomerIDFromToken ?E ?b t' = cu_id row"
    by (simp add: getCustomerIDFromToken_def ck tok(1) login_claims_def)
  have pages: "portal W route ?b t' v = portal_handler W route ?b t' v" for route v
    using tok(3) by (simp add: portal_conv RequireCustomerAuth_def require_auth_def ck validateToken_def tok(1)
        login_claims_def)
  have hs: "customerGRPCContext ?E ?b t' = (''authorization'', ''Bearer '' @ Token rsp)
      # (if 0 < cu_id row then [(''customer_id'', Itoa (cu_id row))] else [])"
    using tok(3) by (simp add: customerGRPCContext_def Let_def id ck)
  have "customer_row_error row = None" using assms(2) row(1) by (auto simp: db_inv_def accounts_inv_def)
  then have i64: "is_int64 (cu_id row)"
    by (intro is_int32_is_int64) (auto simp: customer_row_error_def split: if_splits)
  have "\<exists>ctx. rbacCheck ?E (incoming W (customerGRPCContext ?E ?b t')) m t' = Inr ctx
      \<and> GetCustomerIDFromContext (injectCustomerID ctx) = max 0 (cu_id row)" if m: "getMethodRole m = RoleCustomer" for m
  proof -
    let ?ctx = "incoming W (customerGRPCContext ?E ?b t')"
    have "presented ?E ?ctx t' = Some ?c"
      using tok(2,3) strip_bearer_token [of "Token rsp"] by (simp add: presented_def incoming_def hs)
    then have "rbacCheck ?E ?ctx m t' = Inr (?ctx\<lparr>role_claims := Some ?c\<rparr>)"
      using m by (simp add: rbacCheck_presented RoleCustomer_def login_claims_def)
    moreover have "GetCustomerIDFromContext (injectCustomerID (?ctx\<lparr>role_claims := Some ?c\<rparr>)) = max 0 (cu_id row)"
    proof (cases "0 < cu_id row")
      case True
      then have "Itoa (cu_id row) \<noteq> [] \<and> list_all is_digit (Itoa (cu_id row))"
        using Itoa_pos_digits [of "cu_id row"] by (simp add: Itoa_def)
      then show ?thesis using True Sscanf_Itoa [of "cu_id row"] i64
        by (simp add: injectCustomerID_def GetCustomerIDFromContext_def incoming_def hs)
    qed (simp add: injectCustomerID_def GetCustomerIDFromContext_def incoming_def hs)
    ultimately show ?thesis by blast
  qed
  then show ?thesis using row f id pages by (intro bexI [of _ row]) auto
qed

theorem login_opens_portal_witness:
  "\<exists>cs. fst (CustomerLoginHandler test_web_env (browser []) 0 test_web) = Redirect cs ''/portal''
     \<and> getCustomerIDFromToken test_env (browse cs (browser [])) 5 = 1"
proof -
  let ?p = "CustomerLoginHandler test_web_env (browser []) 0 test_web"
  have "(case fst ?p of Redirect cs u \<Rightarrow> u = ''/portal'' \<and> map ck_Value cs = [''bob''] | _ \<Rightarrow> False)" by code_simp
  then obtain cs where cs: "fst ?p = Redirect cs ''/portal''" "cs \<noteq> []" by (cases "fst ?p") auto
  have p: "?p = (Redirect cs ''/portal'', snd ?p)" using cs(1) by (rule result_eq)
  have j: "jwt_ok (jwt_lib (wauth test_web_env))" by (simp add: test_web_env_def test_env_def test_jwt_ok)
  have inv: "db_inv (sdb (backend test_web))" by code_simp
  have t: "5 < now (sdb (backend (snd ?p))) + day - 1000000000" by code_simp
  have "\<forall>row \<in> set (customer_t (sdb (backend test_web))). cu_id row = 1" by code_simp
  then have "getCustomerIDFromToken (wauth test_web_env) (browse cs (browser [])) 5 = 1"
    using login_opens_portal [OF j inv p cs(2) t, of "browser []"] by auto
  then show ?thesis using cs(1) by (intro exI [of _ cs]) (simp add: test_web_env_def)
qed

end
