(* ===== verification/Backoffice.thy ===== *)
theory Backoffice
  imports Portal
begin

text \<open>
  The administrators' pages of the front end (\<open>frontend/cmd/web/admin_handlers.go\<close>), from the form
  or the path of a request to the server's database, and the two streams that keep a page up to date.
\<close>

section \<open>Pages\<close>

record AdminTemplateData =
  ad_Title :: string
  CurrentPage :: string
  AdminUsername :: string
  AdminRole :: string
  ad_Stats :: "DashboardStats option"
  ad_Breads :: "pbBread list"
  ad_Bread :: "pbBread option"
  ad_Customers :: "pbCustomer list"
  ad_Customer :: "pbCustomer option"
  ad_Makers :: "pbMaker list"
  ad_Maker :: "pbMaker option"
  ad_Orders :: "pbOrder list"
  ad_MakeOrders :: "pbMakeOrder list"
  ad_Alerts :: "pbBread list"
  ad_Message :: string
  ad_CSRFToken :: string

definition newAdminTemplateData :: "web_env \<Rightarrow> http_request \<Rightarrow> int \<Rightarrow> string \<Rightarrow> string \<Rightarrow> AdminTemplateData" where
  "newAdminTemplateData W r t title page = (case getAdminUserFromToken (wauth W) r t of (_, username, role) \<Rightarrow>
     \<lparr>ad_Title = title, CurrentPage = page, AdminUsername = username, AdminRole = role, ad_Stats = None,
      ad_Breads = [], ad_Bread = None, ad_Customers = [], ad_Customer = None, ad_Makers = [], ad_Maker = None,
      ad_Orders = [], ad_MakeOrders = [], ad_Alerts = [], ad_Message = [], ad_CSRFToken = []\<rparr>)"

definition zero_stats :: DashboardStats where
  "zero_stats = \<lparr>TotalOrders = 0, TotalRevenue = 0, TotalProducts = 0, TotalCustomers = 0,
     TotalBreadMakers = 0, LowStockCount = 0\<rparr>"

section \<open>What the handlers share\<close>

definition with_admin :: "http_request \<Rightarrow> ((string \<times> string) list \<Rightarrow> web \<Rightarrow> 'p reply \<times> web) \<Rightarrow> web \<Rightarrow> 'p reply \<times> web" where
  "with_admin r page w = (case adminGRPCContext r of
     None \<Rightarrow> (Redirect [] ''/admin/login?error=Session+expired'', w)
   | Some hs \<Rightarrow> page hs w)"

definition with_form :: "http_request \<Rightarrow> ((string \<Rightarrow> string) \<Rightarrow> web \<Rightarrow> 'p reply \<times> web) \<Rightarrow> web \<Rightarrow> 'p reply \<times> web" where
  "with_form r page w = (case form r of
     None \<Rightarrow> (HttpError 400 ''Failed to parse form'', w)
   | Some f \<Rightarrow> page f w)"

definition admin_method :: "string \<Rightarrow> string" where
  "admin_method m = ''/bread.AdminService/'' @ m"

definition admin_call :: "web_env \<Rightarrow> string \<Rightarrow> (string \<times> string) list \<Rightarrow> (db, code, 'a) proc \<Rightarrow> (web, code, 'a) proc" where
  "admin_call W m hs h = grpc_call W (admin_method m) hs (\<lambda>ctx. h)"

text \<open>A call whose failure is the reply.\<close>

definition or_error :: "int \<Rightarrow> string \<Rightarrow> (web, code, 'a) proc \<Rightarrow> ('a \<Rightarrow> web \<Rightarrow> 'p reply \<times> web) \<Rightarrow> web \<Rightarrow> 'p reply \<times> web" where
  "or_error st msg m k w = (case m w of
     (Inl err, w') \<Rightarrow> (HttpError st msg, w')
   | (Inr a, w') \<Rightarrow> k a w')"

text \<open>The number in the path, and the one in a form: what is not a number is zero.\<close>

definition path_id :: "http_request \<Rightarrow> int" where
  "path_id r = int32 (Atoi_value (path_vars r ''id''))"

definition bread_form :: "(string \<Rightarrow> string) \<Rightarrow> BreadForm" where
  "bread_form f = \<lparr>fm_Name = f ''name'', fm_Price = ParseFloat32 (f ''price''),
     fm_Quantity = int32 (Atoi_value (f ''quantity'')), fm_Description = f ''description'',
     fm_Type = f ''type'', fm_Image = f ''image''\<rparr>"

section \<open>Handlers\<close>

definition AdminDashboardHandler :: "web_env \<Rightarrow> AdminTemplateData handler" where
  "AdminDashboardHandler W r t = with_admin r (\<lambda>hs w.
     case admin_call W ''GetDashboardStats'' hs Admin_GetDashboardStats w of (stats, w1) \<Rightarrow>
     case admin_call W ''GetLowStockAlerts'' hs GetLowStockAlerts w1 of (alerts, w2) \<Rightarrow>
     case admin_call W ''GetAllOrders'' hs GetAllOrders w2 of (orders, w3) \<Rightarrow>
       (render W ''admin/base.html'' ((newAdminTemplateData W r t ''Admin Dashboard'' ''dashboard'')
          \<lparr>ad_Stats := Some (case stats of Inl err \<Rightarrow> zero_stats | Inr s \<Rightarrow> s),
           ad_Alerts := (case alerts of Inl err \<Rightarrow> [] | Inr bs \<Rightarrow> bs),
           ad_Orders := (case orders of Inl err \<Rightarrow> [] | Inr (ords, details) \<Rightarrow> take 5 ords)\<rparr>), w3))"

definition AdminBreadListHandler :: "web_env \<Rightarrow> AdminTemplateData handler" where
  "AdminBreadListHandler W r t = with_admin r (\<lambda>hs.
     or_error 500 ''Failed to get breads'' (admin_call W ''GetAllBread'' hs GetAllBread) (\<lambda>breads w.
       (render W ''admin/bread/list.html'' ((newAdminTemplateData W r t ''Bread Management'' ''bread'')
          \<lparr>ad_Breads := breads, ad_Message := url_query r ''message'', ad_CSRFToken := csrf_token r\<rparr>), w)))"

definition AdminBreadNewHandler :: "web_env \<Rightarrow> AdminTemplateData handler" where
  "AdminBreadNewHandler W r t w =
     (render W ''admin/bread/form.html'' ((newAdminTemplateData W r t ''New Bread'' ''bread'')
        \<lparr>ad_CSRFToken := csrf_token r\<rparr>), w)"

definition AdminBreadCreateHandler :: "web_env \<Rightarrow> 'p handler" where
  "AdminBreadCreateHandler W r t = with_form r (\<lambda>f. with_admin r (\<lambda>hs.
     or_error 500 ''Failed to create bread'' (admin_call W ''CreateBread'' hs (CreateBread (bread_form f)))
       (\<lambda>_ w. (Redirect [] ''/admin/bread?message=Bread+created+successfully'', w))))"

definition AdminBreadEditHandler :: "web_env \<Rightarrow> AdminTemplateData handler" where
  "AdminBreadEditHandler W r t = with_admin r (\<lambda>hs.
     or_error 404 ''Bread not found'' (admin_call W ''GetBreadById'' hs (Admin_GetBreadById (path_id r))) (\<lambda>bread w.
       (render W ''admin/bread/form.html'' ((newAdminTemplateData W r t ''Edit Bread'' ''bread'')
          \<lparr>ad_Bread := Some bread, ad_CSRFToken := csrf_token r\<rparr>), w)))"

definition AdminBreadUpdateHandler :: "web_env \<Rightarrow> 'p handler" where
  "AdminBreadUpdateHandler W r t = with_form r (\<lambda>f. with_admin r (\<lambda>hs.
     or_error 500 ''Failed to update bread''
       (admin_call W ''UpdateBread'' hs (Admin_UpdateBread (path_id r) (bread_form f)))
       (\<lambda>_ w. (Redirect [] ''/admin/bread?message=Bread+updated+successfully'', w))))"

definition AdminBreadDeleteHandler :: "web_env \<Rightarrow> 'p handler" where
  "AdminBreadDeleteHandler W r t = with_admin r (\<lambda>hs.
     or_error 500 ''Failed to delete bread'' (admin_call W ''DeleteBread'' hs (Admin_DeleteBread (path_id r)))
       (\<lambda>_ w. (Redirect [] ''/admin/bread?message=Bread+deleted+successfully'', w)))"

definition AdminOrdersHandler :: "web_env \<Rightarrow> AdminTemplateData handler" where
  "AdminOrdersHandler W r t = with_admin r (\<lambda>hs.
     or_error 500 ''Failed to get orders'' (admin_call W ''GetAllOrders'' hs GetAllOrders) (\<lambda>(orders, details) w.
       (render W ''admin/orders/list.html'' ((newAdminTemplateData W r t ''Order Management'' ''orders'')
          \<lparr>ad_Orders := orders, ad_Message := url_query r ''message'', ad_CSRFToken := csrf_token r\<rparr>), w)))"

definition AdminOrderStatusHandler :: "web_env \<Rightarrow> 'p handler" where
  "AdminOrderStatusHandler W r t = with_form r (\<lambda>f. with_admin r (\<lambda>hs.
     or_error 500 ''Failed to update order status''
       (admin_call W ''UpdateOrderStatus'' hs (Admin_UpdateOrderStatus (path_vars r ''id'') (f ''status'')))
       (\<lambda>_ w. (Redirect [] ''/admin/orders?message=Order+status+updated'', w))))"

definition AdminCustomersHandler :: "web_env \<Rightarrow> AdminTemplateData handler" where
  "AdminCustomersHandler W r t = with_admin r (\<lambda>hs.
     or_error 500 ''Failed to get customers'' (admin_call W ''GetAllCustomers'' hs Admin_GetAllCustomers) (\<lambda>customers w.
       (render W ''admin/customers/list.html'' ((newAdminTemplateData W r t ''Customer Management'' ''customers'')
          \<lparr>ad_Customers := customers\<rparr>), w)))"

definition AdminCustomerDetailHandler :: "web_env \<Rightarrow> AdminTemplateData handler" where
  "AdminCustomerDetailHandler W r t = with_admin r (\<lambda>hs.
     or_error 404 ''Customer not found'' (admin_call W ''GetCustomerOrders'' hs (Admin_GetCustomerOrders (path_id r)))
       (\<lambda>(customer, orders) w.
       (render W ''admin/customers/detail.html'' ((newAdminTemplateData W r t ''Customer Details'' ''customers'')
          \<lparr>ad_Customer := Some customer, ad_Orders := orders\<rparr>), w)))"

definition AdminMakersHandler :: "web_env \<Rightarrow> AdminTemplateData handler" where
  "AdminMakersHandler W r t = with_admin r (\<lambda>hs.
     or_error 500 ''Failed to get bread makers'' (admin_call W ''GetAllBreadMakers'' hs Admin_GetAllBreadMakers) (\<lambda>makers w.
       (render W ''admin/makers/list.html'' ((newAdminTemplateData W r t ''Bread Maker Management'' ''makers'')
          \<lparr>ad_Makers := makers\<rparr>), w)))"

definition AdminMakerDetailHandler :: "web_env \<Rightarrow> AdminTemplateData handler" where
  "AdminMakerDetailHandler W r t = with_admin r (\<lambda>hs.
     or_error 404 ''Bread maker not found'' (admin_call W ''GetMakerOrders'' hs (Admin_GetMakerOrders (path_id r)))
       (\<lambda>(maker, orders) w.
       (render W ''admin/makers/detail.html'' ((newAdminTemplateData W r t ''Bread Maker Details'' ''makers'')
          \<lparr>ad_Maker := Some maker, ad_MakeOrders := orders\<rparr>), w)))"

definition AdminAlertsHandler :: "web_env \<Rightarrow> AdminTemplateData handler" where
  "AdminAlertsHandler W r t = with_admin r (\<lambda>hs.
     or_error 500 ''Failed to get alerts'' (admin_call W ''GetLowStockAlerts'' hs GetLowStockAlerts) (\<lambda>alerts w.
       (render W ''admin/alerts.html'' ((newAdminTemplateData W r t ''Inventory Alerts'' ''alerts'')
          \<lparr>ad_Alerts := alerts, ad_Message := url_query r ''message'', ad_CSRFToken := csrf_token r\<rparr>), w)))"

text \<open>The bread is read and written back with the quantity of the form.\<close>

definition AdminAdjustQuantityHandler :: "web_env \<Rightarrow> 'p handler" where
  "AdminAdjustQuantityHandler W r t = with_form r (\<lambda>f. with_admin r (\<lambda>hs.
     or_error 404 ''Bread not found'' (admin_call W ''GetBreadById'' hs (Admin_GetBreadById (path_id r))) (\<lambda>bread.
     or_error 500 ''Failed to update quantity''
       (admin_call W ''UpdateBread'' hs (Admin_UpdateBread (path_id r)
          \<lparr>fm_Name = bd_Name bread, fm_Price = bd_Price bread, fm_Quantity = int32 (Atoi_value (f ''quantity'')),
           fm_Description = bd_Description bread, fm_Type = bd_Type bread, fm_Image = bd_Image bread\<rparr>))
       (\<lambda>_ w. (Redirect [] ''/admin/alerts?message=Quantity+updated+successfully'', w)))))"

text \<open>The page \<open>/orders\<close> (\<open>orderDetailsHandler\<close> of \<open>main.go\<close>), which is routed without a guard.\<close>

definition orderDetailsHandler :: "web_env \<Rightarrow> (pbOrder list) handler" where
  "orderDetailsHandler W r t = with_admin r (\<lambda>hs.
     or_error 500 ''Failed to get orders'' (admin_call W ''GetAllOrders'' hs GetAllOrders) (\<lambda>(orders, details) w.
       (render_public W ''Error rendering template: '' ''order-details'' orders, w)))"

section \<open>Streams\<close>

text \<open>What a stream to the browser does: it asks the server, writes an event, and waits some seconds.\<close>

datatype sse = Asked | Event json | Slept int

text \<open>
  Both streams: a round for each time the browser is found to be there still, with what others did
  to the system meanwhile. A round whose call fails, or whose answer JSON cannot hold, goes on to
  the next at once. (The response writer of \<open>net/http\<close> can always flush.)
\<close>

fun admin_stream :: "((string \<times> string) list \<Rightarrow> (web, code, 'a) proc) \<Rightarrow> ('a \<Rightarrow> json option) \<Rightarrow> http_request
    \<Rightarrow> (web \<Rightarrow> web) list \<Rightarrow> web \<Rightarrow> sse list \<times> web" where
  "admin_stream call enc r [] w = ([], w)"
| "admin_stream call enc r (others # rounds) w =
     (case adminGRPCContext r of
        None \<Rightarrow> ([], others w)
      | Some hs \<Rightarrow>
          (case call hs (others w) of (res, w1) \<Rightarrow>
             (case admin_stream call enc r rounds w1 of (out, w2) \<Rightarrow>
                (case Option.bind (case res of Inl err \<Rightarrow> None | Inr a \<Rightarrow> Some a) enc of
                   None \<Rightarrow> (Asked # out, w2)
                 | Some jsonData \<Rightarrow> (Asked # Event jsonData # Slept 15 # out, w2)))))"

definition enc_DashboardStats :: "DashboardStats \<Rightarrow> json option" where
  "enc_DashboardStats s = map_option (\<lambda>rev. JObj
     (int_field ''totalOrders'' (TotalOrders s) @ rev @ int_field ''totalProducts'' (TotalProducts s)
      @ int_field ''totalCustomers'' (TotalCustomers s) @ int_field ''totalBreadMakers'' (TotalBreadMakers s)
      @ int_field ''lowStockCount'' (LowStockCount s))) (f64_field ''totalRevenue'' (TotalRevenue s))"

definition enc_BreadList :: "pbBread list \<Rightarrow> json option" where
  "enc_BreadList bs = map_option (\<lambda>js. JObj (opt_field (js = []) ''breads'' (JArr js))) (enc_all enc_pbBread bs)"

definition AdminDashboardStreamHandler :: "web_env \<Rightarrow> http_request \<Rightarrow> (web \<Rightarrow> web) list \<Rightarrow> web \<Rightarrow> sse list \<times> web" where
  "AdminDashboardStreamHandler W =
     admin_stream (\<lambda>hs. admin_call W ''GetDashboardStats'' hs Admin_GetDashboardStats) enc_DashboardStats"

definition AdminAlertsStreamHandler :: "web_env \<Rightarrow> http_request \<Rightarrow> (web \<Rightarrow> web) list \<Rightarrow> web \<Rightarrow> sse list \<times> web" where
  "AdminAlertsStreamHandler W =
     admin_stream (\<lambda>hs. admin_call W ''GetLowStockAlerts'' hs GetLowStockAlerts) enc_BreadList"

text \<open>Behind their guard, a stream is a page of events.\<close>

definition event_stream :: "(http_request \<Rightarrow> (web \<Rightarrow> web) list \<Rightarrow> web \<Rightarrow> sse list \<times> web) \<Rightarrow> (web \<Rightarrow> web) list \<Rightarrow> (sse list) handler" where
  "event_stream stream rounds r t w = (case stream r rounds w of (out, w') \<Rightarrow> (Page ''text/event-stream'' out, w'))"

section \<open>Routes\<close>

text \<open>The routes of \<open>main\<close> under \<open>/admin\<close> that need an administrator, streams aside.\<close>

datatype admin_route =
    AdminDashboard | BreadList | BreadNew | BreadCreate | BreadEdit | BreadUpdate | BreadDelete
  | AdminOrders | OrderStatus | Customers | CustomerDetail | MakerList | MakerDetail | Alerts | Adjust

fun admin_handler :: "web_env \<Rightarrow> admin_route \<Rightarrow> AdminTemplateData handler" where
  "admin_handler W AdminDashboard = AdminDashboardHandler W"
| "admin_handler W BreadList = AdminBreadListHandler W"
| "admin_handler W BreadNew = AdminBreadNewHandler W"
| "admin_handler W BreadCreate = AdminBreadCreateHandler W"
| "admin_handler W BreadEdit = AdminBreadEditHandler W"
| "admin_handler W BreadUpdate = AdminBreadUpdateHandler W"
| "admin_handler W BreadDelete = AdminBreadDeleteHandler W"
| "admin_handler W AdminOrders = AdminOrdersHandler W"
| "admin_handler W OrderStatus = AdminOrderStatusHandler W"
| "admin_handler W Customers = AdminCustomersHandler W"
| "admin_handler W CustomerDetail = AdminCustomerDetailHandler W"
| "admin_handler W MakerList = AdminMakersHandler W"
| "admin_handler W MakerDetail = AdminMakerDetailHandler W"
| "admin_handler W Alerts = AdminAlertsHandler W"
| "admin_handler W Adjust = AdminAdjustQuantityHandler W"

definition admin :: "web_env \<Rightarrow> admin_route \<Rightarrow> AdminTemplateData handler" where
  "admin W route = RequireAdminAuth W (admin_handler W route)"

definition admin_events :: "web_env \<Rightarrow> bool \<Rightarrow> (web \<Rightarrow> web) list \<Rightarrow> (sse list) handler" where
  "admin_events W alerts rounds = RequireAdminAuth W
     (event_stream (if alerts then AdminAlertsStreamHandler W else AdminDashboardStreamHandler W) rounds)"

section \<open>Answers that arrive\<close>

lemma admit_sdb: "admit i s = (ok, s') \<Longrightarrow> sdb s' = sdb s"
  using sdb_admit [of i s] by simp

lemma served_Inr: "served W m hs h w = (Inr a, w') \<Longrightarrow> \<exists>ctx. h ctx (sdb (backend w)) = (Inr a, sdb (backend w'))"
  by (auto dest!: admit_sdb simp: served_def BuildInterceptorChain_def on_db_def split: prod.splits bool.splits sum.splits if_splits)

lemma grpc_call_Inr:
  "grpc_call W m hs h w = (Inr a, w') \<Longrightarrow> \<exists>ctx. h ctx (sdb (backend w)) = (Inr a, sdb (backend w'))"
  by (cases "grpc w") (auto simp: grpc_call_def Let_def dest!: served_Inr split: fault.splits)

lemma admin_call_Inr: "admin_call W m hs h w = (Inr a, w') \<Longrightarrow> h (sdb (backend w)) = (Inr a, sdb (backend w'))"
  by (auto simp: admin_call_def dest: grpc_call_Inr)

lemma or_error_Redirect:
  assumes "or_error st msg m k w = (Redirect cs url, w')"
  obtains a w1 where "m w = (Inr a, w1)" "k a w1 = (Redirect cs url, w')"
  using assms by (auto simp: or_error_def split: prod.splits sum.splits)

lemma or_code_Inr:
  assumes "or_code c m k s = (Inr a, t)"
  obtains b u where "m s = (Inr b, u)" "k b u = (Inr a, t)"
  using assms by (auto simp: or_code_def attempt_apply split: prod.splits sum.splits)

lemma stmt_succeeds: "stmt f s = (Inr a, t) \<Longrightarrow> \<exists>gs. f (s\<lparr>faults := gs\<rparr>) = (Inr a, t)"
proof (cases "faults s")
  case Nil
  then have "s\<lparr>faults := []\<rparr> = s" by (cases s) simp
  moreover assume "stmt f s = (Inr a, t)"
  then have "f s = (Inr a, t)" using Nil by (simp add: stmt_def)
  ultimately show ?thesis by metis
qed (auto simp: stmt_def Let_def split: fault.splits)

lemma GetBreadByID_Inr:
  "GetBreadByID i s = (Inr b, t) \<Longrightarrow> \<exists>gs row. catalogue s i = Some row \<and> b = scan_bread row \<and> t = s\<lparr>faults := gs\<rparr>"
  unfolding GetBreadByID_def
  by (auto dest!: seq_Inr stmt_succeeds simp: query_row_def catalogue_def find_filter split: list.splits)

lemma UpdateBread_Inr:
  assumes "UpdateBread b s = (Inr u, t)"
  shows "\<exists>gs p. to_numeric s 10 (b_Price b) = Some p
    \<and> t = s\<lparr>faults := gs, bread_t := update_where (\<lambda>r. br_id r = b_ID b) (\<lambda>r. r\<lparr>br_name := b_Name b, br_price := p,
         br_quantity := b_Quantity b, br_description := b_Description b, br_type := b_Type b,
         br_image := Some (b_Image b), br_updated_at := now s\<rparr>) (bread_t s)\<rparr>"
  using stmt_succeeds [OF assms [unfolded UpdateBread_def]]
  by (auto simp: param_numeric_def param_int4_def check_def guarded_def sql_update_bread_def seq_apply
      split: option.splits if_splits)

lemma Admin_GetBreadById_Inr:
  "Admin_GetBreadById i s = (Inr b, t) \<Longrightarrow> \<exists>gs row. catalogue s i = Some row \<and> b = bread_to_pb (scan_bread row) \<and> t = s\<lparr>faults := gs\<rparr>"
  unfolding Admin_GetBreadById_def by (erule or_code_Inr) (auto dest!: GetBreadByID_Inr)

lemma Admin_UpdateBread_Inr:
  assumes "Admin_UpdateBread i f s = (Inr b, t)"
  shows "\<exists>gs p. to_numeric s 10 (fm_Price f) = Some p
    \<and> t = s\<lparr>bread_t := update_where (\<lambda>r. br_id r = i) (\<lambda>r. r\<lparr>br_name := fm_Name f, br_price := p,
         br_quantity := fm_Quantity f, br_description := fm_Description f, br_type := fm_Type f,
         br_image := Some (fm_Image f), br_updated_at := now s\<rparr>) (bread_t s), faults := gs\<rparr>"
  using assms unfolding Admin_UpdateBread_def
  by (elim or_code_Inr) (auto dest!: GetBreadByID_Inr UpdateBread_Inr)

section \<open>Adjusting a quantity\<close>

text \<open>The driver gives every price of the table back as it was read.\<close>

definition prices_survive :: "db \<Rightarrow> bool" where
  "prices_survive s \<longleftrightarrow> (\<forall>row \<in> set (bread_t s). to_numeric s 10 (f64_of_numeric (br_price row)) = Some (br_price row))"

definition image_of :: "bread_row \<Rightarrow> string" where
  "image_of row = (case br_image row of Some i \<Rightarrow> i | None \<Rightarrow> ''/images/default.png'')"

lemma update_where_unique:
  assumes "distinct (map br_id T)" and "row \<in> set T" and "br_id row = i" and "g row = h row"
  shows "update_where (\<lambda>r. br_id r = i) g T = update_where (\<lambda>r. br_id r = i) h T"
proof -
  have "r = row" if "r \<in> set T" "br_id r = i" for r
    using that assms(1-3) by (metis distinct_map inj_onD)
  then show ?thesis using assms(4) by (auto simp: update_where_def)
qed

lemma catalogue_row: "catalogue s i = Some row \<Longrightarrow> row \<in> set (bread_t s) \<and> br_id row = i"
  by (auto simp: catalogue_def dest: find_SomeD)

text \<open>
  C19: The alerts page sets a quantity and nothing else: when the page says that it did, the bread of
  the path is in the table and has the quantity of the form, never a negative one; its name, price,
  description, type and status are what they were, whatever the network did meanwhile, an image that
  was missing is now the default one, and no other bread and no other table has changed.
\<close>

theorem adjust_changes_only_quantity:
  assumes "AdminAdjustQuantityHandler W r t w = (Redirect cs ''/admin/alerts?message=Quantity+updated+successfully'', w')"
    and "db_inv (sdb (backend w))" and "prices_survive (sdb (backend w))"
  shows "\<exists>f gs. form r = Some f \<and> catalogue (sdb (backend w)) (path_id r) \<noteq> None
    \<and> 0 \<le> int32 (Atoi_value (f ''quantity''))
    \<and> sdb (backend w') = (sdb (backend w))
        \<lparr>bread_t := update_where (\<lambda>row. br_id row = path_id r)
           (\<lambda>row. row\<lparr>br_quantity := int32 (Atoi_value (f ''quantity'')), br_image := Some (image_of row),
              br_updated_at := now (sdb (backend w))\<rparr>) (bread_t (sdb (backend w))),
         faults := gs\<rparr>"
proof -
  let ?s = "sdb (backend w)" and ?i = "path_id r"
  obtain f hs bread w1 upd where f: "form r = Some f"
    and 1: "admin_call W ''GetBreadById'' hs (Admin_GetBreadById ?i) w = (Inr bread, w1)"
    and 2: "admin_call W ''UpdateBread'' hs (Admin_UpdateBread ?i
       \<lparr>fm_Name = bd_Name bread, fm_Price = bd_Price bread, fm_Quantity = int32 (Atoi_value (f ''quantity'')),
        fm_Description = bd_Description bread, fm_Type = bd_Type bread, fm_Image = bd_Image bread\<rparr>) w1 = (Inr upd, w')"
    using assms(1) unfolding AdminAdjustQuantityHandler_def with_form_def with_admin_def
    by (auto split: option.splits elim!: or_error_Redirect)
  let ?q = "int32 (Atoi_value (f ''quantity''))"
  obtain gs row where row: "catalogue ?s ?i = Some row" "bread = bread_to_pb (scan_bread row)"
      "sdb (backend w1) = ?s\<lparr>faults := gs\<rparr>"
    using Admin_GetBreadById_Inr [OF admin_call_Inr [OF 1]] by blast
  note in_T = catalogue_row [OF row(1)]
  have price: "to_numeric ?s 10 (bd_Price bread) = Some (br_price row)"
    using assms(3) in_T by (simp add: prices_survive_def row(2) bread_to_pb_def scan_bread_def)
  let ?set = "\<lambda>x. x\<lparr>br_quantity := ?q, br_image := Some (image_of x), br_updated_at := now ?s\<rparr>"
  have dist: "distinct (map br_id (bread_t ?s))" using db_inv_bread [OF assms(2)] by (simp add: bread_inv_def)
  obtain gs' where "sdb (backend w') = ?s\<lparr>bread_t := update_where (\<lambda>x. br_id x = ?i)
      (\<lambda>x. x\<lparr>br_name := bd_Name bread, br_price := br_price row, br_quantity := ?q,
         br_description := bd_Description bread, br_type := bd_Type bread, br_image := Some (bd_Image bread),
         br_updated_at := now ?s\<rparr>) (bread_t ?s), faults := gs'\<rparr>"
    using Admin_UpdateBread_Inr [OF admin_call_Inr [OF 2]] price by (auto simp: row(3))
  moreover have "update_where (\<lambda>x. br_id x = ?i)
      (\<lambda>x. x\<lparr>br_name := bd_Name bread, br_price := br_price row, br_quantity := ?q,
         br_description := bd_Description bread, br_type := bd_Type bread, br_image := Some (bd_Image bread),
         br_updated_at := now ?s\<rparr>) (bread_t ?s) = update_where (\<lambda>x. br_id x = ?i) ?set (bread_t ?s)"
    by (rule update_where_unique [OF dist, of row])
      (use in_T in \<open>simp_all add: row(2) bread_to_pb_def scan_bread_def image_of_def\<close>)
  ultimately have upd: "sdb (backend w') = ?s\<lparr>bread_t := update_where (\<lambda>x. br_id x = ?i) ?set (bread_t ?s), faults := gs'\<rparr>"
    by simp
  have "db_inv (sdb (backend w'))"
    using keepsD [OF keeps_admin(12), of "sdb (backend w1)"] admin_call_Inr [OF 2] assms(2)
    by (metis row(3) snd_conv table_pred_db_inv table_pred_faults)
  then have "\<forall>x \<in> set (update_where (\<lambda>x. br_id x = ?i) ?set (bread_t ?s)). bread_row_error x = None"
    by (simp add: upd db_inv_def bread_inv_def)
  moreover have "?set row \<in> set (update_where (\<lambda>x. br_id x = ?i) ?set (bread_t ?s))"
    using in_T by (auto simp: update_where_def)
  ultimately have "bread_row_error (?set row) = None" by blast
  then have "0 \<le> ?q" by (auto simp: bread_row_error_def split: if_splits)
  then show ?thesis using f row(1) upd by auto
qed


definition bakery_web :: web where
  "bakery_web = \<lparr>backend = \<lparr>globalRateLimiter = initRateLimiter None None, sdb = sample_db\<rparr>, grpc = []\<rparr>"

definition admin_browser :: "string \<Rightarrow> (string \<Rightarrow> string) \<Rightarrow> http_request" where
  "admin_browser i f = \<lparr>cookies = map_of [(''admin_token'', ''root'')], form = Some f, path_vars = (\<lambda>k. i),
     url_query = (\<lambda>k. []), csrf_token = ''t''\<rparr>"

fun redirects :: "string \<Rightarrow> 'p reply \<Rightarrow> bool" where
  "redirects url (Redirect cs url') \<longleftrightarrow> url' = url"
| "redirects url _ \<longleftrightarrow> False"

lemma redirectsD: "redirects url (fst p) \<Longrightarrow> \<exists>cs. p = (Redirect cs url, snd p)"
  by (cases p; cases "fst p") auto

theorem adjust_changes_only_quantity_witness:
  "map br_quantity (bread_t (sdb (backend (snd
      (AdminAdjustQuantityHandler test_web_env (admin_browser ''1'' (\<lambda>k. ''7'')) 0 bakery_web :: unit reply \<times> web)))))
    = [7, 0]"
proof -
  let ?p = "AdminAdjustQuantityHandler test_web_env (admin_browser ''1'' (\<lambda>k. ''7'')) 0 bakery_web :: unit reply \<times> web"
  have "redirects ''/admin/alerts?message=Quantity+updated+successfully'' (fst ?p)" by code_simp
  then obtain cs where p: "?p = (Redirect cs ''/admin/alerts?message=Quantity+updated+successfully'', snd ?p)"
    by (blast dest: redirectsD)
  have inv: "db_inv (sdb (backend bakery_web))" by code_simp
  have prices: "prices_survive (sdb (backend bakery_web))" by code_simp
  have q: "int32 (Atoi_value ''7'') = 7" and i: "path_id (admin_browser ''1'' (\<lambda>k. ''7'')) = 1" by code_simp+
  have f: "form (admin_browser ''1'' (\<lambda>k. ''7'')) = Some (\<lambda>k. ''7'')" and s: "sdb (backend bakery_web) = sample_db"
    by (simp_all add: admin_browser_def bakery_web_def)
  obtain gs where "sdb (backend (snd ?p)) = sample_db
      \<lparr>bread_t := update_where (\<lambda>row. br_id row = 1)
         (\<lambda>row. row\<lparr>br_quantity := 7, br_image := Some (image_of row), br_updated_at := now sample_db\<rparr>)
         (bread_t sample_db), faults := gs\<rparr>"
    using adjust_changes_only_quantity [OF p inv prices] unfolding f i s by (auto simp: q)
  then show ?thesis by (simp add: sample_db_def sample_bread_def update_where_def)
qed

section \<open>What a page gives away\<close>

text \<open>Whether the server takes the cookie of a request for an administrator's.\<close>

definition server_admin :: "web_env \<Rightarrow> http_request \<Rightarrow> web \<Rightarrow> bool" where
  "server_admin W r w \<longleftrightarrow> (case adminGRPCContext r of
     None \<Rightarrow> False
   | Some hs \<Rightarrow> (case presented (wauth W) (incoming W hs) (now (sdb (backend w))) of
        None \<Rightarrow> False
      | Some c \<Rightarrow> UserType c = ''admin''))"

definition shows_nothing :: "AdminTemplateData \<Rightarrow> bool" where
  "shows_nothing p \<longleftrightarrow> ad_Stats p \<in> {None, Some zero_stats} \<and> ad_Breads p = [] \<and> ad_Bread p = None
     \<and> ad_Customers p = [] \<and> ad_Customer p = None \<and> ad_Makers p = [] \<and> ad_Maker p = None
     \<and> ad_Orders p = [] \<and> ad_MakeOrders p = [] \<and> ad_Alerts p = []"

text \<open>A handler that, for one the server does not know, changes nothing and shows only what \<open>P\<close> allows.\<close>

definition closed :: "web_env \<Rightarrow> http_request \<Rightarrow> ('p \<Rightarrow> bool) \<Rightarrow> (web \<Rightarrow> 'p reply \<times> web) \<Rightarrow> bool" where
  "closed W r P page \<longleftrightarrow> (\<forall>w. \<not> server_admin W r w \<longrightarrow>
     sdb (backend (snd (page w))) = sdb (backend w) \<and> (\<forall>name p. fst (page w) = Page name p \<longrightarrow> P p))"

lemma served_refused:
  assumes "getMethodRole m = RoleAdmin" and "adminGRPCContext r = Some hs" and "\<not> server_admin W r w"
  shows "\<exists>e w'. served W m hs h w = (Inl e, w') \<and> sdb (backend w') = sdb (backend w)"
proof -
  have "rbacCheck (wauth W) (incoming W hs) m (now (sdb (backend w))) \<in> {Inl Unauthenticated, Inl PermissionDenied}"
    using assms by (auto simp: rbacCheck_presented server_admin_def RoleAdmin_def split: option.splits)
  then show ?thesis
    by (auto simp: served_def BuildInterceptorChain_def split: prod.split bool.split dest!: admit_sdb)
qed

lemma server_admin_grpc [simp]: "server_admin W r (w\<lparr>grpc := fs\<rparr>) = server_admin W r w"
  by (simp add: server_admin_def cong: option.case_cong)

lemma server_admin_cong: "sdb (backend w') = sdb (backend w) \<Longrightarrow> server_admin W r w' = server_admin W r w"
  by (simp add: server_admin_def cong: option.case_cong)

lemma admin_call_refused:
  assumes "getMethodRole (admin_method m) = RoleAdmin" and "adminGRPCContext r = Some hs"
    and "\<not> server_admin W r w"
  shows "\<exists>e w'. admin_call W m hs h w = (Inl e, w') \<and> sdb (backend w') = sdb (backend w)"
proof -
  have s: "\<exists>e w'. served W (admin_method m) hs (\<lambda>ctx. h) (w\<lparr>grpc := fs\<rparr>) = (Inl e, w')
      \<and> sdb (backend w') = sdb (backend w)" for fs
    using served_refused [OF assms(1,2), of W "w\<lparr>grpc := fs\<rparr>" "\<lambda>ctx. h"] assms(3) by simp
  show ?thesis
  proof (cases "grpc w")
    case Nil
    then have "w\<lparr>grpc := []\<rparr> = w" by (cases w) simp
    then show ?thesis using s [of "[]"] Nil by (simp only: admin_call_def grpc_call_def list.case)
  next
    case (Cons f fs)
    obtain e w' where "served W (admin_method m) hs (\<lambda>ctx. h) (w\<lparr>grpc := fs\<rparr>) = (Inl e, w')"
        "sdb (backend w') = sdb (backend w)" using s by blast
    then show ?thesis using Cons by (cases f) (simp_all add: admin_call_def grpc_call_def Let_def)
  qed
qed

text \<open>The methods the pages call need the role of an administrator.\<close>

lemma admin_methods:
  "\<forall>m \<in> {''GetDashboardStats'', ''GetLowStockAlerts'', ''GetAllOrders'', ''GetAllBread'', ''CreateBread'',
      ''GetBreadById'', ''UpdateBread'', ''DeleteBread'', ''UpdateOrderStatus'', ''GetAllCustomers'',
      ''GetCustomerOrders'', ''GetAllBreadMakers'', ''GetMakerOrders''}.
    getMethodRole (admin_method m) = RoleAdmin"
  by code_simp

lemma closed_with_form: "(\<And>f. closed W r P (page f)) \<Longrightarrow> closed W r P (with_form r page)"
  by (auto simp: closed_def with_form_def split: option.split)

lemma closed_call:
  assumes "getMethodRole (admin_method m) = RoleAdmin"
  shows "closed W r P (with_admin r (\<lambda>hs. or_error st msg (admin_call W m hs (h hs)) (k hs)))"
proof (unfold closed_def, intro allI impI)
  fix w assume na: "\<not> server_admin W r w"
  let ?p = "with_admin r (\<lambda>hs. or_error st msg (admin_call W m hs (h hs)) (k hs)) w"
  show "sdb (backend (snd ?p)) = sdb (backend w) \<and> (\<forall>name p. fst ?p = Page name p \<longrightarrow> P p)"
  proof (cases "adminGRPCContext r")
    case (Some hs)
    obtain e w' where "admin_call W m hs (h hs) w = (Inl e, w')" "sdb (backend w') = sdb (backend w)"
      using admin_call_refused [OF assms Some na] by blast
    then show ?thesis by (simp add: with_admin_def or_error_def Some)
  qed (simp add: with_admin_def)
qed

lemma closed_Dashboard: "closed W r shows_nothing (AdminDashboardHandler W r t)"
proof (unfold closed_def, intro allI impI)
  fix w assume na: "\<not> server_admin W r w"
  show "sdb (backend (snd (AdminDashboardHandler W r t w))) = sdb (backend w)
    \<and> (\<forall>name p. fst (AdminDashboardHandler W r t w) = Page name p \<longrightarrow> shows_nothing p)"
  proof (cases "adminGRPCContext r")
    case (Some hs)
    note refused = admin_call_refused [OF bspec [OF admin_methods] Some]
    obtain e1 w1 where 1: "admin_call W ''GetDashboardStats'' hs Admin_GetDashboardStats w = (Inl e1, w1)"
        "sdb (backend w1) = sdb (backend w)" using refused na by (metis insertI1 insertI2)
    obtain e2 w2 where 2: "admin_call W ''GetLowStockAlerts'' hs GetLowStockAlerts w1 = (Inl e2, w2)"
        "sdb (backend w2) = sdb (backend w)"
      using refused na server_admin_cong [OF 1(2)] 1(2) by (metis insertI1 insertI2)
    obtain e3 w3 where 3: "admin_call W ''GetAllOrders'' hs GetAllOrders w2 = (Inl e3, w3)"
        "sdb (backend w3) = sdb (backend w)"
      using refused na server_admin_cong [OF 2(2)] 2(2) by (metis insertI1 insertI2)
    show ?thesis
      by (auto simp: AdminDashboardHandler_def with_admin_def Some 1 2 3 render_Page shows_nothing_def
          newAdminTemplateData_def split: prod.splits)
  qed (simp add: AdminDashboardHandler_def with_admin_def)
qed

lemma closed_admin_handler: "closed W r shows_nothing (admin_handler W route r t)"
proof (cases route)
  case BreadNew
  then show ?thesis
    by (auto simp: closed_def AdminBreadNewHandler_def render_Page shows_nothing_def newAdminTemplateData_def
        split: prod.split)
qed (use admin_methods in \<open>auto intro!: closed_with_form closed_call closed_Dashboard
    simp: AdminBreadListHandler_def AdminBreadCreateHandler_def AdminBreadEditHandler_def AdminBreadUpdateHandler_def
      AdminBreadDeleteHandler_def AdminOrdersHandler_def AdminOrderStatusHandler_def AdminCustomersHandler_def
      AdminCustomerDetailHandler_def AdminMakersHandler_def AdminMakerDetailHandler_def AdminAlertsHandler_def
      AdminAdjustQuantityHandler_def\<close>)

text \<open>
  C18: Administration takes an administrator, twice: a page is reached only with a cookie the front end
  takes for an administrator's, and any other request goes to the login without a call; and a
  handler that is reached with a cookie the server does not take for one changes nothing in the
  database and shows nothing of it. The second holds for \<open>/orders\<close> too, which has no guard.
\<close>

theorem admin_data_needs_admin:
  "(case admin W route r t w of (rep, w') \<Rightarrow>
      w' = w \<and> (\<exists>url. rep = Redirect [] url)
      \<or> (\<exists>v. cookies r ''admin_token'' = Some v \<and> validateToken (wauth W) v ''admin'' t)
        \<and> (server_admin W r w
           \<or> sdb (backend w') = sdb (backend w) \<and> (case rep of Page name p \<Rightarrow> shows_nothing p | _ \<Rightarrow> True)))
   \<and> (case orderDetailsHandler W r t w of (rep, w') \<Rightarrow>
        server_admin W r w \<or> sdb (backend w') = sdb (backend w) \<and> (\<forall>name p. rep \<noteq> Page name p))"
proof (rule conjI)
  obtain rep w' where h: "admin_handler W route r t w = (rep, w')" by fastforce
  show "case admin W route r t w of (rep, w') \<Rightarrow>
      w' = w \<and> (\<exists>url. rep = Redirect [] url)
      \<or> (\<exists>v. cookies r ''admin_token'' = Some v \<and> validateToken (wauth W) v ''admin'' t)
        \<and> (server_admin W r w
           \<or> sdb (backend w') = sdb (backend w) \<and> (case rep of Page name p \<Rightarrow> shows_nothing p | _ \<Rightarrow> True))"
    using closed_admin_handler [of W r route t] h
    by (auto simp: admin_def RequireAdminAuth_def require_auth_def closed_def split: option.splits reply.splits)
  have "closed W r (\<lambda>p. False) (orderDetailsHandler W r t)"
    unfolding orderDetailsHandler_def by (rule closed_call) (use admin_methods in simp)
  then show "case orderDetailsHandler W r t w of (rep, w') \<Rightarrow>
        server_admin W r w \<or> sdb (backend w') = sdb (backend w) \<and> (\<forall>name p. rep \<noteq> Page name p)"
    by (auto simp: closed_def split: prod.split)
qed

theorem admin_data_needs_admin_witness:
  "\<exists>url. admin test_web_env Adjust (admin_browser ''1'' (\<lambda>k. ''7'')\<lparr>cookies := (\<lambda>k. None)\<rparr>) 0 bakery_web
     = (Redirect [] url, bakery_web)"
  using admin_data_needs_admin [where W = test_web_env and route = Adjust and t = 0 and w = bakery_web
      and r = "admin_browser ''1'' (\<lambda>k. ''7'')\<lparr>cookies := (\<lambda>k. None)\<rparr>"]
  by (simp add: case_prod_beta prod_eq_iff)

section \<open>Streams that do not wait\<close>

lemma stream_unanswered:
  assumes "adminGRPCContext r = Some hs"
    and "\<And>w. I w \<Longrightarrow> \<exists>e w'. call hs w = (Inl e, w') \<and> I w'"
    and "\<And>f w. f \<in> set rounds \<Longrightarrow> I w \<Longrightarrow> I (f w)" and "I w"
  shows "fst (admin_stream call enc r rounds w) = replicate (length rounds) Asked"
  using assms(3,4)
proof (induction rounds arbitrary: w)
  case (Cons f rounds)
  then obtain e w' where "call hs (f w) = (Inl e, w')" "I w'" using assms(2) [of "f w"] by auto
  then show ?case using Cons.IH [of w'] Cons.prems by (simp add: assms(1) case_prod_beta)
qed simp

text \<open>
  With a cookie the server no longer takes for an
  administrator's (the guard looks at it once, when the page is opened) each of the two streams
  asks the server again and again, once per round, and neither writes nor waits in between, for as
  long as the browser stays.
\<close>

theorem expired_stream_spins:
  assumes "adminGRPCContext r = Some hs" and "\<not> server_admin W r w"
    and "\<And>f v. f \<in> set rounds \<Longrightarrow> \<not> server_admin W r v \<Longrightarrow> \<not> server_admin W r (f v)"
  shows "fst (AdminDashboardStreamHandler W r rounds w) = replicate (length rounds) Asked
    \<and> fst (AdminAlertsStreamHandler W r rounds w) = replicate (length rounds) Asked"
proof -
  have "\<exists>e v'. admin_call W m hs h v = (Inl e, v') \<and> \<not> server_admin W r v'"
    if "getMethodRole (admin_method m) = RoleAdmin" "\<not> server_admin W r v" for m v and h :: "(db, code, 'b) proc"
    using admin_call_refused [OF that(1) assms(1) that(2), of h] server_admin_cong that(2) by metis
  note refused = this
  show ?thesis
    unfolding AdminDashboardStreamHandler_def AdminAlertsStreamHandler_def
    by (intro conjI stream_unanswered [where I = "\<lambda>v. \<not> server_admin W r v", OF assms(1)] refused)
      (use admin_methods assms(2,3) in auto)
qed

theorem expired_stream_spins_witness:
  "fst (AdminAlertsStreamHandler test_web_env ((admin_browser [] (\<lambda>k. []))\<lparr>cookies := [''admin_token'' \<mapsto> ''old'']\<rparr>)
     [id, id, id] bakery_web) = [Asked, Asked, Asked]"
proof -
  let ?r = "(admin_browser [] (\<lambda>k. []))\<lparr>cookies := [''admin_token'' \<mapsto> ''old'']\<rparr>"
  have c: "adminGRPCContext ?r = Some [(''authorization'', ''Bearer old'')]" by code_simp
  have "ParseWithClaims test_jwt ''old'' kf t = None" for kf t by (simp add: test_jwt_def)
  then have "presented test_env (incoming test_web_env [(''authorization'', ''Bearer old'')]) t = None" for t
    by (simp add: presented_def incoming_def valid_claims_def test_env_def strip_bearer_def)
  then have "\<not> server_admin test_web_env ?r w" for w
    unfolding server_admin_def c by (simp add: test_web_env_def)
  then show ?thesis
    using expired_stream_spins [OF c, where W = test_web_env and w = bakery_web and rounds = "[id, id, id]"]
    by (simp add: numeral_3_eq_3)
qed

end
