(* ===== verification/Shop.thy ===== *)
theory Shop
  imports Backoffice
begin

text \<open>
  The public side of the front end (\<open>frontend/cmd/web/main.go\<close>): the home page, the static pages, and
  the two streams that relay what the server streams, inventory and orders, to a browser; and the
  services and the event writer of \<open>handlers.go\<close>.
\<close>

section \<open>Pages\<close>

text \<open>The names of the breads, in whatever order the map gives them.\<close>

definition homeHandler :: "web_env \<Rightarrow> bool \<Rightarrow> (string set) handler" where
  "homeHandler W up r t w =
     (if \<not> up then (render_public W [] ''index'' {}, w)
      else case grpc_call W ''/bread.CheckInventory/CheckBreadInventory''
               (case adminGRPCContext r of None \<Rightarrow> [] | Some hs \<Rightarrow> hs) (\<lambda>ctx. CheckBreadInventory) w of
          (Inl err, w') \<Rightarrow> (HttpError 500 ''Failed to fetch inventory'', w')
        | (Inr response, w') \<Rightarrow>
            (render_public W [] ''index''
               (bd_Name ` set (case rsp_Breads response of None \<Rightarrow> [] | Some bs \<Rightarrow> bs)), w'))"

definition staticPageHandler :: "web_env \<Rightarrow> string \<Rightarrow> unit handler" where
  "staticPageHandler W templateName r t w = (render_public W ''Error rendering template: '' templateName (), w)"

section \<open>Streams to a browser\<close>

text \<open>What was written to the browser, and which of the next writes fail (it may be gone).\<close>

record sink =
  written :: "json list"
  write_fails :: "bool list"

definition write_event :: "json \<Rightarrow> (sink, unit, unit) proc" where
  "write_event j k = (case write_fails k of
     [] \<Rightarrow> (Inr (), k\<lparr>written := written k @ [j]\<rparr>)
   | x # xs \<Rightarrow> if x then (Inl (), k\<lparr>write_fails := xs\<rparr>)
       else (Inr (), k\<lparr>written := written k @ [j], write_fails := xs\<rparr>))"

definition error_event :: "string \<Rightarrow> json" where
  "error_event msg = JObj [(''error'', JStr msg)]"

text \<open>The inventory: an event for each bread of each response; one JSON cannot hold is left out.\<close>

definition enc_BreadLog :: "pbBread \<Rightarrow> json option" where
  "enc_BreadLog b = map_option (\<lambda>price. JObj
     [(''ID'', enc_int 0), (''Name'', JStr (bd_Name b)), (''Message'', JStr (bd_Description b)),
      (''Buyer'', JStr []), (''Maker'', JStr []), (''Quantity'', enc_int (bd_Quantity b)),
      (''Price'', price), (''Image'', JStr (bd_Image b))]) (enc_f64 (bd_Price b))"

definition write_bread :: "pbBread \<Rightarrow> unit \<Rightarrow> (sink, unit, unit) proc" where
  "write_bread b _ = (case enc_BreadLog b of None \<Rightarrow> ret () | Some jsonData \<Rightarrow> write_event jsonData)"

fun relay_inventory :: "pbBread list list \<Rightarrow> (sink, unit, unit) proc" where
  "relay_inventory [] = ret ()"
| "relay_inventory (breads # rest) = seq (for_each write_bread breads ()) (\<lambda>_. relay_inventory rest)"

text \<open>
  \<open>messages\<close> is what the server's stream sends before it ends, however it ends, and \<open>None\<close> when it
  could not be started.
\<close>

definition streamHandler :: "bool \<Rightarrow> pbBread list list option \<Rightarrow> (sink, unit, unit) proc" where
  "streamHandler up messages =
     (if \<not> up then write_event (error_event ''service unavailable'')
      else case messages of
          None \<Rightarrow> write_event (error_event ''failed to start stream'')
        | Some ms \<Rightarrow> relay_inventory ms)"

text \<open>
  The orders: an event per response. The value is the status of an error that is reported at the end;
  an error of the procedure is a browser that is gone.
\<close>

definition enc_pbOrder :: "pbOrder \<Rightarrow> json option" where
  "enc_pbOrder x = map_option (\<lambda>cost. JObj
     (int_field ''id'' (po_Id x) @ int_field ''customerId'' (po_CustomerId x)
      @ str_field ''buyOrderUuid'' (po_BuyOrderUuid x) @ cost @ str_field ''status'' (po_Status x)))
     (f64_field ''totalCost'' (po_TotalCost x))"

text \<open>A nil pointer arrives as an empty message.\<close>

definition enc_details :: "BuyOrderDetails option \<Rightarrow> json option" where
  "enc_details d = (case d of
     None \<Rightarrow> Some (JObj [])
   | Some x \<Rightarrow> map_option (\<lambda>price. JObj
       (int_field ''buyOrderId'' (dt_BuyOrderId x) @ str_field ''buyOrderUuid'' (dt_BuyOrderUuid x)
        @ int_field ''breadId'' (dt_BreadId x) @ int_field ''quantity'' (dt_Quantity x) @ price
        @ str_field ''status'' (dt_Status x) @ time_field ''created_at'' (Some (dt_CreatedAt x))
        @ time_field ''updated_at'' (Some (dt_UpdatedAt x)))) (f64_field ''price'' (dt_Price x)))"

definition enc_listing :: "OrderListing \<Rightarrow> json option" where
  "enc_listing l = Option.bind (enc_all enc_pbOrder (ls_Orders l)) (\<lambda>orders.
     map_option (\<lambda>details. JObj (opt_field (orders = []) ''buyOrders'' (JArr orders)
        @ opt_field (details = []) ''buyOrderDetails'' (JArr details)))
       (enc_all enc_details (ls_Details l)))"

fun relay_orders :: "OrderListing list \<Rightarrow> code option \<Rightarrow> (sink, unit, int option) proc" where
  "relay_orders [] ending = (case ending of
     None \<Rightarrow> ret None
   | Some c \<Rightarrow> ret (if c = Canceled then None else Some 500))"
| "relay_orders (l # rest) ending = (case enc_listing l of
     None \<Rightarrow> ret (Some 500)
   | Some jsonData \<Rightarrow> seq (write_event jsonData) (\<lambda>_. relay_orders rest ending))"

definition orderStreamHandler ::
  "bool \<Rightarrow> (OrderListing list \<times> code option) option \<Rightarrow> (sink, unit, int option) proc" where
  "orderStreamHandler up messages =
     (if \<not> up then seq (write_event (error_event ''service unavailable'')) (\<lambda>_. ret None)
      else case messages of
          None \<Rightarrow> ret (Some 500)
        | Some (ms, ending) \<Rightarrow> relay_orders ms ending)"

text \<open>
  A streaming call: the server installs a unary interceptor only, so that the method runs whatever
  the metadata is.
\<close>

definition stream_call :: "web_env \<Rightarrow> (string \<times> string) list \<Rightarrow> (gctx \<Rightarrow> (db, code, 'a) proc) \<Rightarrow> (web, code, 'a) proc" where
  "stream_call W hs h w = (case grpc w of
     LostRequest # fs \<Rightarrow> (Inl Unavailable, w\<lparr>grpc := fs\<rparr>)
   | _ \<Rightarrow> (case h (incoming W hs) (sdb (backend w)) of
       (res, s) \<Rightarrow> (res, w\<lparr>backend := (backend w)\<lparr>sdb := s\<rparr>, grpc := tl (grpc w)\<rparr>)))"

text \<open>The route \<open>/order-stream\<close>, for a browser that stays.\<close>

definition order_stream :: "web_env \<Rightarrow> http_request \<Rightarrow> int \<Rightarrow> web \<Rightarrow> sink \<Rightarrow> sink" where
  "order_stream W r t w k =
     (let messages = fst (stream_call W (customerGRPCContext (wauth W) r t) (\<lambda>ctx. BuyOrderStream [] (\<lambda>l. True)) w)
      in snd (orderStreamHandler True (case messages of Inl err \<Rightarrow> None | Inr ms \<Rightarrow> Some ms) k))"

section \<open>Who sees the orders\<close>

definition listing_of :: "db \<Rightarrow> buy_order_row \<Rightarrow> OrderListing" where
  "listing_of s row = order_listing (scan_details (details_of (bo_id row) s) (scan_order row))
     (f64_of_numeric (order_total (bo_id row) s))"

lemma GetAllBuyOrders_calm:
  assumes "faults s = []"
  shows "GetAllBuyOrders s = (Inr (map (\<lambda>r. scan_details (details_of (bo_id r) s) (scan_order r)) (buy_order_t s)), s)"
proof -
  have "for_each (\<lambda>r orders. seq (query_rows (details_of (bo_id r))) (\<lambda>(rows, cut).
        ret (orders @ [scan_details rows (scan_order r)]))) hs acc s
      = (Inr (acc @ map (\<lambda>r. scan_details (details_of (bo_id r) s) (scan_order r)) hs), s)" for hs acc
    by (induction hs arbitrary: acc) (simp_all add: seq_apply query_rows_no_fault assms)
  from this [of "buy_order_t s" "[]"] show ?thesis
    by (simp add: GetAllBuyOrders_def seq_apply query_rows_no_fault assms)
qed

lemma send_listings_calm:
  "faults s = [] \<Longrightarrow> send_listings (\<lambda>l. True) orders out s
    = (Inr (out @ map (\<lambda>x. order_listing x (f64_of_numeric (order_total (o_ID x) s))) orders, None), s)"
  by (induction orders arbitrary: out)
    (simp_all add: attempt_apply GetOrderTotalCost_def query_row_no_fault Let_def)

lemma scan_details_ID [simp]: "o_ID (scan_details rows ord) = o_ID ord"
proof -
  have "o_ID (fold (\<lambda>d ord. ord\<lparr>o_CreatedAt := od_created_at d, o_UpdatedAt := od_updated_at d\<rparr>) rows ord)
    = o_ID ord" by (induction rows arbitrary: ord) simp_all
  then show ?thesis by (simp add: scan_details_def)
qed

lemma relay_orders_calm:
  assumes "write_fails k = []" and "\<forall>l \<in> set ls. enc_listing l \<noteq> None"
  shows "relay_orders ls None k = (Inr None, k\<lparr>written := written k @ map (\<lambda>l. the (enc_listing l)) ls\<rparr>)"
  using assms by (induction ls arbitrary: k) (auto simp: seq_apply write_event_def)


definition order_web :: web where
  "order_web = bakery_web\<lparr>backend := (backend bakery_web)\<lparr>sdb :=
     snd (InsertBuyOrder sample_order (o_Breads sample_order) sample_db)\<rparr>\<rparr>"


section \<open>Services behind interfaces\<close>

text \<open>
  \<open>handlers.go\<close> has the calls once more, behind interfaces that a test can replace: a service makes
  the context of each call itself, and its error is that of the context (\<open>None\<close>) or of the call.
\<close>

record AdminService =
  svc_GetDashboardStats :: "(web, code option, DashboardStats) proc"
  svc_GetLowStockAlerts :: "(web, code option, pbBread list) proc"
  svc_GetAllOrders :: "(web, code option, pbOrder list \<times> BuyOrderDetails list) proc"
  svc_GetAllBread :: "(web, code option, pbBread list) proc"
  svc_CreateBread :: "BreadForm \<Rightarrow> (web, code option, pbBread) proc"
  svc_UpdateBread :: "int \<Rightarrow> BreadForm \<Rightarrow> (web, code option, pbBread) proc"
  svc_DeleteBread :: "int \<Rightarrow> (web, code option, unit) proc"
  svc_GetBreadById :: "int \<Rightarrow> (web, code option, pbBread) proc"
  svc_GetAllCustomers :: "(web, code option, pbCustomer list) proc"
  svc_GetCustomerOrders :: "int \<Rightarrow> (web, code option, pbCustomer \<times> pbOrder list) proc"
  svc_GetAllBreadMakers :: "(web, code option, pbMaker list) proc"
  svc_GetMakerOrders :: "int \<Rightarrow> (web, code option, pbMaker \<times> pbMakeOrder list) proc"
  svc_UpdateOrderStatus :: "string \<Rightarrow> string \<Rightarrow> (web, code option, pbOrder) proc"

definition with_ctx :: "(string \<times> string) list option \<Rightarrow> ((string \<times> string) list \<Rightarrow> (web, code, 'a) proc) \<Rightarrow> (web, code option, 'a) proc" where
  "with_ctx ctx call = (case ctx of None \<Rightarrow> fail None | Some hs \<Rightarrow> attempt (call hs) (\<lambda>err. fail (Some err)) ret)"

definition newGRPCAdminService :: "web_env \<Rightarrow> (string \<times> string) list option \<Rightarrow> AdminService" where
  "newGRPCAdminService W ctx =
     \<lparr>svc_GetDashboardStats = with_ctx ctx (\<lambda>hs. admin_call W ''GetDashboardStats'' hs Admin_GetDashboardStats),
      svc_GetLowStockAlerts = with_ctx ctx (\<lambda>hs. admin_call W ''GetLowStockAlerts'' hs GetLowStockAlerts),
      svc_GetAllOrders = with_ctx ctx (\<lambda>hs. admin_call W ''GetAllOrders'' hs GetAllOrders),
      svc_GetAllBread = with_ctx ctx (\<lambda>hs. admin_call W ''GetAllBread'' hs GetAllBread),
      svc_CreateBread = (\<lambda>f. with_ctx ctx (\<lambda>hs. admin_call W ''CreateBread'' hs (CreateBread f))),
      svc_UpdateBread = (\<lambda>i f. with_ctx ctx (\<lambda>hs. admin_call W ''UpdateBread'' hs (Admin_UpdateBread i f))),
      svc_DeleteBread = (\<lambda>i. with_ctx ctx (\<lambda>hs. admin_call W ''DeleteBread'' hs (Admin_DeleteBread i))),
      svc_GetBreadById = (\<lambda>i. with_ctx ctx (\<lambda>hs. admin_call W ''GetBreadById'' hs (Admin_GetBreadById i))),
      svc_GetAllCustomers = with_ctx ctx (\<lambda>hs. admin_call W ''GetAllCustomers'' hs Admin_GetAllCustomers),
      svc_GetCustomerOrders = (\<lambda>i. with_ctx ctx (\<lambda>hs. admin_call W ''GetCustomerOrders'' hs (Admin_GetCustomerOrders i))),
      svc_GetAllBreadMakers = with_ctx ctx (\<lambda>hs. admin_call W ''GetAllBreadMakers'' hs Admin_GetAllBreadMakers),
      svc_GetMakerOrders = (\<lambda>i. with_ctx ctx (\<lambda>hs. admin_call W ''GetMakerOrders'' hs (Admin_GetMakerOrders i))),
      svc_UpdateOrderStatus = (\<lambda>uuid st. with_ctx ctx (\<lambda>hs. admin_call W ''UpdateOrderStatus'' hs (Admin_UpdateOrderStatus uuid st)))\<rparr>"

definition noopAdminService :: AdminService where
  "noopAdminService =
     \<lparr>svc_GetDashboardStats = fail None, svc_GetLowStockAlerts = fail None, svc_GetAllOrders = fail None,
      svc_GetAllBread = fail None, svc_CreateBread = (\<lambda>f. fail None), svc_UpdateBread = (\<lambda>i f. fail None),
      svc_DeleteBread = (\<lambda>i. fail None), svc_GetBreadById = (\<lambda>i. fail None), svc_GetAllCustomers = fail None,
      svc_GetCustomerOrders = (\<lambda>i. fail None), svc_GetAllBreadMakers = fail None,
      svc_GetMakerOrders = (\<lambda>i. fail None), svc_UpdateOrderStatus = (\<lambda>uuid st. fail None)\<rparr>"

record CustomerService =
  svc_GetMyOrders :: "int \<Rightarrow> (web, code option, pbCustomer \<times> pbOrder list) proc"
  svc_GetMyInvoices :: "int \<Rightarrow> (web, code option, pbInvoice list) proc"
  svc_GetOrderDetails :: "int \<Rightarrow> (web, code option, pbOrder \<times> BuyOrderDetails list \<times> f64) proc"

definition newGRPCCustomerService :: "web_env \<Rightarrow> (string \<times> string) list option \<Rightarrow> CustomerService" where
  "newGRPCCustomerService W ctx =
     \<lparr>svc_GetMyOrders = (\<lambda>i. with_ctx ctx (\<lambda>hs. call_GetMyOrders W hs i)),
      svc_GetMyInvoices = (\<lambda>i. with_ctx ctx (\<lambda>hs. call_GetMyInvoices W hs i)),
      svc_GetOrderDetails = (\<lambda>i. with_ctx ctx (\<lambda>hs. call_GetOrderDetails W hs i))\<rparr>"

definition noopCustomerService :: CustomerService where
  "noopCustomerService =
     \<lparr>svc_GetMyOrders = (\<lambda>i. fail None), svc_GetMyInvoices = (\<lambda>i. fail None), svc_GetOrderDetails = (\<lambda>i. fail None)\<rparr>"

text \<open>\<open>fileTemplateService\<close>: the page, or what went wrong.\<close>

definition template_Execute :: "web_env \<Rightarrow> string \<Rightarrow> AdminTemplateData \<Rightarrow> string + string \<times> AdminTemplateData" where
  "template_Execute W name p = (case templates W name of
     None \<Rightarrow> Inl (''template not found: '' @ name)
   | Some None \<Rightarrow> Inr (name, p)
   | Some (Some err) \<Rightarrow> Inl err)"

text \<open>
  \<open>WriteSSEResponse\<close>: as the streams of the administrators' pages, with what to fetch and how long to
  wait as parameters; nothing fetched ends the stream.
\<close>

fun WriteSSEResponse :: "(web, 'e, 'a option) proc \<Rightarrow> ('a \<Rightarrow> json option) \<Rightarrow> int \<Rightarrow> (web \<Rightarrow> web) list \<Rightarrow> web \<Rightarrow> sse list \<times> web" where
  "WriteSSEResponse fetch enc flushInterval [] w = ([], w)"
| "WriteSSEResponse fetch enc flushInterval (others # rounds) w =
     (case fetch (others w) of
        (Inl err, w1) \<Rightarrow> apfst (Cons Asked) (WriteSSEResponse fetch enc flushInterval rounds w1)
      | (Inr None, w1) \<Rightarrow> ([Asked], w1)
      | (Inr (Some data), w1) \<Rightarrow>
          (case enc data of
             None \<Rightarrow> apfst (Cons Asked) (WriteSSEResponse fetch enc flushInterval rounds w1)
           | Some jsonData \<Rightarrow> apfst (\<lambda>out. Asked # Event jsonData # Slept flushInterval # out)
               (WriteSSEResponse fetch enc flushInterval rounds w1)))"

definition fetching :: "(web, 'e, 'a) proc \<Rightarrow> (web, 'e, 'a option) proc" where
  "fetching m = seq m (\<lambda>a. ret (Some a))"

lemma WriteSSE_admin_stream:
  "adminGRPCContext r = Some hs \<Longrightarrow>
   WriteSSEResponse (fetching (with_ctx (Some hs) call)) enc 15 rounds w = admin_stream call enc r rounds w"
  by (induction rounds arbitrary: w)
    (auto simp: fetching_def with_ctx_def seq_apply attempt_apply split: prod.split sum.split option.split)

lemma WriteSSE_unanswered:
  "WriteSSEResponse (fail e) enc n rounds w = (replicate (length rounds) Asked, foldl (\<lambda>w f. f w) w rounds)"
  by (induction rounds arbitrary: w) simp_all

text \<open>
  The event writer over the administrators' service is the pages' own stream, event for event and
  in what it does to the server, as long as the request has its cookie; without the cookie the
  page's stream ends at once, while the writer goes round without a pause for as long as the browser
  stays.
\<close>

theorem WriteSSE_is_page_stream:
  "if adminGRPCContext r = None
   then WriteSSEResponse (fetching (svc_GetDashboardStats (newGRPCAdminService W (adminGRPCContext r)))) enc_DashboardStats 15 rounds w
          = (replicate (length rounds) Asked, foldl (\<lambda>w f. f w) w rounds)
        \<and> fst (AdminDashboardStreamHandler W r rounds w) = []
   else WriteSSEResponse (fetching (svc_GetDashboardStats (newGRPCAdminService W (adminGRPCContext r)))) enc_DashboardStats 15 rounds w
          = AdminDashboardStreamHandler W r rounds w
        \<and> WriteSSEResponse (fetching (svc_GetLowStockAlerts (newGRPCAdminService W (adminGRPCContext r)))) enc_BreadList 15 rounds w
          = AdminAlertsStreamHandler W r rounds w"
proof (cases "adminGRPCContext r")
  case None
  have "fetching (with_ctx None call) = fail None" for call :: "(string \<times> string) list \<Rightarrow> (web, code, DashboardStats) proc"
    by (rule ext) (simp add: fetching_def with_ctx_def seq_apply)
  then show ?thesis using None
    by (cases rounds) (simp_all add: newGRPCAdminService_def WriteSSE_unanswered AdminDashboardStreamHandler_def)
next
  case (Some hs)
  then show ?thesis
    by (simp add: newGRPCAdminService_def AdminDashboardStreamHandler_def AdminAlertsStreamHandler_def WriteSSE_admin_stream)
qed

end
