(* ===== verification/Makers.thy ===== *)
theory Makers
  imports Messages "HOL-Library.Multiset"
begin

text \<open>
  The external makers (\<open>makers/main.go\<close>): a request on make-bread-order is read, confirmed on
  bread-made and acknowledged, or sent back to the queue. The worker pool behind it is a step
  relation between two bounded channels.
\<close>

section \<open>Messages\<close>

record breadMadeMessage =
  made_BreadID :: int
  made_Quantity :: int

definition enc_made :: "breadMadeMessage \<Rightarrow> json" where
  "enc_made m = JObj [(''breadId'', enc_int (made_BreadID m)), (''quantity'', enc_int (made_Quantity m))]"

definition dec_made :: "json \<Rightarrow> breadMadeMessage option" where
  "dec_made j =
     Option.bind (obj_fields j) (\<lambda>fs.
     Option.bind (dec_int (jfield ''breadId'' fs)) (\<lambda>i.
     Option.bind (dec_int (jfield ''quantity'' fs)) (\<lambda>q.
     Some \<lparr>made_BreadID = i, made_Quantity = q\<rparr>)))"

record makeBreadMessage =
  mm_ID :: int
  mm_Name :: string
  mm_Quantity :: int
  mm_Description :: string
  mm_Type :: string
  mm_Price :: f64
  mm_Status :: string
  mm_Image :: string

definition dec_make_bread :: "json \<Rightarrow> makeBreadMessage option" where
  "dec_make_bread j =
     Option.bind (obj_fields j) (\<lambda>fs.
     Option.bind (dec_int (jfield ''id'' fs)) (\<lambda>i.
     Option.bind (dec_str (jfield ''name'' fs)) (\<lambda>n.
     Option.bind (dec_int (jfield ''quantity'' fs)) (\<lambda>q.
     Option.bind (dec_str (jfield ''description'' fs)) (\<lambda>d.
     Option.bind (dec_str (jfield ''type'' fs)) (\<lambda>t.
     Option.bind (dec_f64 (jfield ''price'' fs)) (\<lambda>p.
     Option.bind (dec_str (jfield ''status'' fs)) (\<lambda>st.
     Option.bind (dec_str (jfield ''image'' fs)) (\<lambda>im.
     Some \<lparr>mm_ID = i, mm_Name = n, mm_Quantity = q, mm_Description = d, mm_Type = t, mm_Price = p,
       mm_Status = st, mm_Image = im\<rparr>)))))))))"

definition processOrder :: "json option \<Rightarrow> breadMadeMessage option" where
  "processOrder body = map_option (\<lambda>msg. \<lparr>made_BreadID = mm_ID msg, made_Quantity = mm_Quantity msg\<rparr>)
     (Option.bind body dec_make_bread)"

section \<open>The service\<close>

text \<open>
  The service: its publisher, what it has published on bread-made, how it answered its deliveries,
  and which of its next operations on the channel fail.
\<close>

datatype Publisher = nopPublisher | RabbitMQPublisher

datatype maker_answer = MakerAcked | MakerRequeued

datatype maker_err = ProcessError | PublishError | AckError | NackError | DialError | ChannelError
  | QosError | DeclareError | ConsumeError | ContextDone

record MakersService =
  publisher :: Publisher
  confirmed :: "json list"
  maker_answers :: "maker_answer list"
  op_fails :: "bool list"

text \<open>\<open>NewMakersService\<close>: without a publisher, one that does nothing.\<close>

definition NewMakersService :: "Publisher option \<Rightarrow> MakersService" where
  "NewMakersService p = \<lparr>publisher = (case p of None \<Rightarrow> nopPublisher | Some x \<Rightarrow> x),
     confirmed = [], maker_answers = [], op_fails = []\<rparr>"

definition maker_op :: "maker_err \<Rightarrow> (MakersService \<Rightarrow> MakersService) \<Rightarrow> (MakersService, maker_err, unit) proc" where
  "maker_op e f w = (case op_fails w of
     [] \<Rightarrow> (Inr (), f w)
   | x # xs \<Rightarrow> if x then (Inl e, w\<lparr>op_fails := xs\<rparr>) else (Inr (), f (w\<lparr>op_fails := xs\<rparr>)))"

definition ackDelivery :: "(MakersService, maker_err, unit) proc" where
  "ackDelivery = maker_op AckError (\<lambda>w. w\<lparr>maker_answers := maker_answers w @ [MakerAcked]\<rparr>)"

text \<open>It returns an error in any case: that of the \<open>Nack\<close>, or the one that led to it.\<close>

definition nackDelivery :: "maker_err \<Rightarrow> (MakersService, maker_err, unit) proc" where
  "nackDelivery procErr =
     seq (maker_op NackError (\<lambda>w. w\<lparr>maker_answers := maker_answers w @ [MakerRequeued]\<rparr>)) (\<lambda>_. fail procErr)"

definition PublishConfirm :: "json \<Rightarrow> (MakersService, maker_err, unit) proc" where
  "PublishConfirm body w =
     (case publisher w of
        nopPublisher \<Rightarrow> (Inr (), w)
      | RabbitMQPublisher \<Rightarrow> maker_op PublishError (\<lambda>w. w\<lparr>confirmed := confirmed w @ [body]\<rparr>) w)"

definition publishConfirmation :: "breadMadeMessage \<Rightarrow> (MakersService, maker_err, unit) proc" where
  "publishConfirmation confirmation = PublishConfirm (enc_made confirmation)"

text \<open>
  The worker pool is given the body and waited for before the next delivery is taken, so that its
  result is that of this body.
\<close>

definition processSingleMessage :: "json option \<Rightarrow> (MakersService, maker_err, unit) proc" where
  "processSingleMessage body =
     (case processOrder body of
        None \<Rightarrow> nackDelivery ProcessError
      | Some confirmation \<Rightarrow>
          attempt (publishConfirmation confirmation) (\<lambda>err. nackDelivery PublishError)
            (\<lambda>_. ackDelivery))"

text \<open>
  The loop over the deliveries; the flag tells whether the context is cancelled once this delivery
  is dealt with. Errors of a message are logged only.
\<close>

fun deliveries :: "(json option \<times> bool) list \<Rightarrow> (MakersService, maker_err, unit) proc" where
  "deliveries [] = ret ()"
| "deliveries ((d, cancelled) # ds) =
     (let rest = (if cancelled then fail ContextDone else deliveries ds)
      in attempt (processSingleMessage d) (\<lambda>err. rest) (\<lambda>_. rest))"

definition consumeMessages :: "(json option \<times> bool) list \<Rightarrow> (MakersService, maker_err, unit) proc" where
  "consumeMessages ds =
     seq (maker_op DialError id) (\<lambda>_.
     seq (maker_op ChannelError id) (\<lambda>_.
     seq (maker_op QosError id) (\<lambda>_.
     seq (maker_op DeclareError id) (\<lambda>_.
     seq (maker_op ConsumeError id) (\<lambda>_. deliveries ds)))))"

text \<open>
  The rounds of \<open>runConsumerLoop\<close>: what each connection delivers, and whether the service is
  stopped or its context done while it waits to reconnect.
\<close>

fun runConsumerLoop :: "((json option \<times> bool) list \<times> bool) list \<Rightarrow> (MakersService, maker_err, unit) proc" where
  "runConsumerLoop [] = ret ()"
| "runConsumerLoop ((ds, stopped) # rounds) =
     (let again = (if stopped then ret () else runConsumerLoop rounds)
      in attempt (consumeMessages ds) (\<lambda>err. again) (\<lambda>_. again))"

section \<open>The worker pool\<close>

text \<open>
  Two channels of capacity \<open>2 * workers\<close> and the bodies the workers hold. A worker takes the
  oldest task; it hands its result over when there is room.
\<close>

record workerPool =
  workers :: nat
  tasks :: "json option list"
  busy :: "json option list"
  results :: "breadMadeMessage option list"

definition newWorkerPool :: "int \<Rightarrow> workerPool" where
  "newWorkerPool n = \<lparr>workers = (if n \<le> 0 then 1 else nat n), tasks = [], busy = [], results = []\<rparr>"

definition Submit :: "json option \<Rightarrow> workerPool \<Rightarrow> workerPool option" where
  "Submit body wp = (if length (tasks wp) < 2 * workers wp then Some (wp\<lparr>tasks := tasks wp @ [body]\<rparr>) else None)"

definition receive_result :: "workerPool \<Rightarrow> (breadMadeMessage option \<times> workerPool) option" where
  "receive_result wp = (case results wp of [] \<Rightarrow> None | r # rs \<Rightarrow> Some (r, wp\<lparr>results := rs\<rparr>))"

inductive worker :: "workerPool \<Rightarrow> workerPool \<Rightarrow> bool" where
  take: "tasks wp = body # rest \<Longrightarrow> length (busy wp) < workers wp
         \<Longrightarrow> worker wp (wp\<lparr>tasks := rest, busy := busy wp @ [body]\<rparr>)"
| put: "busy wp = bs @ body # cs \<Longrightarrow> length (results wp) < 2 * workers wp
         \<Longrightarrow> worker wp (wp\<lparr>busy := bs @ cs, results := results wp @ [processOrder body]\<rparr>)"

inductive_cases workerE: "worker wp wp'"

text \<open>What the pool has answered or will answer, and how much it has left to do.\<close>

definition outcomes :: "workerPool \<Rightarrow> breadMadeMessage option multiset" where
  "outcomes wp = mset (results wp) + mset (map processOrder (busy wp)) + mset (map processOrder (tasks wp))"

definition pool_work :: "workerPool \<Rightarrow> nat" where
  "pool_work wp = 2 * length (tasks wp) + length (busy wp)"

definition pool_ok :: "workerPool \<Rightarrow> bool" where
  "pool_ok wp \<longleftrightarrow> 0 < workers wp \<and> length (tasks wp) \<le> 2 * workers wp \<and> length (busy wp) \<le> workers wp
     \<and> length (results wp) \<le> 2 * workers wp"

lemma worker_step:
  assumes "worker wp wp'"
  shows "outcomes wp' = outcomes wp" and "pool_work wp' < pool_work wp" and "pool_ok wp \<Longrightarrow> pool_ok wp'"
    and "workers wp' = workers wp"
  using assms by (auto elim!: workerE simp: outcomes_def pool_work_def pool_ok_def)

lemma worker_steps:
  assumes "worker\<^sup>*\<^sup>* wp wp'"
  shows "outcomes wp' = outcomes wp" and "pool_ok wp \<Longrightarrow> pool_ok wp'" and "workers wp' = workers wp"
  using assms by (induction rule: rtranclp_induct) (auto dest: worker_step)

lemma worker_stuck:
  assumes "pool_ok wp" and "\<not> Ex (worker wp)"
  shows "tasks wp = [] \<and> busy wp = [] \<or> length (results wp) = 2 * workers wp"
proof (rule ccontr)
  assume *: "\<not> ?thesis"
  show False
  proof (cases "busy wp")
    case Nil
    then obtain x xs where "tasks wp = x # xs" using * by (cases "tasks wp") auto
    then have "worker wp (wp\<lparr>tasks := xs, busy := busy wp @ [x]\<rparr>)"
      using Nil assms(1) by (intro worker.take) (auto simp: pool_ok_def)
    then show False using assms(2) by blast
  next
    case (Cons b bs)
    then have "worker wp (wp\<lparr>busy := [] @ bs, results := results wp @ [processOrder b]\<rparr>)"
      using * assms(1) by (intro worker.put) (auto simp: pool_ok_def)
    then show False using assms(2) by blast
  qed
qed

text \<open>A pool of one worker with one task, and the steps it takes.\<close>

definition pool_at :: "json option list \<Rightarrow> json option list \<Rightarrow> breadMadeMessage option list \<Rightarrow> workerPool" where
  "pool_at ts bs rs = \<lparr>workers = 1, tasks = ts, busy = bs, results = rs\<rparr>"

lemma pool_at_run: "worker\<^sup>*\<^sup>* (pool_at [d] [] []) (pool_at [] [] [processOrder d])"
proof -
  have "worker (pool_at [d] [] []) (pool_at [] [d] [])"
    using worker.take [of "pool_at [d] [] []" d "[]"] by (simp add: pool_at_def)
  moreover have "worker (pool_at [] [d] []) (pool_at [] [] [processOrder d])"
    using worker.put [of "pool_at [] [d] []" "[]" d "[]"] by (simp add: pool_at_def)
  ultimately show ?thesis by simp
qed

text \<open>
  The worker pool always comes to rest, and never loses, invents or changes an answer: every
  run of its workers is finite, and where none of them can move with room left for results, what
  waits to be received is, as a multiset, \<open>processOrder\<close> of what was submitted.
\<close>

theorem pool_delivers:
  assumes "pool_ok wp" and "worker\<^sup>*\<^sup>* wp wp'" and "\<not> Ex (worker wp')"
    and "size (outcomes wp) < 2 * workers wp"
  shows "tasks wp' = [] \<and> busy wp' = [] \<and> mset (results wp') = outcomes wp \<and> wfP worker\<inverse>\<inverse>"
proof -
  have s: "outcomes wp' = outcomes wp" "pool_ok wp'" "workers wp' = workers wp"
    using worker_steps [OF assms(2)] assms(1) by auto
  have "length (results wp') \<le> size (outcomes wp')" by (simp add: outcomes_def)
  then have rest: "tasks wp' = [] \<and> busy wp' = []"
    using worker_stuck [OF s(2) assms(3)] s assms(4) by simp
  moreover have "wfP worker\<inverse>\<inverse>"
    by (rule wfp_if_convertible_to_nat [of _ pool_work]) (simp add: worker_step(2))
  ultimately show ?thesis using s(1) by (simp add: outcomes_def)
qed

theorem pool_delivers_witness: "mset (results (pool_at [] [] [processOrder None])) = outcomes (pool_at [None] [] [])"
proof -
  have "\<not> Ex (worker (pool_at [] [] [processOrder None]))"
    by (auto elim!: workerE simp: pool_at_def)
  moreover have "pool_ok (pool_at [None] [] [])" "size (outcomes (pool_at [None] [] [])) < 2 * workers (pool_at [None] [] [])"
    by (simp_all add: pool_ok_def outcomes_def pool_at_def)
  ultimately show ?thesis using pool_delivers [OF _ pool_at_run [of None]] by blast
qed

text \<open>
  C28: \<open>processSingleMessage\<close> submits one body and waits: what it receives is \<open>processOrder\<close> of
  that body, and the pool is left as it was found. This is why the model of it may call
  \<open>processOrder\<close> directly.
\<close>

theorem pool_answers_in_turn:
  assumes "Submit body (newWorkerPool n) = Some wp" and "worker\<^sup>*\<^sup>* wp wp'"
  shows "Ex (worker wp') \<and> receive_result wp' = None
    \<or> receive_result wp' = Some (processOrder body, newWorkerPool n)"
proof -
  let ?w = "workers (newWorkerPool n)"
  have w: "0 < ?w" by (simp add: newWorkerPool_def)
  have ok: "pool_ok wp" "outcomes wp = {#processOrder body#}" "workers wp = ?w"
    using assms(1) w by (auto simp: Submit_def pool_ok_def outcomes_def newWorkerPool_def split: if_splits)
  have s: "outcomes wp' = {#processOrder body#}" "pool_ok wp'" "workers wp' = ?w"
    using worker_steps [OF assms(2)] ok by auto
  show ?thesis
  proof (cases "results wp'")
    case Nil
    then have "tasks wp' \<noteq> [] \<or> busy wp' \<noteq> []" using s(1) by (auto simp: outcomes_def)
    then have "Ex (worker wp')" using worker_stuck [OF s(2)] Nil w s(3) by auto
    then show ?thesis using Nil by (simp add: receive_result_def)
  next
    case (Cons r rs)
    then have "size (outcomes wp') = Suc (length rs + length (busy wp') + length (tasks wp'))"
      by (simp add: outcomes_def)
    then have "rs = []" "busy wp' = []" "tasks wp' = []" using s(1) by auto
    moreover have "r = processOrder body" using s(1) Cons calculation by (simp add: outcomes_def)
    ultimately show ?thesis using Cons s(3)
      by (simp add: receive_result_def newWorkerPool_def)
  qed
qed

theorem pool_answers_in_turn_witness:
  "receive_result (pool_at [] [] [processOrder None]) = Some (processOrder None, newWorkerPool 1)"
proof -
  have "Submit None (newWorkerPool 1) = Some (pool_at [None] [] [])"
    by (simp add: Submit_def newWorkerPool_def pool_at_def)
  from pool_answers_in_turn [OF this pool_at_run] show ?thesis
    by (simp add: receive_result_def pool_at_def)
qed

section \<open>Answers and confirmations\<close>

definition acks :: "MakersService \<Rightarrow> nat" where
  "acks w = count_list (maker_answers w) MakerAcked"

text \<open>What one operation on the channel may change.\<close>

lemma maker_op_cases:
  obtains "maker_op e f w = (Inl e, w\<lparr>op_fails := tl (op_fails w)\<rparr>)" "op_fails w \<noteq> []"
  | "maker_op e f w = (Inr (), f (w\<lparr>op_fails := tl (op_fails w)\<rparr>))"
proof (cases "op_fails w")
  case Nil
  then have "w\<lparr>op_fails := tl (op_fails w)\<rparr> = w" by (cases w) simp
  moreover have "maker_op e f w = (Inr (), f w)" using Nil by (simp add: maker_op_def)
  ultimately show ?thesis using that(2) by simp
next
  case (Cons x xs)
  then show ?thesis using that by (cases x) (auto simp: maker_op_def)
qed

definition honest :: "Publisher \<Rightarrow> json set \<Rightarrow> MakersService \<Rightarrow> bool" where
  "honest p js w \<longleftrightarrow> publisher w = p \<and> (p = RabbitMQPublisher \<longrightarrow> acks w \<le> length (confirmed w))
     \<and> (p = nopPublisher \<longrightarrow> confirmed w = []) \<and> set (confirmed w) \<subseteq> js"

lemma honest_op_fails [simp]: "honest p js (w\<lparr>op_fails := x\<rparr>) = honest p js w"
  by (simp add: honest_def acks_def)

lemma acks_op_fails [simp]: "acks (w\<lparr>op_fails := x\<rparr>) = acks w"
  by (simp add: acks_def)

lemma keeps_setup [keeps_intros]: "keeps (honest p js) (maker_op e id)"
proof (rule keepsI)
  fix w assume "honest p js w"
  then show "honest p js (snd (maker_op e id w))" by (cases rule: maker_op_cases [of e id w]) auto
qed

lemma keeps_nackDelivery [keeps_intros]: "keeps (honest p js) (nackDelivery e)"
  unfolding nackDelivery_def
proof (intro keeps_intros keepsI)
  fix w assume "honest p js w"
  then show "honest p js (snd (maker_op NackError (\<lambda>w. w\<lparr>maker_answers := maker_answers w @ [MakerRequeued]\<rparr>) w))"
    by (cases rule: maker_op_cases [of NackError "\<lambda>w. w\<lparr>maker_answers := maker_answers w @ [MakerRequeued]\<rparr>" w])
       (auto simp: honest_def acks_def)
qed

definition confirmations :: "json option list \<Rightarrow> json set" where
  "confirmations ds = enc_made ` {m. Some m \<in> set (map processOrder ds)}"

lemma keeps_processSingleMessage:
  assumes "\<And>m. processOrder d = Some m \<Longrightarrow> enc_made m \<in> js"
  shows "keeps (honest p js) (processSingleMessage d)"
proof (cases "processOrder d")
  case None
  then show ?thesis unfolding processSingleMessage_def by (simp add: keeps_nackDelivery)
next
  case (Some m)
  then have m: "enc_made m \<in> js" by (rule assms)
  show ?thesis
  proof (rule keepsI)
    fix w assume h: "honest p js w"
    let ?spare = "\<lambda>v. honest p js v \<and> (p = RabbitMQPublisher \<longrightarrow> acks v < length (confirmed v))"
    have ack: "honest p js (snd (ackDelivery v))" if "?spare v" for v
      unfolding ackDelivery_def using that
      by (cases rule: maker_op_cases [of AckError "\<lambda>w. w\<lparr>maker_answers := maker_answers w @ [MakerAcked]\<rparr>" v])
         (auto simp: honest_def acks_def)
    show "honest p js (snd (processSingleMessage d w))"
    proof (cases "publishConfirmation m w")
      case (Pair x v)
      have "honest p js v \<and> (\<forall>u. x = Inr u \<longrightarrow> ?spare v)"
        using Pair h m unfolding publishConfirmation_def PublishConfirm_def
        by (cases p;
            cases rule: maker_op_cases [of PublishError "\<lambda>w. w\<lparr>confirmed := confirmed w @ [enc_made m]\<rparr>" w])
           (auto simp: honest_def acks_def)
      then show ?thesis using Pair Some keepsD [OF keeps_nackDelivery [of p js PublishError], of v] ack [of v]
        by (auto simp: processSingleMessage_def attempt_apply split: sum.split)
    qed
  qed
qed

lemma keeps_deliveries:
  "confirmations (map fst ds) \<subseteq> js \<Longrightarrow> keeps (honest p js) (deliveries ds)"
proof (induction ds rule: deliveries.induct)
  case (2 d c ds)
  have rest: "keeps (honest p js) (if c then fail ContextDone else deliveries ds)"
    using 2 by (auto simp: confirmations_def intro: keeps_intros)
  have "keeps (honest p js) (processSingleMessage d)"
    using 2(2) by (intro keeps_processSingleMessage) (auto simp: confirmations_def intro: image_eqI sym)
  then show ?case unfolding deliveries.simps Let_def by (intro keeps_attempt rest)
qed (simp add: keeps_ret)

lemma keeps_consumeMessages:
  "confirmations (map fst ds) \<subseteq> js \<Longrightarrow> keeps (honest p js) (consumeMessages ds)"
  unfolding consumeMessages_def by (intro keeps_intros keeps_deliveries)

definition delivered :: "((json option \<times> bool) list \<times> bool) list \<Rightarrow> json option list" where
  "delivered rounds = concat (map (map fst \<circ> fst) rounds)"

lemma confirmations_append: "confirmations (xs @ ys) = confirmations xs \<union> confirmations ys"
  by (auto simp: confirmations_def)

lemma delivered_Cons: "delivered ((ds, st) # rounds) = map fst ds @ delivered rounds"
  by (simp add: delivered_def)

lemma keeps_runConsumerLoop:
  "confirmations (delivered rounds) \<subseteq> js \<Longrightarrow> keeps (honest p js) (runConsumerLoop rounds)"
proof (induction rounds rule: runConsumerLoop.induct)
  case (2 ds st rounds)
  have sub: "confirmations (map fst ds) \<subseteq> js" "confirmations (delivered rounds) \<subseteq> js"
    using 2(2) by (auto simp: delivered_Cons confirmations_append)
  have again: "keeps (honest p js) (if st then ret () else runConsumerLoop rounds)"
    using 2(1) sub(2) by (auto intro: keeps_intros)
  show ?case unfolding runConsumerLoop.simps Let_def
    by (intro keeps_attempt again keeps_consumeMessages sub)
qed (simp add: keeps_ret)

lemma honest_new: "honest (publisher (NewMakersService p)) js (NewMakersService p\<lparr>op_fails := f\<rparr>)"
  by (auto simp: honest_def acks_def NewMakersService_def)

text \<open>
  C27: A service with a publisher acknowledges a request only after its confirmation is out: over
  any number of connections, deliveries and failures of the channel there are at least as many
  confirmations as acknowledgements, and every confirmation answers a request delivered. (There
  may be more: a confirmation goes out again when its acknowledgement fails.)
\<close>

theorem confirms_before_acking:
  "acks (snd (runConsumerLoop rounds (NewMakersService (Some RabbitMQPublisher)\<lparr>op_fails := f\<rparr>)))
     \<le> length (confirmed (snd (runConsumerLoop rounds (NewMakersService (Some RabbitMQPublisher)\<lparr>op_fails := f\<rparr>))))
   \<and> set (confirmed (snd (runConsumerLoop rounds (NewMakersService (Some RabbitMQPublisher)\<lparr>op_fails := f\<rparr>))))
     \<subseteq> confirmations (delivered rounds)"
proof -
  have k: "keeps (honest RabbitMQPublisher (confirmations (delivered rounds))) (runConsumerLoop rounds)"
    by (intro keeps_runConsumerLoop) simp
  show ?thesis using keepsD [OF k] honest_new [of "Some RabbitMQPublisher" _ f]
    by (simp add: honest_def NewMakersService_def)
qed

definition answer_of :: "json option \<Rightarrow> maker_answer" where
  "answer_of d = (if processOrder d = None then MakerRequeued else MakerAcked)"

lemma silent_processSingleMessage:
  assumes "op_fails w = []" and "publisher w = nopPublisher"
  shows "snd (processSingleMessage d w) = w\<lparr>maker_answers := maker_answers w @ [answer_of d]\<rparr>"
  using assms by (cases "processOrder d") (simp_all add: processSingleMessage_def attempt_apply seq_apply
      publishConfirmation_def PublishConfirm_def ackDelivery_def nackDelivery_def maker_op_def answer_of_def)

lemma silent_deliveries:
  assumes "op_fails w = []" and "publisher w = nopPublisher"
  shows "deliveries (map (\<lambda>d. (d, False)) ds) w
    = (Inr (), w\<lparr>maker_answers := maker_answers w @ map answer_of ds\<rparr>)"
  using assms
proof (induction ds arbitrary: w)
  case (Cons d ds)
  let ?v = "w\<lparr>maker_answers := maker_answers w @ [answer_of d]\<rparr>"
  have "snd (processSingleMessage d w) = ?v" using Cons.prems by (rule silent_processSingleMessage)
  moreover have "deliveries (map (\<lambda>d. (d, False)) (d # ds)) w
      = deliveries (map (\<lambda>d. (d, False)) ds) (snd (processSingleMessage d w))"
    by (simp add: Let_def attempt_apply split: prod.split sum.split)
  ultimately show ?case using Cons.IH [of ?v] Cons.prems by simp
qed simp

text \<open>
  The service as \<open>main\<close> builds it, with no publisher, never confirms anything, whatever is
  delivered and whatever fails; but over a connection that works it acknowledges every request
  it can read, and sends every other one back to the queue, to be delivered again.
\<close>

theorem main_confirms_nothing:
  "confirmed (snd (runConsumerLoop rounds (NewMakersService None\<lparr>op_fails := f\<rparr>))) = []
   \<and> maker_answers (snd (consumeMessages (map (\<lambda>d. (d, False)) ds) (NewMakersService None)))
       = map (\<lambda>d. if processOrder d = None then MakerRequeued else MakerAcked) ds"
proof
  have "keeps (honest nopPublisher (confirmations (delivered rounds))) (runConsumerLoop rounds)"
    by (intro keeps_runConsumerLoop) simp
  then show "confirmed (snd (runConsumerLoop rounds (NewMakersService None\<lparr>op_fails := f\<rparr>))) = []"
    using keepsD honest_new [of None _ f] by (fastforce simp: honest_def NewMakersService_def)
  have "NewMakersService None = \<lparr>publisher = nopPublisher, confirmed = [], maker_answers = [], op_fails = []\<rparr>"
    by (simp add: NewMakersService_def)
  then have "consumeMessages (map (\<lambda>d. (d, False)) ds) (NewMakersService None)
      = deliveries (map (\<lambda>d. (d, False)) ds) (NewMakersService None)"
    by (simp add: consumeMessages_def seq_apply maker_op_def)
  then show "maker_answers (snd (consumeMessages (map (\<lambda>d. (d, False)) ds) (NewMakersService None)))
       = map (\<lambda>d. if processOrder d = None then MakerRequeued else MakerAcked) ds"
    by (simp add: silent_deliveries NewMakersService_def) (simp add: answer_of_def)
qed

end
