(* ===== verification/Replenish.thy ===== *)
theory Replenish
  imports Wire Makers "HOL-Library.Sublist"
begin

text \<open>
  Replenishment (\<open>server/rabbitBakery.go\<close>): the server looks for low stock, asks for bread on
  make-bread-order and adds what the makers confirm on bread-made.
\<close>

section \<open>The server asks\<close>

definition enc_make_bread :: "Bread \<Rightarrow> json option" where
  "enc_make_bread bread = map_option (\<lambda>price. JObj
     [(''description'', JStr (b_Description bread)), (''id'', enc_int (b_ID bread)),
      (''image'', JStr (b_Image bread)), (''name'', JStr (b_Name bread)), (''price'', price),
      (''quantity'', enc_int 50), (''status'', JStr ''pending''), (''type'', JStr (b_Type bread))])
     (enc_f64 (b_Price bread))"

definition auto_request :: "Bread \<Rightarrow> PendingMakeOrder" where
  "auto_request bread = \<lparr>p_ID = 0, p_BreadID = b_ID bread, p_RequestedQuantity = 50,
     p_Status = ''pending'', p_Source = ''auto'', p_CreatedAt = zero_time, p_UpdatedAt = zero_time\<rparr>"

text \<open>The connection, the channel and its queue, the message: a failure of any of them is logged.\<close>

definition request_bread :: "json \<Rightarrow> (bakery, db_err, unit) proc" where
  "request_bread msgData =
     attempt amqp_op (\<lambda>err. ret ()) (\<lambda>_.
     attempt amqp_op (\<lambda>err. ret ()) (\<lambda>_.
     attempt (Publish ''make-bread-order'' msgData) (\<lambda>err. ret ()) ret))"

text \<open>One bread of the loop; every failure is logged and the loop goes on.\<close>

definition replenish :: "Bread \<Rightarrow> (bakery, db_err, unit) proc" where
  "replenish bread =
     (if b_Quantity bread \<le> 10
      then attempt (bk_lift (InsertPendingMakeOrder (auto_request bread))) (\<lambda>err. ret ())
        (\<lambda>_. case enc_make_bread bread of
            None \<Rightarrow> ret ()
          | Some msgData \<Rightarrow> request_bread msgData)
      else ret ())"

definition price_of :: "int \<Rightarrow> f64" where
  "price_of cents = rnd64 (of_int cents / 100)"

definition first_bread :: "string \<Rightarrow> int \<Rightarrow> string \<Rightarrow> string \<Rightarrow> string \<Rightarrow> Bread" where
  "first_bread name cents desc kind img = zero_Bread\<lparr>b_Name := name, b_Quantity := 1,
     b_Price := price_of cents, b_Description := desc, b_Type := kind, b_Status := ''available'',
     b_Image := img\<rparr>"

definition first_breads :: "Bread list" where
  "first_breads =
     [first_bread ''Cinnamon Roll'' 299 ''Cinnamon Roll, a classic bakery bread with cinnamon and sugar'' ''Sweet Bread''
        ''https://cdn.pixabay.com/photo/2019/12/25/17/55/cinnamon-roll-4719023_1280.jpg'',
      first_bread ''Sourdough Bread'' 199 ''Sourdough Bread, a classic bakery bread with a sour taste'' ''Sour Bread''
        ''https://cdn.pixabay.com/photo/2020/11/28/12/25/bread-5784572_1280.jpg'',
      first_bread ''Baguette'' 149 ''Baguette, a classic bakery bread with a long shape'' ''French Bread''
        ''https://cdn.pixabay.com/photo/2017/06/23/23/57/bread-2436370_1280.jpg'',
      first_bread ''Pretzel'' 249 ''Pretzel, a classic bakery bread with a salty taste'' ''Salty Bread''
        ''https://cdn.pixabay.com/photo/2017/09/05/17/18/pretzel-2718477_1280.jpg'',
      first_bread ''Bolillo'' 79 ''Bolillo, a classic bakery bread with a soft texture'' ''Soft Bread''
        ''https://cdn.pixabay.com/photo/2019/02/07/21/19/bobbin-lace-3982200_1280.jpg'',
      first_bread ''Croissant'' 119 ''Croissant, a classic bakery bread with a buttery taste'' ''Buttery Bread''
        ''https://cdn.pixabay.com/photo/2012/02/29/12/17/bread-18987_1280.jpg'',
      first_bread ''Brioche'' 159 ''Brioche, a classic bakery bread with a sweet taste'' ''Sweet Bread''
        ''https://cdn.pixabay.com/photo/2021/01/16/21/05/brioche-5923399_1280.jpg'']"

text \<open>The first error ends it, and nobody hears of it.\<close>

definition initializeBakery :: "unit repo" where
  "initializeBakery =
     attempt (for_each (\<lambda>bread _. seq (InsertBread bread) (\<lambda>i. ret ())) first_breads ())
       (\<lambda>err. ret ())
       (\<lambda>_. seq (query now) (\<lambda>t.
          attempt (InsertBreadMaker \<lparr>m_ID = 2, m_Name = ''Another Bread Maker'',
              m_Email = ''another_bread@maker.com'', m_CreatedAt = t, m_UpdatedAt = t\<rparr>)
            (\<lambda>err. ret ()) (\<lambda>i. ret ())))"

definition checkBread :: "(bakery, db_err, unit) proc" where
  "checkBread =
     seq (bk_lift GetAvailableBread) (\<lambda>breads.
       if breads = [] then bk_lift initializeBakery
       else for_each (\<lambda>bread _. replenish bread) breads ())"

section \<open>The server takes the confirmation\<close>

datatype made_answer = MadeAcked | MadeRequeued | MadeDiscarded

definition listenForBreadMade :: "json option \<Rightarrow> db \<Rightarrow> made_answer \<times> db" where
  "listenForBreadMade body s =
     (case Option.bind body dec_made of
        None \<Rightarrow> (MadeDiscarded, s)
      | Some msg \<Rightarrow>
          (case AdjustBreadQuantity (made_BreadID msg) (made_Quantity msg) s of
             (Inl err, t) \<Rightarrow> (MadeRequeued, t)
           | (Inr b, t) \<Rightarrow> (MadeAcked, t)))"

section \<open>What is asked for\<close>

text \<open>The request of a bread, as a maker reads it.\<close>

definition asks_for :: "Bread \<Rightarrow> json \<Rightarrow> bool" where
  "asks_for b j \<longleftrightarrow> processOrder (Some j) = Some \<lparr>made_BreadID = b_ID b, made_Quantity = 50\<rparr>"

lemma enc_make_bread_asks:
  assumes "enc_make_bread b = Some j" and "is_int64 (b_ID b)" and "f64_ok (b_Price b) \<or> b_Price b = NaN"
  shows "asks_for b j"
proof -
  have "f64_ok (b_Price b)" using assms(1,3) by (auto simp: enc_make_bread_def)
  then obtain p where p: "enc_f64 (b_Price b) = Some p" "dec_f64 p = Some (b_Price b)"
    using enc_f64_Some by blast
  then show ?thesis
    using assms(1,2)
    by (auto simp: enc_make_bread_def asks_for_def processOrder_def dec_make_bread_def jfield_def dec_enc_int
        is_int64_def)
qed

definition low_stock :: "db \<Rightarrow> Bread list" where
  "low_stock s = filter (\<lambda>b. b_Quantity b \<le> 10) (map scan_bread (filter (\<lambda>r. 0 \<le> br_quantity r) (bread_t s)))"

text \<open>What a run may publish: at most one request for each of the breads it looks at.\<close>

definition asked :: "Bread list \<Rightarrow> bakery \<Rightarrow> bakery \<Rightarrow> bool" where
  "asked breads b b' \<longleftrightarrow> (\<exists>bs js. sent b' = sent b @ map (Pair ''make-bread-order'') js
     \<and> subseq bs (filter (\<lambda>x. b_Quantity x \<le> 10) breads) \<and> list_all2 (\<lambda>x j. enc_make_bread x = Some j) bs js)"

lemma asked_nothing: "sent b' = sent b \<Longrightarrow> asked breads b b'"
  unfolding asked_def by (intro exI [of _ "[]"]) simp

lemma asked_append:
  assumes "asked xs b b1" and "asked ys b1 b2"
  shows "asked (xs @ ys) b b2"
proof -
  let ?e = "\<lambda>x j. enc_make_bread x = Some j"
  obtain bs js where 1: "sent b1 = sent b @ map (Pair ''make-bread-order'') js"
      "subseq bs (filter (\<lambda>x. b_Quantity x \<le> 10) xs)" "list_all2 ?e bs js"
    using assms(1) unfolding asked_def by blast
  obtain cs ks where 2: "sent b2 = sent b1 @ map (Pair ''make-bread-order'') ks"
      "subseq cs (filter (\<lambda>x. b_Quantity x \<le> 10) ys)" "list_all2 ?e cs ks"
    using assms(2) unfolding asked_def by blast
  have "sent b2 = sent b @ map (Pair ''make-bread-order'') (js @ ks)" using 1(1) 2(1) by simp
  moreover have "subseq (bs @ cs) (filter (\<lambda>x. b_Quantity x \<le> 10) (xs @ ys))"
    using 1(2) 2(2) by (simp add: list_emb_append_mono)
  moreover have "list_all2 ?e (bs @ cs) (js @ ks)" using 1(3) 2(3) by (rule list_all2_appendI)
  ultimately show ?thesis unfolding asked_def by blast
qed

lemma sent_bk_lift [simp]: "sent (snd (bk_lift f b)) = sent b"
  by (simp add: bk_lift_def split: prod.split)

lemma sent_amqp_op [simp]: "sent (snd (amqp_op b)) = sent b"
  by (simp add: amqp_op_def split: list.split)

lemma sent_Publish: "sent (snd (Publish q j b)) = sent b \<or> sent (snd (Publish q j b)) = sent b @ [(q, j)]"
  by (simp add: Publish_def Let_def split: list.split fault.split)

lemma sent_request_bread:
  "sent (snd (request_bread j b)) = sent b \<or> sent (snd (request_bread j b)) = sent b @ [(''make-bread-order'', j)]"
proof -
  obtain r b1 where 1: "amqp_op b = (r, b1)" by fastforce
  obtain r2 b2 where 2: "amqp_op b1 = (r2, b2)" by fastforce
  obtain r3 b3 where 3: "Publish ''make-bread-order'' j b2 = (r3, b3)" by fastforce
  have "sent b1 = sent b" "sent b2 = sent b1" using sent_amqp_op [of b] sent_amqp_op [of b1] 1 2 by auto
  then show ?thesis using sent_Publish [of "''make-bread-order''" j b2] 1 2 3
    by (auto simp: request_bread_def attempt_apply split: sum.split)
qed

lemma replenish_asked: "asked [x] b (snd (replenish x b))"
proof -
  obtain r b1 where 1: "bk_lift (InsertPendingMakeOrder (auto_request x)) b = (r, b1)" by fastforce
  have s: "sent b1 = sent b" using sent_bk_lift [of "InsertPendingMakeOrder (auto_request x)" b] 1 by simp
  show ?thesis
  proof (cases "b_Quantity x \<le> 10 \<and> (\<exists>u. r = Inr u) \<and> enc_make_bread x \<noteq> None")
    case True
    then obtain j u where j: "enc_make_bread x = Some j" "r = Inr u" by auto
    then have *: "snd (replenish x b) = snd (request_bread j b1)"
      using True 1 by (simp add: replenish_def attempt_apply)
    show ?thesis using sent_request_bread [of j b1]
    proof
      assume "sent (snd (request_bread j b1)) = sent b1 @ [(''make-bread-order'', j)]"
      then show ?thesis unfolding asked_def using True j * s
        by (intro exI [of _ "[x]"] exI [of _ "[j]"]) simp
    qed (use * s in \<open>auto intro: asked_nothing\<close>)
  next
    case False
    then have "sent (snd (replenish x b)) = sent b"
      using 1 s by (auto simp: replenish_def attempt_apply split: sum.split option.split)
    then show ?thesis by (rule asked_nothing)
  qed
qed

lemma asked_all: "asked xs b (snd (for_each (\<lambda>x _. replenish x) xs () b))"
proof (induction xs arbitrary: b)
  case Nil
  show ?case by (simp add: asked_nothing)
next
  case (Cons x xs)
  have "fst (replenish x b) = Inr ()" 
    by (auto simp: replenish_def request_bread_def attempt_apply split: prod.split sum.split option.split)
  then have "snd (for_each (\<lambda>x _. replenish x) (x # xs) () b)
     = snd (for_each (\<lambda>x _. replenish x) xs () (snd (replenish x b)))"
    by (cases "replenish x b") (simp add: seq_apply)
  then show ?case using asked_append [OF replenish_asked Cons.IH, of x b] by simp
qed

lemma sent_bk_lift_eq: "bk_lift f b = (r, b') \<Longrightarrow> sent b' = sent b"
  using sent_bk_lift [of f b] by simp

lemma GetAvailableBread_prefix:
  assumes "GetAvailableBread s = (Inr breads, t)"
  shows "\<exists>n. breads = take n (map scan_bread (filter (\<lambda>r. 0 \<le> br_quantity r) (bread_t s)))"
  using assms
  by (auto simp: GetAvailableBread_def query_rows_def seq_apply Let_def take_map intro: exI [of _ "length (bread_t s)"]
      split: list.splits fault.splits)

lemma subseq_take_filter: "subseq xs (filter P (take n ys)) \<Longrightarrow> subseq xs (filter P ys)"
  by (metis append_take_drop_id filter_append subseq_order.trans subseq_rev_drop_many subseq_order.refl
      list_emb_prefix)

lemma checkBread_asked:
  "\<exists>bs js. sent (snd (checkBread b)) = sent b @ map (Pair ''make-bread-order'') js
     \<and> subseq bs (low_stock (bk_db b)) \<and> list_all2 (\<lambda>x j. enc_make_bread x = Some j) bs js"
proof -
  obtain r t where r: "GetAvailableBread (bk_db b) = (r, t)" by fastforce
  let ?b = "b\<lparr>bk_db := t\<rparr>"
  have 1: "bk_lift GetAvailableBread b = (r, ?b)" using r by (simp add: bk_lift_def)
  show ?thesis
  proof (cases "\<exists>breads. r = Inr breads \<and> breads \<noteq> []")
    case False
    then have "sent (snd (checkBread b)) = sent b"
      using 1 by (auto simp: checkBread_def seq_apply split: sum.split)
    then show ?thesis by (intro exI [of _ "[]"]) simp
  next
    case True
    then obtain breads where r': "r = Inr breads" "breads \<noteq> []" by blast
    then have *: "checkBread b = for_each (\<lambda>bread _. replenish bread) breads () ?b"
      using 1 by (simp add: checkBread_def seq_apply)
    obtain n where n: "breads = take n (map scan_bread (filter (\<lambda>r. 0 \<le> br_quantity r) (bread_t (bk_db b))))"
      using GetAvailableBread_prefix r r'(1) by blast
    show ?thesis using asked_all [of breads ?b] subseq_take_filter
      unfolding asked_def * n low_stock_def by fastforce
  qed
qed

lemma low_stock_rows:
  assumes "bread_inv s" and "subseq bs (low_stock s)"
  shows "distinct (map b_ID bs)" and "x \<in> set bs \<Longrightarrow> is_int64 (b_ID x) \<and> (f64_ok (b_Price x) \<or> enc_make_bread x = None)"
proof -
  have low: "map b_ID (low_stock s) = map br_id (filter (\<lambda>r. 0 \<le> br_quantity r \<and> br_quantity r \<le> 10) (bread_t s))"
    by (simp add: low_stock_def filter_map o_def scan_bread_def conj_commute)
  have "distinct (map br_id (filter (\<lambda>r. 0 \<le> br_quantity r \<and> br_quantity r \<le> 10) (bread_t s)))"
    using assms(1) by (auto simp: bread_inv_def distinct_map_filter)
  moreover have "subseq (map b_ID bs) (map b_ID (low_stock s))" using assms(2) by (rule subseq_map)
  ultimately show "distinct (map b_ID bs)" unfolding low 
    by (metis distinct_nthsI subseq_conv_nths)
  assume "x \<in> set bs"
  then have "x \<in> set (low_stock s)" using assms(2) by (metis notin_set_nthsI subseq_conv_nths)
  then obtain r where r: "r \<in> set (bread_t s)" "x = scan_bread r" by (auto simp: low_stock_def)
  then have "is_int64 (b_ID x)"
    using assms(1) by (auto simp: bread_inv_def bread_row_error_def scan_bread_def is_int32_def is_int64_def split: if_splits)
  moreover have "f64_ok (b_Price x) \<or> enc_make_bread x = None"
  proof (cases "b_Price x")
    case (Fin p)
    then have "f64_ok (Fin p)" using r(2)
      by (cases "br_price r") (auto simp: scan_bread_def intro: f64_ok_rnd64)
    then show ?thesis using Fin by simp
  qed (simp_all add: enc_make_bread_def)
  ultimately show "is_int64 (b_ID x) \<and> (f64_ok (b_Price x) \<or> enc_make_bread x = None)" by blast
qed

text \<open>
  A run of \<open>checkBread\<close>, whatever fails in the database or at RabbitMQ, asks at most once for
  each bread whose stock is at most 10, for nothing else, and every request is one a maker reads
  as fifty of that bread.
\<close>

theorem checkBread_asks_once:
  assumes "db_inv (bk_db b)"
  shows "\<exists>bs js. sent (snd (checkBread b)) = sent b @ map (Pair ''make-bread-order'') js
     \<and> subseq bs (low_stock (bk_db b)) \<and> distinct (map b_ID bs)
     \<and> map (\<lambda>j. processOrder (Some j)) js = map (\<lambda>x. Some \<lparr>made_BreadID = b_ID x, made_Quantity = 50\<rparr>) bs"
proof -
  obtain bs js where *: "sent (snd (checkBread b)) = sent b @ map (Pair ''make-bread-order'') js"
      "subseq bs (low_stock (bk_db b))" "list_all2 (\<lambda>x j. enc_make_bread x = Some j) bs js"
    using checkBread_asked [of b] by blast
  have "list_all2 (\<lambda>x j. processOrder (Some j) = Some \<lparr>made_BreadID = b_ID x, made_Quantity = 50\<rparr>) bs js"
  proof (rule list.rel_mono_strong [OF *(3)])
    fix x j assume x: "x \<in> set bs" and j: "enc_make_bread x = Some j"
    have "is_int64 (b_ID x)" "f64_ok (b_Price x)"
      using low_stock_rows(2) [OF db_inv_bread [OF assms] *(2) x] j by auto
    then show "processOrder (Some j) = Some \<lparr>made_BreadID = b_ID x, made_Quantity = 50\<rparr>"
      using enc_make_bread_asks [OF j] by (simp add: asks_for_def)
  qed
  then have "map (\<lambda>j. processOrder (Some j)) js = map (\<lambda>x. Some \<lparr>made_BreadID = b_ID x, made_Quantity = 50\<rparr>) bs"
    by (auto simp: list_all2_conv_all_nth intro!: nth_equalityI)
  then show ?thesis using * low_stock_rows(1) [OF db_inv_bread [OF assms] *(2)] by blast
qed

section \<open>What is confirmed\<close>

lemma int64_sum:
  assumes "0 \<le> q" and "is_int32 q" and "is_int64 d" and "0 \<le> int64 (q + d)"
  shows "int64 (q + d) = q + d"
proof (cases "is_int64 (q + d)")
  case False
  then have y: "0 \<le> q + d - 2 ^ 63" "q + d - 2 ^ 63 < 2 ^ 64"
    using assms(1-3) by (auto simp: is_int64_def is_int32_def)
  have "q + d + 2 ^ 63 = (q + d - 2 ^ 63) + 2 ^ 64" by simp
  then have "(q + d + 2 ^ 63) mod 2 ^ 64 = (q + d - 2 ^ 63) mod 2 ^ 64" by (metis mod_add_self2)
  also have "\<dots> = q + d - 2 ^ 63" using y by (rule mod_pos_pos_trivial)
  finally have "(q + d + 2 ^ 63) mod 2 ^ 64 = q + d - 2 ^ 63" .
  then have "int64 (q + d) < 0" using assms(1-3)
    by (simp add: int64_def signed_take_bit_eq_take_bit_shift take_bit_eq_mod is_int64_def is_int32_def)
  then show ?thesis using assms(4) by simp
qed simp

lemma dec_int_int64: "dec_int j = Some n \<Longrightarrow> is_int64 n"
  by (cases j) (auto simp: is_int64_def split: if_splits)

lemma dec_made_int64: "dec_made j = Some m \<Longrightarrow> is_int64 (made_Quantity m)"
  by (auto simp: dec_made_def bind_eq_Some_conv dec_int_int64)

definition restocked :: "(int \<Rightarrow> int option) \<Rightarrow> breadMadeMessage \<Rightarrow> (int \<Rightarrow> int option) \<Rightarrow> bool" where
  "restocked st m st' \<longleftrightarrow> (\<exists>q. st (made_BreadID m) = Some q \<and> 0 \<le> q + made_Quantity m
     \<and> st' = st(made_BreadID m \<mapsto> min 100 (q + made_Quantity m)))"

lemma adjust_restocks:
  assumes "bread_inv s" and "is_int64 (made_Quantity m)" and "stock s (made_BreadID m) = Some q"
    and "adjust_new q (made_Quantity m) = Inr (n, c)"
  shows "restocked (stock s) m ((stock s)(made_BreadID m \<mapsto> n))"
proof -
  have "0 \<le> q" "is_int32 q" using stock_nonneg [OF assms(1,3)] by auto
  then have "int64 (q + made_Quantity m) = q + made_Quantity m"
    using assms(2,4) by (intro int64_sum) (auto simp: adjust_new_def Let_def split: if_splits)
  then have "0 \<le> q + made_Quantity m" "n = min 100 (q + made_Quantity m)"
    using assms(4) by (auto simp: adjust_new_def Let_def split: if_splits)
  then show ?thesis using assms(3) by (auto simp: restocked_def)
qed

text \<open>What an adjustment may have done to the stock, by its answer.\<close>

lemma made_adjusted:
  assumes "db_inv s" and "is_int64 (made_Quantity m)"
    and "AdjustBreadQuantity (made_BreadID m) (made_Quantity m) s = (r, t)"
  shows "restocked (stock s) m (stock t) \<or> (\<exists>e. r = Inl e) \<and> stock t = stock s"
proof -
  note tr = tripleD [OF AdjustBreadQuantity_triple refl, of s "made_BreadID m" "made_Quantity m", unfolded assms(3)]
  show ?thesis using tr adjust_restocks [OF db_inv_bread [OF assms(1)] assms(2)] by (cases r) fastforce+
qed

text \<open>
  A confirmation is acknowledged only once it is in the stock, up to the limit of 100; one that
  cannot be read is dropped and changes nothing; one whose update fails goes back to the queue
  with the stock as it was, or already updated when only the reply of the database was lost, and
  is then counted again.
\<close>

theorem listenForBreadMade_answers:
  assumes "db_inv s"
  shows "case listenForBreadMade body s of (a, t) \<Rightarrow>
    (case Option.bind body dec_made of
       None \<Rightarrow> a = MadeDiscarded \<and> t = s
     | Some m \<Rightarrow> a = MadeAcked \<and> restocked (stock s) m (stock t)
         \<or> a = MadeRequeued \<and> (stock t = stock s \<or> restocked (stock s) m (stock t)))"
proof (cases "Option.bind body dec_made")
  case None
  then show ?thesis by (simp add: listenForBreadMade_def)
next
  case (Some m)
  then have i: "is_int64 (made_Quantity m)"
    using dec_made_int64 by (cases body) auto
  obtain r t where "AdjustBreadQuantity (made_BreadID m) (made_Quantity m) s = (r, t)" by fastforce
  with made_adjusted [OF assms i this] Some show ?thesis
    by (cases r) (auto simp: listenForBreadMade_def)
qed

definition low_bakery :: bakery where
  "low_bakery = \<lparr>bk_db = sample_db, amqp = [], sent = [], orderSequence = 0\<rparr>"

text \<open>Five and none of its two breads are left: it asks for both.\<close>

theorem checkBread_asks_once_witness:
  "length (sent (snd (checkBread low_bakery))) = 2
   \<and> (\<exists>js. sent (snd (checkBread low_bakery)) = map (Pair ''make-bread-order'') js
        \<and> (\<forall>j \<in> set js. \<exists>x \<in> set (low_stock (bk_db low_bakery)).
             processOrder (Some j) = Some \<lparr>made_BreadID = b_ID x, made_Quantity = 50\<rparr>))"
proof
  show "length (sent (snd (checkBread low_bakery))) = 2" by code_simp
  have "db_inv (bk_db low_bakery)" by code_simp
  from checkBread_asks_once [OF this] obtain bs js where
    *: "sent (snd (checkBread low_bakery)) = sent low_bakery @ map (Pair ''make-bread-order'') js"
      "subseq bs (low_stock (bk_db low_bakery))"
      "map (\<lambda>j. processOrder (Some j)) js = map (\<lambda>x. Some \<lparr>made_BreadID = b_ID x, made_Quantity = 50\<rparr>) bs"
    by blast
  have "\<exists>x \<in> set (low_stock (bk_db low_bakery)).
      processOrder (Some j) = Some \<lparr>made_BreadID = b_ID x, made_Quantity = 50\<rparr>" if "j \<in> set js" for j
  proof -
    have "processOrder (Some j) \<in> set (map (\<lambda>j. processOrder (Some j)) js)" using that by simp
    then obtain x where "x \<in> set bs" "processOrder (Some j) = Some \<lparr>made_BreadID = b_ID x, made_Quantity = 50\<rparr>"
      unfolding *(3) by auto
    then show ?thesis using *(2) by (metis notin_set_nthsI subseq_conv_nths)
  qed
  then show "\<exists>js. sent (snd (checkBread low_bakery)) = map (Pair ''make-bread-order'') js
        \<and> (\<forall>j \<in> set js. \<exists>x \<in> set (low_stock (bk_db low_bakery)).
             processOrder (Some j) = Some \<lparr>made_BreadID = b_ID x, made_Quantity = 50\<rparr>)"
    using *(1) by (auto simp: low_bakery_def)
qed

theorem listenForBreadMade_answers_witness:
  "restocked (stock sample_db) \<lparr>made_BreadID = 1, made_Quantity = 97\<rparr>
     (stock (snd (listenForBreadMade (Some (enc_made \<lparr>made_BreadID = 1, made_Quantity = 97\<rparr>)) sample_db)))
   \<and> stock (snd (listenForBreadMade (Some (enc_made \<lparr>made_BreadID = 1, made_Quantity = 97\<rparr>)) sample_db)) 1 = Some 100"
proof -
  let ?m = "\<lparr>made_BreadID = 1, made_Quantity = 97\<rparr>"
  let ?p = "listenForBreadMade (Some (enc_made ?m)) sample_db"
  have d: "Option.bind (Some (enc_made ?m)) dec_made = Some ?m" by code_simp
  have a: "fst ?p = MadeAcked" by code_simp
  have "db_inv sample_db" by code_simp
  from listenForBreadMade_answers [OF this, of "Some (enc_made ?m)"]
  have "fst ?p = MadeAcked \<and> restocked (stock sample_db) ?m (stock (snd ?p))
      \<or> fst ?p = MadeRequeued \<and> (stock (snd ?p) = stock sample_db \<or> restocked (stock sample_db) ?m (stock (snd ?p)))"
    unfolding d by (simp add: case_prod_unfold)
  moreover have "stock (snd ?p) 1 = Some 100" by code_simp
  ultimately show ?thesis using a by simp
qed

section \<open>The whole round\<close>

lemma AdjustBreadQuantity_adds:
  assumes "bread_inv s" and "faults s = []" and "stock s i = Some q" and "0 \<le> d" and "q + d \<le> 100"
  shows "\<exists>t. AdjustBreadQuantity i d s = (Inr True, t) \<and> stock t = (stock s)(i \<mapsto> q + d)"
proof -
  obtain r where r: "find (\<lambda>r. br_id r = i) (bread_t s) = Some r" "br_quantity r = q"
    using assms(3) by (auto simp: stock_def quantity_of_def)
  have q: "0 \<le> q" using stock_nonneg [OF assms(1,3)] by simp
  have "bread_row_error r = None" using r assms(1) by (auto simp: bread_inv_def dest: find_SomeD)
  then have ok: "bread_row_error (r\<lparr>br_quantity := q + d\<rparr>) = None" "is_int32 (q + d)"
    using r(2) assms(4,5) q by (auto simp: bread_row_error_None is_int32_def)
  have "is_int64 (q + d)" using ok(2) by (rule is_int32_is_int64)
  then have n: "adjust_new q d = Inr (q + d, True)"
    using q assms(4,5) by (simp add: adjust_new_def Let_def)
  have "query_row (select_quantity i) s = (Inr q, s)"
    using assms(2,3) select_quantity_eq [OF assms(1), of i] by (simp add: no_fault_simps)
  then obtain t where t: "AdjustBreadQuantity i d s = (Inr True, t)"
    using n r ok assms(2)
    by (simp add: AdjustBreadQuantity_def adjust_read_def adjust_write_def seq_apply attempt_apply no_fault_simps
        param_int4_def check_def sql_update_bread_def guarded_def update_error_def select_rows_eq [OF assms(1)])
  moreover have "stock t = (stock s)(i \<mapsto> q + d)"
    using tripleD_Inr [OF AdjustBreadQuantity_triple refl t] assms(3) n by auto
  ultimately show ?thesis by blast
qed

text \<open>
  C13: The round works when the makers have a publisher and nothing fails: the request for a bread
  of at most ten is confirmed with fifty of it, and the stock of that bread, and of no other,
  grows by fifty.
\<close>

theorem request_restocks:
  assumes "db_inv s" and "faults s = []" and "r \<in> set (bread_t s)" and "br_quantity r \<le> 10"
    and "enc_make_bread (scan_bread r) = Some j"
    and "publisher w = RabbitMQPublisher" and "op_fails w = []"
  shows "\<exists>c. confirmed (snd (processSingleMessage (Some j) w)) = confirmed w @ [c]
     \<and> fst (listenForBreadMade (Some c) s) = MadeAcked
     \<and> stock (snd (listenForBreadMade (Some c) s)) = (stock s)(br_id r \<mapsto> br_quantity r + 50)"
proof -
  let ?m = "\<lparr>made_BreadID = br_id r, made_Quantity = 50\<rparr>"
  have inv: "bread_inv s" using assms(1) by (rule db_inv_bread)
  have row: "is_int32 (br_id r)" using inv assms(3) by (auto simp: bread_inv_def bread_row_error_None)
  then have id: "is_int64 (br_id r)" by (rule is_int32_is_int64)
  have price: "f64_ok (b_Price (scan_bread r))" using assms(5)
    by (cases "br_price r"; cases "b_Price (scan_bread r)")
       (auto simp: enc_make_bread_def scan_bread_def intro: f64_ok_rnd64)
  have "processOrder (Some j) = Some ?m"
    using enc_make_bread_asks [OF assms(5)] id price by (simp add: asks_for_def scan_bread_def)
  then have 1: "confirmed (snd (processSingleMessage (Some j) w)) = confirmed w @ [enc_made ?m]"
    using assms(6,7) by (simp add: processSingleMessage_def attempt_apply publishConfirmation_def
        PublishConfirm_def ackDelivery_def maker_op_def)
  have dec: "Option.bind (Some (enc_made ?m)) dec_made = Some ?m"
    using id by (simp add: dec_made_def enc_made_def jfield_def dec_enc_int is_int64_def)
  have "distinct (map br_id (bread_t s))" using inv by (simp add: bread_inv_def)
  then have "stock s (br_id r) = Some (br_quantity r)"
    using distinct_key_find [of br_id "bread_t s" r] assms(3) by (simp add: stock_def quantity_of_def)
  then obtain t where "AdjustBreadQuantity (br_id r) 50 s = (Inr True, t)"
      "stock t = (stock s)(br_id r \<mapsto> br_quantity r + 50)"
    using AdjustBreadQuantity_adds [OF inv assms(2), of "br_id r" "br_quantity r" 50] assms(4) by auto
  then show ?thesis using 1 dec by (intro exI [of _ "enc_made ?m"]) (simp add: listenForBreadMade_def)
qed

theorem request_restocks_witness:
  "\<exists>c. confirmed (snd (processSingleMessage (enc_make_bread (scan_bread (sample_bread 2 0)))
         (NewMakersService (Some RabbitMQPublisher)))) = [c]
     \<and> stock (snd (listenForBreadMade (Some c) sample_db)) 2 = Some 50"
proof -
  have i: "db_inv sample_db" by code_simp
  have "\<not> Option.is_none (enc_make_bread (scan_bread (sample_bread 2 0)))" by code_simp
  then obtain j where j: "enc_make_bread (scan_bread (sample_bread 2 0)) = Some j"
    by (auto simp: Option.is_none_def)
  have r: "sample_bread 2 0 \<in> set (bread_t sample_db)" "br_quantity (sample_bread 2 0) = 0" "br_id (sample_bread 2 0) = 2"
    "faults sample_db = []"
    by (simp_all add: sample_db_def empty_db_def sample_bread_def)
  show ?thesis
    using request_restocks [OF i r(4) r(1) _ j, of "NewMakersService (Some RabbitMQPublisher)"] r j
    by (auto simp: NewMakersService_def)
qed

end
