(* ===== verification/Buyers.thy ===== *)
theory Buyers
  imports Replenish Bakery
begin

text \<open>
  The buyers (\<open>buyers/main.go\<close>): one buy cycle, with its goroutines and channels as a step relation,
  and the loop around it.
\<close>

section \<open>A buy cycle\<close>

text \<open>
  Where each goroutine is: \<open>runBuyCycle\<close> itself, \<open>buySomeBread\<close>, \<open>buyBreadStream\<close>, and the one that
  collects the two signals. An unbuffered channel is a joint step of the sender and the receiver.
\<close>

datatype main_pc = Signalling | Selecting | Returned "code option"

datatype buyer_pc =
    AwaitSignal | Buying | TellStream | TellDone | BuyFailed code | BuyerGone

datatype stream_pc =
    Opening | AwaitBought | Receiving | StreamDone | StreamFailed code | StreamGone

datatype collector_pc = NotStarted | AwaitBuy | AwaitStream | TellGlobal | CollectorGone

record cycle =
  main :: main_pc
  buyer_at :: buyer_pc
  stream_at :: stream_pc
  collector :: collector_pc
  errChan :: "code list"
  ctx_done :: bool
  accepted :: bool \<comment> \<open>the server has taken the order\<close>
  updates :: nat \<comment> \<open>responses received from the stream\<close>
  at_eof :: bool \<comment> \<open>the server has ended the stream\<close>

definition new_cycle :: cycle where
  "new_cycle = \<lparr>main = Signalling, buyer_at = AwaitSignal, stream_at = Opening, collector = NotStarted,
     errChan = [], ctx_done = False, accepted = False, updates = 0, at_eof = False\<rparr>"

text \<open>
  The steps. \<open>errChan\<close> holds two errors. The calls to the server (\<open>BuyBread\<close>, \<open>BuyBreadStream\<close>,
  \<open>Recv\<close>) end as the server and the network will have it; the context can be cancelled at any time.
\<close>

inductive step :: "cycle \<Rightarrow> cycle \<Rightarrow> bool" where
  signal: "main c = Signalling \<Longrightarrow> buyer_at c = AwaitSignal
    \<Longrightarrow> step c (c\<lparr>main := Selecting, buyer_at := Buying, collector := AwaitBuy\<rparr>)"
| bought: "buyer_at c = Buying \<Longrightarrow> step c (c\<lparr>buyer_at := TellStream, accepted := True\<rparr>)"
| not_bought: "buyer_at c = Buying \<Longrightarrow> step c (c\<lparr>buyer_at := BuyFailed e\<rparr>)"
| buy_error: "buyer_at c = BuyFailed e \<Longrightarrow> length (errChan c) < 2
    \<Longrightarrow> step c (c\<lparr>buyer_at := BuyerGone, errChan := errChan c @ [e]\<rparr>)"
| tell_stream: "buyer_at c = TellStream \<Longrightarrow> stream_at c = AwaitBought
    \<Longrightarrow> step c (c\<lparr>buyer_at := TellDone, stream_at := Receiving\<rparr>)"
| done_buy: "buyer_at c = TellDone \<Longrightarrow> collector c = AwaitBuy
    \<Longrightarrow> step c (c\<lparr>buyer_at := AwaitSignal, collector := AwaitStream\<rparr>)"
| opened: "stream_at c = Opening \<Longrightarrow> step c (c\<lparr>stream_at := AwaitBought\<rparr>)"
| not_opened: "stream_at c = Opening \<Longrightarrow> step c (c\<lparr>stream_at := StreamFailed e\<rparr>)"
| update: "stream_at c = Receiving \<Longrightarrow> step c (c\<lparr>updates := Suc (updates c)\<rparr>)"
| eof: "stream_at c = Receiving \<Longrightarrow> step c (c\<lparr>stream_at := StreamDone, at_eof := True\<rparr>)"
| recv_error: "stream_at c = Receiving \<Longrightarrow> step c (c\<lparr>stream_at := StreamFailed e\<rparr>)"
| stream_error: "stream_at c = StreamFailed e \<Longrightarrow> length (errChan c) < 2
    \<Longrightarrow> step c (c\<lparr>stream_at := StreamGone, errChan := errChan c @ [e]\<rparr>)"
| stream_cancelled: "stream_at c = AwaitBought \<Longrightarrow> ctx_done c \<Longrightarrow> step c (c\<lparr>stream_at := StreamGone\<rparr>)"
| done_stream: "stream_at c = StreamDone \<Longrightarrow> collector c = AwaitStream
    \<Longrightarrow> step c (c\<lparr>stream_at := StreamGone, collector := TellGlobal\<rparr>)"
| global_done: "main c = Selecting \<Longrightarrow> collector c = TellGlobal
    \<Longrightarrow> step c (c\<lparr>main := Returned None, collector := CollectorGone\<rparr>)"
| failed: "main c = Selecting \<Longrightarrow> errChan c = e # es \<Longrightarrow> step c (c\<lparr>main := Returned (Some e), errChan := es\<rparr>)"
| cancelled: "main c = Selecting \<Longrightarrow> ctx_done c \<Longrightarrow> step c (c\<lparr>main := Returned (Some Canceled)\<rparr>)"
| cancel: "step c (c\<lparr>ctx_done := True\<rparr>)"

inductive_cases stepE: "step c c'"

section \<open>The loop\<close>

text \<open>
  \<open>main\<close>: what it does between cycles that end as given; 35 seconds unless configured, and nothing
  after a failure.
\<close>

datatype pause = Cycle | Sleep int

fun buyers_main :: "int \<Rightarrow> code option list \<Rightarrow> pause list" where
  "buyers_main cycleDelay [] = []"
| "buyers_main cycleDelay (None # rest) =
     Cycle # Sleep (if cycleDelay = 0 then 35000000000 else cycleDelay) # buyers_main cycleDelay rest"
| "buyers_main cycleDelay (Some err # rest) = Cycle # buyers_main cycleDelay rest"

section \<open>What is bought\<close>

definition wanted :: "int \<Rightarrow> string \<Rightarrow> int \<Rightarrow> int \<Rightarrow> string \<Rightarrow> string \<Rightarrow> string \<Rightarrow> pbBread" where
  "wanted i name quantity cents desc kind img =
     \<lparr>bd_Id = i, bd_Name = name, bd_Price = price_of cents, bd_Quantity = quantity,
      bd_Description = desc, bd_Type = kind, bd_Status = ''available'', bd_CreatedAt = None,
      bd_UpdatedAt = None, bd_Image = img\<rparr>"

definition shopping_list :: "pbBread list" where
  "shopping_list =
     [wanted 4 ''Pretzel'' 3 249 ''Pretzel, a classic bakery bread with a salty taste'' ''Salty Bread''
        ''https://cdn.pixabay.com/photo/2017/09/05/17/18/pretzel-2718477_1280.jpg'',
      wanted 3 ''Baguette'' 2 149 ''Baguette, a classic bakery bread with a long shape'' ''French Bread''
        ''https://cdn.pixabay.com/photo/2017/06/23/23/57/bread-2436370_1280.jpg'',
      wanted 1 ''Cinnamon Roll'' 4 299 ''Cinnamon Roll, a classic bakery bread with cinnamon and sugar'' ''Sweet Bread''
        ''https://cdn.pixabay.com/photo/2019/12/25/17/55/cinnamon-roll-4719023_1280.jpg'',
      wanted 6 ''Croissant'' 3 119 ''Croissant, a classic bakery bread with a buttery taste'' ''Buttery Bread''
        ''https://cdn.pixabay.com/photo/2012/02/29/12/17/bread-18987_1280.jpg'',
      wanted 7 ''Brioche'' 4 159 ''Brioche, a classic bakery bread with a sweet taste'' ''Sweet Bread''
        ''https://cdn.pixabay.com/photo/2017/09/05/17/18/pretzel-2718477_1280.jpg'',
      wanted 5 ''Bolillo'' 3 79 ''Bolillo, a classic bakery bread with a soft texture'' ''Soft Bread''
        ''https://cdn.pixabay.com/photo/2019/02/07/21/19/bobbin-lace-3982200_1280.jpg'',
      wanted 2 ''Sourdough Bread'' 1 199 ''Sourdough Bread, a classic bakery bread with a sour taste'' ''Sour Bread''
        ''https://cdn.pixabay.com/photo/2020/11/28/12/25/bread-5784572_1280.jpg'']"

definition buy_request :: "string \<Rightarrow> BreadRequest" where
  "buy_request buyOrderUuid = \<lparr>req_Breads = shopping_list, req_BuyOrderUuid = buyOrderUuid, Preferences = None\<rparr>"

text \<open>The ids are those the first breads of a new bakery get, by their place.\<close>

lemma shopping_list_first_breads:
  "list_all (\<lambda>b. b_Name (first_breads ! nat (bd_Id b - 1)) = bd_Name b
     \<and> b_Description (first_breads ! nat (bd_Id b - 1)) = bd_Description b
     \<and> b_Type (first_breads ! nat (bd_Id b - 1)) = bd_Type b
     \<and> b_Price (first_breads ! nat (bd_Id b - 1)) = bd_Price b) shopping_list"
  by (simp add: shopping_list_def wanted_def first_breads_def first_bread_def)

section \<open>The states of a cycle\<close>

text \<open>
  What the other goroutines have done when the collector is where it is: it follows the buyer, then
  the stream. The buyer comes back to wait for a second signal.
\<close>

definition not_yet_bought :: "cycle \<Rightarrow> bool" where
  "not_yet_bought c \<longleftrightarrow> stream_at c \<notin> {Receiving, StreamDone} \<and> \<not> at_eof c"

definition told :: "cycle \<Rightarrow> bool" where
  "told c \<longleftrightarrow> accepted c \<and> stream_at c \<notin> {Opening, AwaitBought} \<and> (at_eof c \<longleftrightarrow> stream_at c = StreamDone)"

definition streamed :: "cycle \<Rightarrow> bool" where
  "streamed c \<longleftrightarrow> buyer_at c = AwaitSignal \<and> accepted c \<and> stream_at c = StreamGone \<and> at_eof c"

definition cycle_ok :: "cycle \<Rightarrow> bool" where
  "cycle_ok c \<longleftrightarrow> (case collector c of
     NotStarted \<Rightarrow> main c = Signalling \<and> buyer_at c = AwaitSignal \<and> not_yet_bought c
   | AwaitBuy \<Rightarrow> main c \<notin> {Signalling, Returned None}
       \<and> (case buyer_at c of
            AwaitSignal \<Rightarrow> False
          | TellStream \<Rightarrow> accepted c \<and> not_yet_bought c
          | TellDone \<Rightarrow> told c
          | _ \<Rightarrow> not_yet_bought c)
   | AwaitStream \<Rightarrow> main c \<notin> {Signalling, Returned None} \<and> buyer_at c = AwaitSignal \<and> told c
   | TellGlobal \<Rightarrow> main c \<notin> {Signalling, Returned None} \<and> streamed c
   | CollectorGone \<Rightarrow> main c = Returned None \<and> streamed c)"

text \<open>
  Each goroutine reports one error at most, and until the cycle has returned an error that was
  reported is still there.
\<close>

definition errors_ok :: "cycle \<Rightarrow> bool" where
  "errors_ok c \<longleftrightarrow> length (errChan c) + (if buyer_at c = BuyerGone then 0 else 1)
       + (if stream_at c = StreamGone then 0 else 1) \<le> 2
     \<and> (main c \<in> {Signalling, Selecting} \<longrightarrow> buyer_at c = BuyerGone \<longrightarrow> errChan c \<noteq> [])
     \<and> (main c \<in> {Signalling, Selecting} \<longrightarrow> stream_at c = StreamGone \<longrightarrow> at_eof c \<or> ctx_done c \<or> errChan c \<noteq> [])
     \<and> (stream_at c = StreamDone \<longrightarrow> at_eof c)"

lemmas cycle_ok_defs = cycle_ok_def not_yet_bought_def told_def streamed_def

lemma step_ok: "step c c' \<Longrightarrow> cycle_ok c \<Longrightarrow> cycle_ok c'"
  by (erule stepE) (auto simp: cycle_ok_defs split: collector_pc.splits buyer_pc.splits)

lemma step_errors_ok: "step c c' \<Longrightarrow> errors_ok c \<Longrightarrow> errors_ok c'"
  by (erule stepE) (auto simp: errors_ok_def split: if_splits)

definition reachable_cycle :: "cycle \<Rightarrow> bool" where
  "reachable_cycle = step\<^sup>*\<^sup>* new_cycle"

lemma reachable_ok:
  assumes "reachable_cycle c"
  shows "cycle_ok c" and "errors_ok c"
proof -
  have "cycle_ok new_cycle \<and> errors_ok new_cycle"
    by (simp add: new_cycle_def cycle_ok_def not_yet_bought_def errors_ok_def)
  with assms [unfolded reachable_cycle_def] have "cycle_ok c \<and> errors_ok c"
    by (induction rule: rtranclp_induct) (use step_ok step_errors_ok in blast)+
  then show "cycle_ok c" and "errors_ok c" by simp_all
qed

section \<open>A cycle returns\<close>

text \<open>How many steps a cycle has left at most, updates and a cancellation aside.\<close>

definition cycle_left :: "cycle \<Rightarrow> nat" where
  "cycle_left c =
     (case main c of Signalling \<Rightarrow> 8 | Selecting \<Rightarrow> 1 | Returned r \<Rightarrow> 0)
     + (case buyer_at c of Buying \<Rightarrow> 3 | TellStream \<Rightarrow> 2 | TellDone \<Rightarrow> 1 | BuyFailed e \<Rightarrow> 1 | AwaitSignal \<Rightarrow> 0 | BuyerGone \<Rightarrow> 0)
     + (case stream_at c of Opening \<Rightarrow> 4 | AwaitBought \<Rightarrow> 3 | Receiving \<Rightarrow> 2 | StreamDone \<Rightarrow> 1 | StreamFailed e \<Rightarrow> 1 | StreamGone \<Rightarrow> 0)
     + (case collector c of NotStarted \<Rightarrow> 0 | AwaitBuy \<Rightarrow> 3 | AwaitStream \<Rightarrow> 2 | TellGlobal \<Rightarrow> 1 | CollectorGone \<Rightarrow> 0)"

lemma step_left:
  "step c c' \<Longrightarrow> cycle_left c' < cycle_left c \<or> c' = c\<lparr>updates := Suc (updates c)\<rparr> \<or> c' = c\<lparr>ctx_done := True\<rparr>"
  by (erule stepE) (auto simp: cycle_left_def split: collector_pc.split)

definition moves :: "cycle \<Rightarrow> bool" where
  "moves c \<longleftrightarrow> (\<exists>c'. step c c' \<and> cycle_left c' < cycle_left c)"

lemma movesI: "step c c' \<Longrightarrow> cycle_left c' < cycle_left c \<Longrightarrow> moves c"
  unfolding moves_def by blast

lemma moves_main:
  "main c = Selecting \<Longrightarrow> errChan c \<noteq> [] \<or> ctx_done c \<Longrightarrow> moves c"
  "main c = Selecting \<Longrightarrow> collector c = TellGlobal \<Longrightarrow> moves c"
  "main c = Signalling \<Longrightarrow> buyer_at c = AwaitSignal \<Longrightarrow> collector c = NotStarted \<Longrightarrow> moves c"
  by (auto intro: movesI [OF failed] movesI [OF cancelled] movesI [OF global_done] movesI [OF signal]
      simp: cycle_left_def neq_Nil_conv)

lemma moves_stream:
  "errors_ok c \<Longrightarrow> stream_at c \<in> {Opening, Receiving} \<or> (\<exists>e. stream_at c = StreamFailed e) \<Longrightarrow> moves c"
  by (auto intro: movesI [OF opened] movesI [OF eof] movesI [OF stream_error] simp: cycle_left_def errors_ok_def
      split: if_splits)

lemma moves_buyer:
  "errors_ok c \<Longrightarrow> buyer_at c = Buying \<or> (\<exists>e. buyer_at c = BuyFailed e)
     \<or> buyer_at c = TellStream \<and> stream_at c = AwaitBought
     \<or> buyer_at c = TellDone \<and> collector c = AwaitBuy \<Longrightarrow> moves c"
  by (auto intro: movesI [OF bought] movesI [OF buy_error] movesI [OF tell_stream] movesI [OF done_buy]
      simp: cycle_left_def errors_ok_def split: if_splits)

lemma cycle_not_stuck:
  assumes ok: "cycle_ok c" and errs: "errors_ok c" and "\<nexists>r. main c = Returned r"
  shows "moves c"
proof (cases "main c")
  case Signalling
  then show ?thesis using ok moves_main(3) [of c] by (auto simp: cycle_ok_def split: collector_pc.splits)
next
  case Selecting
  have streams: "moves c" if "stream_at c \<notin> {AwaitBought, StreamDone}" "\<not> at_eof c"
    using that moves_stream [OF errs] moves_main(1) [OF Selecting] errs Selecting
    by (cases "stream_at c") (auto simp: errors_ok_def)
  show ?thesis
  proof (cases "collector c")
    case AwaitBuy
    then show ?thesis
      using ok streams moves_buyer [OF errs] moves_main(1) [OF Selecting] errs Selecting
      by (cases "buyer_at c"; cases "stream_at c") (auto simp: cycle_ok_defs errors_ok_def)
  next
    case AwaitStream
    show ?thesis
    proof (cases "stream_at c = StreamDone")
      case True
      then show ?thesis using AwaitStream by (intro movesI [OF done_stream]) (simp_all add: cycle_left_def)
    next
      case False
      then show ?thesis using AwaitStream ok streams by (auto simp: cycle_ok_defs)
    qed
  next
    case TellGlobal
    then show ?thesis using moves_main(2) Selecting by blast
  qed (use ok Selecting in \<open>auto simp: cycle_ok_def\<close>)
qed (use assms(3) in blast)

text \<open>
  C33: A buy cycle returns: whatever the server answers and in whichever order the goroutines run, a
  cycle that has not returned can take a step other than receiving one more update, and of those
  steps, a cancellation aside, there are at most twelve; none of its goroutines ever waits to report
  an error.
\<close>

theorem buy_cycle_returns:
  assumes "reachable_cycle c"
  shows "((\<exists>r. main c = Returned r) \<or> (\<exists>c'. step c c' \<and> cycle_left c' < cycle_left c))
    \<and> (\<forall>c'. step c c' \<longrightarrow> cycle_left c' < cycle_left c
         \<or> c' = c\<lparr>updates := Suc (updates c)\<rparr> \<or> c' = c\<lparr>ctx_done := True\<rparr>)
    \<and> cycle_left new_cycle = 12
    \<and> ((\<exists>e. buyer_at c = BuyFailed e) \<or> (\<exists>e. stream_at c = StreamFailed e) \<longrightarrow> length (errChan c) < 2)"
proof (intro conjI)
  note ok = reachable_ok [OF assms]
  show "(\<exists>r. main c = Returned r) \<or> (\<exists>c'. step c c' \<and> cycle_left c' < cycle_left c)"
    using cycle_not_stuck [OF ok] by (auto simp: moves_def)
  show "(\<exists>e. buyer_at c = BuyFailed e) \<or> (\<exists>e. stream_at c = StreamFailed e) \<longrightarrow> length (errChan c) < 2"
    using ok(2) by (auto simp: errors_ok_def split: if_splits)
qed (use step_left in \<open>simp_all add: cycle_left_def new_cycle_def\<close>)

theorem buy_cycle_returns_witness: "\<exists>c'. step new_cycle c' \<and> cycle_left c' < 12"
proof -
  have "reachable_cycle new_cycle" by (simp add: reachable_cycle_def)
  from buy_cycle_returns [OF this] have "(\<exists>c'. step new_cycle c' \<and> cycle_left c' < cycle_left new_cycle)
      \<and> cycle_left new_cycle = 12" by (auto simp: new_cycle_def)
  then show ?thesis by (elim conjE) (simp only:)
qed

section \<open>What a cycle leaves behind\<close>

text \<open>A run of a successful cycle: every call is answered, and one update comes.\<close>

definition bought_cycle :: cycle where
  "bought_cycle = new_cycle\<lparr>main := Returned None, stream_at := StreamGone, collector := CollectorGone,
     accepted := True, updates := 1, at_eof := True\<rparr>"

lemma reachable_step: "reachable_cycle c \<Longrightarrow> step c c' \<Longrightarrow> reachable_cycle c'"
  unfolding reachable_cycle_def by (rule rtranclp.rtrancl_into_rtrancl)

lemma bought_cycle_reachable: "reachable_cycle bought_cycle"
proof -
  let ?c0 = new_cycle
  let ?c1 = "?c0\<lparr>main := Selecting, buyer_at := Buying, collector := AwaitBuy\<rparr>"
  let ?c2 = "?c1\<lparr>stream_at := AwaitBought\<rparr>"
  let ?c3 = "?c2\<lparr>buyer_at := TellStream, accepted := True\<rparr>"
  let ?c4 = "?c3\<lparr>buyer_at := TellDone, stream_at := Receiving\<rparr>"
  let ?c5 = "?c4\<lparr>updates := Suc (updates ?c4)\<rparr>"
  let ?c6 = "?c5\<lparr>buyer_at := AwaitSignal, collector := AwaitStream\<rparr>"
  let ?c7 = "?c6\<lparr>stream_at := StreamDone, at_eof := True\<rparr>"
  let ?c8 = "?c7\<lparr>stream_at := StreamGone, collector := TellGlobal\<rparr>"
  let ?c9 = "?c8\<lparr>main := Returned None, collector := CollectorGone\<rparr>"
  have s: "step ?c0 ?c1" "step ?c1 ?c2" "step ?c2 ?c3" "step ?c3 ?c4" "step ?c4 ?c5" "step ?c5 ?c6" "step ?c6 ?c7"
      "step ?c7 ?c8" "step ?c8 ?c9"
    by (rule signal opened bought tell_stream update done_buy eof done_stream global_done; simp add: new_cycle_def)+
  have "reachable_cycle new_cycle" by (simp add: reachable_cycle_def)
  note reachable_step [OF this s(1)]
  note reachable_step [OF this s(2)]
  note reachable_step [OF this s(3)]
  note reachable_step [OF this s(4)]
  note reachable_step [OF this s(5)]
  note reachable_step [OF this s(6)]
  note reachable_step [OF this s(7)]
  note reachable_step [OF this s(8)]
  note reachable_step [OF this s(9)]
  then show ?thesis by (simp add: bought_cycle_def new_cycle_def)
qed

lemma steps_ok: "step\<^sup>*\<^sup>* c c' \<Longrightarrow> reachable_cycle c \<Longrightarrow> reachable_cycle c'"
  unfolding reachable_cycle_def by (rule rtranclp_trans)

lemma returned_stays: "step\<^sup>*\<^sup>* c c' \<Longrightarrow> main c = Returned r \<Longrightarrow> main c' = Returned r"
  by (induction rule: rtranclp_induct) (auto elim!: stepE)

text \<open>
  A cycle that reports success has had its order taken by the server and has seen the stream's
  end. But every cycle leaves a goroutine behind for good, whatever happens after it has returned, its
  context cancelled or not: a successful one \<open>buySomeBread\<close>, which waits for a signal that nobody
  will send, any other one the collector.
\<close>

theorem cycle_leaks_goroutine:
  assumes "reachable_cycle c" and "main c = Returned r" and "step\<^sup>*\<^sup>* c c'"
  shows "case r of
      None \<Rightarrow> accepted c \<and> at_eof c \<and> buyer_at c' = AwaitSignal
    | Some e \<Rightarrow> collector c' \<in> {AwaitBuy, AwaitStream, TellGlobal}"
proof -
  have r': "main c' = Returned r" using returned_stays [OF assms(3,2)] .
  have ok: "cycle_ok c" "cycle_ok c'" using reachable_ok(1) steps_ok assms(1,3) by blast+
  show ?thesis
  proof (cases r)
    case None
    then show ?thesis using ok r' assms(2)
      by (auto simp: cycle_ok_def streamed_def split: collector_pc.splits buyer_pc.splits)
  next
    case (Some e)
    then show ?thesis using ok(2) r' by (cases "collector c'") (auto simp: cycle_ok_def)
  qed
qed

theorem cycle_leaks_goroutine_witness:
  "accepted bought_cycle \<and> at_eof bought_cycle \<and> buyer_at (bought_cycle\<lparr>ctx_done := True\<rparr>) = AwaitSignal"
proof -
  have "main bought_cycle = Returned None" by (simp add: bought_cycle_def)
  moreover have "step\<^sup>*\<^sup>* bought_cycle (bought_cycle\<lparr>ctx_done := True\<rparr>)" by (rule r_into_rtranclp, rule cancel)
  ultimately show ?thesis using cycle_leaks_goroutine [OF bought_cycle_reachable] by fastforce
qed

end
