(* ===== verification/BrokerServer.thy ===== *)
theory BrokerServer
  imports Database Messages
begin

text \<open>
  \<open>server/broker_service.go\<close>: the gRPC methods through which the broker reaches the
  database. The repository is set in every server the code builds, so that the branches for a
  missing repository do not appear.
\<close>

definition ReportOrder :: "pbBuyOrder \<Rightarrow> (db, code, BrokerOrderResult) proc" where
  "ReportOrder req =
     attempt (GetBuyOrderByUUID (pb_BuyOrderUuid req))
       (\<lambda>err. attempt (InsertBuyOrder (protoToDataBuyOrder req) (protoToDataBreads (pb_Items req)))
          (\<lambda>e. fail Internal)
          (\<lambda>buyOrderID. ret \<lparr>Accepted = True, OrderId = int32 buyOrderID, Message = ''accepted''\<rparr>))
       (\<lambda>_. ret \<lparr>Accepted = False, OrderId = 0, Message = ''duplicate''\<rparr>)"

definition ReserveInventory :: "ReserveInventoryRequest \<Rightarrow> (db, code, ReserveInventoryResult) proc" where
  "ReserveInventory req =
     attempt (FulfillOrderItem (rq_BreadId req) (rq_QuantityRequested req))
       (\<lambda>err. ret \<lparr>Reserved = False, rs_QuantityFulfilled = 0, rs_Message = ''insufficient_stock''\<rparr>)
       (\<lambda>fulfilled. ret \<lparr>Reserved = True, rs_QuantityFulfilled = int32 fulfilled, rs_Message = ''reserved''\<rparr>)"

definition insert_payload :: "json \<Rightarrow> unit repo" where
  "insert_payload j = stmt
     (seq (nextval OutboxSeq) (\<lambda>i.
      seq (query now) (\<lambda>t.
        let r = \<lparr>ob_id = i, ob_payload = j, ob_sent = False, ob_created_at = t\<rparr>
        in guarded (insert_outbox_error r) (\<lambda>s. s\<lparr>outbox_t := outbox_t s @ [r]\<rparr>))))"

definition report_result :: "MatchingBatchResult \<Rightarrow> (db, code, unit) proc" where
  "report_result result =
     attempt (stmt (sql_update_order (\<lambda>r. bo_uuid r = mr_BuyOrderUuid result)
                (\<lambda>r. r\<lparr>bo_status := mr_OrderStatus result\<rparr>)))
       (\<lambda>err. fail Internal)
       (\<lambda>_. attempt (insert_payload (matchingResultToPayload result)) (\<lambda>err. fail Internal) ret)"

definition ReportMatchingResults :: "MatchingBatchResult list \<Rightarrow> (db, code, BatchConfirmation) proc" where
  "ReportMatchingResults results =
     attempt (transaction (\<lambda>e. Internal) (\<lambda>e. Internal) (for_each (\<lambda>r _. report_result r) results ()))
       fail
       (\<lambda>_. ret \<lparr>bc_Accepted = True, OrdersProcessed = int32 (int (length results)), bc_Message = ''accepted''\<rparr>)"

section \<open>The invariant\<close>

lemma keeps_ReportOrder: "keeps db_inv (ReportOrder req)"
  unfolding ReportOrder_def by (intro keeps_intros keeps_orders)

lemma keeps_ReserveInventory: "keeps db_inv (ReserveInventory req)"
  unfolding ReserveInventory_def by (intro keeps_intros keeps_inventory)

lemma keeps_insert_payload: "keeps db_inv (insert_payload j)"
  unfolding insert_payload_def Let_def by (intro keeps_intros insert_inv) simp_all

lemma keeps_ReportMatchingResults: "keeps db_inv (ReportMatchingResults rs)"
  unfolding ReportMatchingResults_def report_result_def
  by (intro keeps_intros keeps_insert_payload keeps_sql_update_order) simp_all

section \<open>ReserveInventory\<close>

lemma int32_min: "0 \<le> q \<Longrightarrow> is_int32 q \<Longrightarrow> 0 < min q n \<Longrightarrow> int32 (min q n) = min q n"
  by (intro int32_id) (auto simp: is_int32_def min_def split: if_splits)

lemma int32_reserved:
  assumes "bread_inv s" and "reserved (stock s) i n m st'"
  shows "int32 m = m"
  using assms(2) stock_nonneg [OF assms(1)] by (auto simp: reserved_def simp del: int32_id intro!: int32_min)

lemma ReserveInventory_cases:
  assumes "bread_inv s" and "ReserveInventory req s = (r, t)"
  shows "\<exists>res. r = Inr res \<and>
    (if Reserved res
     then reserved (stock s) (rq_BreadId req) (rq_QuantityRequested req) (rs_QuantityFulfilled res) (stock t)
     else rs_QuantityFulfilled res = 0 \<and>
       (stock t = stock s \<or> (\<exists>m. reserved (stock s) (rq_BreadId req) (rq_QuantityRequested req) m (stock t))))"
proof -
  let ?i = "rq_BreadId req" and ?n = "rq_QuantityRequested req"
  have item: "case FulfillOrderItem ?i ?n s of
      (Inr m, t) \<Rightarrow> reserved (stock s) ?i ?n m (stock t)
    | (Inl e, t) \<Rightarrow> stock t = stock s \<or> e = Wrapped ''commit'' DriverError \<and> (\<exists>m. reserved (stock s) ?i ?n m (stock t))"
    by (rule tripleD [OF FulfillOrderItem_triple]) simp
  show ?thesis
    using item assms(2) int32_reserved [OF assms(1)]
    by (auto simp: ReserveInventory_def attempt_apply split: prod.splits sum.splits)
qed

lemma ReserveInventory_no_fault:
  assumes "db_inv s" and "faults s = []"
  shows "\<exists>t. faults t = [] \<and> ReserveInventory req s =
    (Inr (case stock s (rq_BreadId req) of
       None \<Rightarrow> \<lparr>Reserved = False, rs_QuantityFulfilled = 0, rs_Message = ''insufficient_stock''\<rparr>
     | Some q \<Rightarrow> if min q (rq_QuantityRequested req) \<le> 0
         then \<lparr>Reserved = False, rs_QuantityFulfilled = 0, rs_Message = ''insufficient_stock''\<rparr>
         else \<lparr>Reserved = True, rs_QuantityFulfilled = min q (rq_QuantityRequested req), rs_Message = ''reserved''\<rparr>), t)"
proof -
  let ?i = "rq_BreadId req" and ?n = "rq_QuantityRequested req"
  note inv = db_inv_bread [OF assms(1)]
  obtain u where item: "fulfill_item ?i ?n s =
    (case stock s ?i of
       None \<Rightarrow> Inl (Wrapped ''lock bread'' ErrNoRows)
     | Some q \<Rightarrow> if min q ?n \<le> 0 then Inl ErrInsufficientStock else Inr (min q ?n), u)" "faults u = []"
    using fulfill_item_result [OF inv assms(2)] by blast
  have small: "int32 (min q ?n) = min q ?n" if "stock s ?i = Some q" "0 < min q ?n" for q
    using stock_nonneg [OF inv that(1)] that(2) by (intro int32_min) auto
  show ?thesis
  proof (cases "stock s ?i")
    case None
    then show ?thesis
      using item assms(2)
      by (simp add: ReserveInventory_def FulfillOrderItem_def attempt_apply transaction_no_fault)
  next
    case (Some q)
    then show ?thesis
      using item assms(2) small [OF Some]
      by (cases "min q ?n \<le> 0")
        (simp_all add: ReserveInventory_def FulfillOrderItem_def attempt_apply transaction_no_fault not_le
          del: min_less_iff_conj)
  qed
qed

lemma ReserveInventory_refused_stock:
  assumes "db_inv s" and "faults s = []" and "ReserveInventory req s = (Inr res, t)" and "\<not> Reserved res"
  shows "stock t = stock s"
proof -
  let ?i = "rq_BreadId req" and ?n = "rq_QuantityRequested req"
  have "case FulfillOrderItem ?i ?n s of
      (Inr m, t) \<Rightarrow> reserved (stock s) ?i ?n m (stock t)
    | (Inl e, t) \<Rightarrow> stock t = stock s \<or> e = Wrapped ''commit'' DriverError \<and> (\<exists>m. reserved (stock s) ?i ?n m (stock t))"
    by (rule tripleD [OF FulfillOrderItem_triple]) simp
  moreover have "fst (FulfillOrderItem ?i ?n s) \<noteq> Inl (Wrapped ''commit'' DriverError)"
    by (simp add: FulfillOrderItem_result [OF db_inv_bread [OF assms(1)] assms(2)] split: option.split)
  ultimately show ?thesis
    using assms(3,4) by (auto simp: ReserveInventory_def attempt_apply split: prod.splits sum.splits)
qed

section \<open>ReportOrder\<close>

lemma load_existing:
  assumes "faults s = []" and "u \<in> bo_uuid ` set (buy_order_t s)"
  shows "\<exists>ord. GetBuyOrderByUUID u s = (Inr ord, s)"
proof -
  have "filter (\<lambda>r. bo_uuid r = u) (buy_order_t s) \<noteq> []"
    using assms(2) by (auto simp: filter_empty_conv)
  then obtain r rs where "filter (\<lambda>r. bo_uuid r = u) (buy_order_t s) = r # rs"
    by (cases "filter (\<lambda>r. bo_uuid r = u) (buy_order_t s)") auto
  then show ?thesis
    using assms(1) by (simp add: GetBuyOrderByUUID_def load_order_def seq_apply no_fault_simps)
qed

lemma GetBuyOrderByUUID_orders:
  "buy_order_t (snd (GetBuyOrderByUUID u s)) = buy_order_t s"
proof -
  have "keeps (\<lambda>x. buy_order_t x = buy_order_t s) (GetBuyOrderByUUID u)"
    unfolding GetBuyOrderByUUID_def load_order_def by (intro keeps_intros) (simp_all add: table_pred_def)
  then show ?thesis by (rule keepsD) simp
qed

lemma ReportOrder_processing:
  assumes "ReportOrder req s = (Inr r, t)" and "Accepted r"
  shows "\<exists>x \<in> set (buy_order_t t). bo_uuid x = pb_BuyOrderUuid req \<and> bo_status x = ''processing''"
proof -
  obtain e s1 where s1: "GetBuyOrderByUUID (pb_BuyOrderUuid req) s = (Inl e, s1)"
    using assms by (auto simp: ReportOrder_def attempt_apply split: prod.splits sum.splits)
  with assms obtain i where "InsertBuyOrder (protoToDataBuyOrder req) (protoToDataBreads (pb_Items req)) s1 = (Inr i, t)"
    by (auto simp: ReportOrder_def attempt_apply split: prod.splits sum.splits)
  from InsertBuyOrder_stores [OF this] show ?thesis
    by (simp add: order_added_def protoToDataBuyOrder_def)
qed

lemma ReportOrder_stored:
  "ReportOrder req s = (Inr r, t) \<Longrightarrow> Accepted r \<Longrightarrow> pb_BuyOrderUuid req \<in> bo_uuid ` set (buy_order_t t)"
  using ReportOrder_processing by force

text \<open>An order whose UUID is stored cannot be stored again, whatever fails.\<close>

lemma InsertBuyOrder_same_uuid:
  assumes "db_inv s" and "o_BuyOrderUUID order \<in> bo_uuid ` set (buy_order_t s)"
    and "InsertBuyOrder order breads s = (x, t)"
  shows "(\<exists>e. x = Inl e) \<and> buy_order_t t = buy_order_t s \<and> order_details_t t = order_details_t s"
proof -
  have "db_inv t" using keepsD [OF keeps_InsertBuyOrder assms(1), of order breads] assms(3) by simp
  then have d: "distinct (map bo_uuid (buy_order_t t))" by (simp add: db_inv_def orders_inv_def)
  have never: "\<not> order_added order (to_numeric s) (buy_order_t s) (order_details_t s) i breads t" for i
    using d assms(2) by (auto simp: order_added_def)
  show ?thesis
    using tripleD [OF InsertBuyOrder_triple, of s "buy_order_t s" "order_details_t s" "to_numeric s" order breads]
      assms(3) never by (auto split: sum.splits)
qed

lemma order_tables_GetBuyOrderByUUID:
  assumes "GetBuyOrderByUUID u s = (x, t)"
  shows "buy_order_t t = buy_order_t s \<and> order_details_t t = order_details_t s \<and> (db_inv s \<longrightarrow> db_inv t)"
proof -
  have "keeps (\<lambda>x. buy_order_t x = buy_order_t s \<and> order_details_t x = order_details_t s) (GetBuyOrderByUUID u)"
    unfolding GetBuyOrderByUUID_def load_order_def by (intro keeps_intros) (simp_all add: table_pred_def)
  from keepsD [OF this, of s] show ?thesis using assms keepsD [OF keeps_GetBuyOrderByUUID, of s u] by auto
qed

text \<open>
  C7: A UUID is accepted once: once \<open>ReportOrder\<close> has accepted an order, then in every database that any
  further operations lead to, under any faults, a report with the same UUID (a redelivery) is not accepted
  and leaves the orders and their details as they are; and when the database answers it is a
  duplicate. (When the lookup fails the answer is an error, and the report comes again.)
\<close>

theorem ReportOrder_dedup:
  assumes "db_inv s" and "ReportOrder req s = (Inr r, t)" and "Accepted r" and "db_step\<^sup>*\<^sup>* t u"
    and "pb_BuyOrderUuid req' = pb_BuyOrderUuid req" and "ReportOrder req' u = (x, v)"
  shows "(\<forall>res. x = Inr res \<longrightarrow> \<not> Accepted res)
    \<and> buy_order_t v = buy_order_t u \<and> order_details_t v = order_details_t u
    \<and> (faults u = [] \<longrightarrow> x = Inr \<lparr>Accepted = False, OrderId = 0, Message = ''duplicate''\<rparr> \<and> v = u)"
proof -
  let ?uuid = "pb_BuyOrderUuid req'"
  have "db_inv t" using keepsD [OF keeps_ReportOrder assms(1), of req] assms(2) by simp
  then have u: "db_inv u" "?uuid \<in> bo_uuid ` set (buy_order_t u)"
    using db_steps_inv [OF assms(4)] kept_uuid [OF db_steps_kept [OF assms(4)] ReportOrder_stored [OF assms(2,3)]] assms(5)
    by simp_all
  have "x = Inr \<lparr>Accepted = False, OrderId = 0, Message = ''duplicate''\<rparr> \<and> v = u" if "faults u = []"
    using load_existing [OF that u(2)] assms(6) by (auto simp: ReportOrder_def attempt_apply)
  moreover obtain g u1 where look: "GetBuyOrderByUUID ?uuid u = (g, u1)" by (rule prod.exhaust)
  note same = order_tables_GetBuyOrderByUUID [OF look]
  have "(\<forall>res. x = Inr res \<longrightarrow> \<not> Accepted res) \<and> buy_order_t v = buy_order_t u \<and> order_details_t v = order_details_t u"
  proof (cases g)
    case (Inr ord)
    then show ?thesis using assms(6) look same by (auto simp: ReportOrder_def attempt_apply)
  next
    case (Inl e)
    obtain y u2 where ins: "InsertBuyOrder (protoToDataBuyOrder req') (protoToDataBreads (pb_Items req')) u1 = (y, u2)"
      by (rule prod.exhaust)
    have "o_BuyOrderUUID (protoToDataBuyOrder req') \<in> bo_uuid ` set (buy_order_t u1)"
      using u(2) same by (simp add: protoToDataBuyOrder_def)
    then show ?thesis using InsertBuyOrder_same_uuid [OF _ _ ins] u(1) same Inl look ins assms(6)
      by (auto simp: ReportOrder_def attempt_apply)
  qed
  ultimately show ?thesis by simp
qed

definition sample_req :: pbBuyOrder where
  "sample_req = dataToProtoBuyOrder sample_order"

lemma sample_reported:
  "ReportOrder sample_req sample_db = (Inr \<lparr>Accepted = True, OrderId = 1, Message = ''accepted''\<rparr>, snd (ReportOrder sample_req sample_db))"
  by (rule result_eq) code_simp

theorem ReportOrder_dedup_witness:
  "ReportOrder sample_req (snd (ReportOrder sample_req sample_db)) =
     (Inr \<lparr>Accepted = False, OrderId = 0, Message = ''duplicate''\<rparr>, snd (ReportOrder sample_req sample_db))"
proof -
  let ?t = "snd (ReportOrder sample_req sample_db)"
  have "faults ?t = []" by code_simp
  moreover obtain x v where xv: "ReportOrder sample_req ?t = (x, v)" by (rule prod.exhaust)
  ultimately show ?thesis
    using ReportOrder_dedup [OF sample_db_inv sample_reported _ rtranclp.rtrancl_refl refl xv] by simp
qed

section \<open>ReportMatchingResults\<close>

text \<open>The statuses after the results of a batch, in order, and the outbox with their payloads.\<close>

definition set_status :: "MatchingBatchResult \<Rightarrow> buy_order_row list \<Rightarrow> buy_order_row list" where
  "set_status m = update_where (\<lambda>r. bo_uuid r = mr_BuyOrderUuid m) (\<lambda>r. r\<lparr>bo_status := mr_OrderStatus m\<rparr>)"

definition batch_done :: "buy_order_row list \<Rightarrow> outbox_row list \<Rightarrow> MatchingBatchResult list \<Rightarrow> db \<Rightarrow> bool" where
  "batch_done B X ms s \<longleftrightarrow> buy_order_t s = fold set_status ms B
     \<and> (\<exists>xs. outbox_t s = X @ xs \<and> map ob_payload xs = map matchingResultToPayload ms \<and> (\<forall>x \<in> set xs. \<not> ob_sent x))"

lemma table_pred_batch_done [simp]: "table_pred (batch_done B X ms)"
  by (simp add: table_pred_def batch_done_def)

lemma insert_payload_triple:
  "triple (\<lambda>s. buy_order_t s = B \<and> outbox_t s = X) (insert_payload j)
     (\<lambda>_ s. buy_order_t s = B \<and> (\<exists>x. outbox_t s = X @ [x] \<and> ob_payload x = j \<and> \<not> ob_sent x)) (\<lambda>_ _. True)"
proof -
  let ?P = "\<lambda>s. buy_order_t s = B \<and> outbox_t s = X"
  have P: "table_pred ?P" by (simp add: table_pred_def)
  show ?thesis
    unfolding insert_payload_def Let_def
    by (rule triple_stmt [OF P], rule triple_seq [OF triple_nextval [OF P]],
        rule triple_seq [where R = "\<lambda>_. ?P"]) (auto intro!: triple_query triple_guarded)
qed

lemma report_result_triple:
  "triple (batch_done B X ms) (report_result m) (\<lambda>_. batch_done B X (ms @ [m])) (\<lambda>_ _. True)"
proof (rule tripleI)
  fix s assume s: "batch_done B X ms s"
  let ?B = "set_status m (buy_order_t s)"
  have "triple (\<lambda>x. buy_order_t x = buy_order_t s \<and> outbox_t x = outbox_t s) (report_result m)
     (\<lambda>_ x. buy_order_t x = ?B \<and> (\<exists>y. outbox_t x = outbox_t s @ [y] \<and> ob_payload y = matchingResultToPayload m \<and> \<not> ob_sent y))
     (\<lambda>_ _. True)"
    unfolding report_result_def sql_update_order_def
    by (rule triple_attempt [where R = "\<lambda>_ x. buy_order_t x = ?B \<and> outbox_t x = outbox_t s" and F = "\<lambda>_ _. True"])
      (auto simp: table_pred_def set_status_def intro!: triple_stmt triple_guarded triple_fail
         triple_ret triple_attempt [OF insert_payload_triple])
  from tripleD [OF this, of s] show "case report_result m s of (Inr a, t) \<Rightarrow> batch_done B X (ms @ [m]) t | (Inl e, t) \<Rightarrow> True"
    using s by (fastforce simp: batch_done_def split: prod.splits sum.splits)
qed

lemma ReportMatchingResults_triple:
  "triple (\<lambda>s. buy_order_t s = B \<and> outbox_t s = X) (ReportMatchingResults ms)
     (\<lambda>_. batch_done B X ms) (\<lambda>_ s. buy_order_t s = B \<and> outbox_t s = X \<or> batch_done B X ms s)"
  unfolding ReportMatchingResults_def
proof (rule triple_attempt [where R = "\<lambda>_. batch_done B X ms"
      and F = "\<lambda>_ s. buy_order_t s = B \<and> outbox_t s = X \<or> batch_done B X ms s"])
  have "triple (batch_done B X []) (for_each (\<lambda>r _. report_result r) ms ()) (\<lambda>_. batch_done B X ([] @ ms)) (\<lambda>_ _. True)"
    using report_result_triple by (rule triple_for_each [where R = "\<lambda>zs _. batch_done B X zs"])
  then have loop: "triple (\<lambda>s. buy_order_t s = B \<and> outbox_t s = X) (for_each (\<lambda>r _. report_result r) ms ())
      (\<lambda>_. batch_done B X ms) (\<lambda>_ _. True)"
    by (rule triple_weaken) (auto simp: batch_done_def)
  show "triple (\<lambda>s. buy_order_t s = B \<and> outbox_t s = X)
     (transaction (\<lambda>e. Internal) (\<lambda>e. Internal) (for_each (\<lambda>r _. report_result r) ms ()))
     (\<lambda>_. batch_done B X ms) (\<lambda>_ s. buy_order_t s = B \<and> outbox_t s = X \<or> batch_done B X ms s)"
    by (rule triple_transaction [OF _ loop]) (auto simp: table_pred_def batch_done_def)
qed (auto intro: triple_fail triple_ret)

text \<open>
  C15: the results of a batch are stored together: after \<open>ReportMatchingResults\<close> either every
  order of the batch has its new status and every result its message in the outbox, in order,
  or the orders and the outbox are what they were; a confirmation means the former, under every
  schedule of lost requests and replies.
\<close>

theorem ReportMatchingResults_all_or_nothing:
  "case ReportMatchingResults ms s of
     (Inr c, t) \<Rightarrow> batch_done (buy_order_t s) (outbox_t s) ms t
   | (Inl e, t) \<Rightarrow> buy_order_t t = buy_order_t s \<and> outbox_t t = outbox_t s
       \<or> batch_done (buy_order_t s) (outbox_t s) ms t"
  using tripleD [OF ReportMatchingResults_triple, of s "buy_order_t s" "outbox_t s"] by simp

end
