(* ===== verification/Matching.thy ===== *)
theory Matching
  imports Inventory Messages
begin

text \<open>
  \<open>broker/matching.go\<close> and \<open>broker/main.go\<close>: the order buffer, the priority order, the
  fulfilment of one order and of a batch, and the intake of a delivery. The broker reaches the
  server through the interface \<open>brokerClienter\<close> and RabbitMQ through \<open>publisher\<close>, both
  over a world \<open>'w\<close>; the locales below say what the matching engine relies on.
\<close>

section \<open>The interfaces\<close>

record 'w brokerClienter =
  bc_ReportOrder :: "pbBuyOrder \<Rightarrow> ('w, code, BrokerOrderResult) proc"
  bc_ReserveInventory :: "ReserveInventoryRequest \<Rightarrow> ('w, code, ReserveInventoryResult) proc"
  bc_ReportMatchingResults :: "MatchingBatchResult list \<Rightarrow> ('w, code, BatchConfirmation) proc"

text \<open>\<open>Publish\<close> on the default exchange: routing key and body; \<open>True\<close> when it failed.\<close>

type_synonym 'w publisher = "string \<Rightarrow> json \<Rightarrow> 'w \<Rightarrow> bool \<times> 'w"

section \<open>The order buffer\<close>

type_synonym orderBuffer = "BuyOrder list"

definition buffer_add :: "BuyOrder \<Rightarrow> orderBuffer \<Rightarrow> orderBuffer" where
  "buffer_add ord b = b @ [ord]"

definition buffer_drain :: "orderBuffer \<Rightarrow> BuyOrder list \<times> orderBuffer" where
  "buffer_drain b = (if b = [] then ([], b) else (b, []))"

definition buffer_len :: "orderBuffer \<Rightarrow> int" where
  "buffer_len b = int (length b)"

definition matchBatchSize :: int where
  "matchBatchSize = 100"

section \<open>Priority\<close>

definition maxBidPrice :: "BuyOrder \<Rightarrow> f64" where
  "maxBidPrice ord =
     (if 0 < o_BidPrice ord then o_BidPrice ord
      else fold (\<lambda>item p. if p < oi_BidPrice item then oi_BidPrice item else p)
             (o_MatchedItems ord) (o_BidPrice ord))"

definition priority_less :: "BuyOrder \<Rightarrow> BuyOrder \<Rightarrow> bool" where
  "priority_less x y =
     (let bidI = maxBidPrice x; bidJ = maxBidPrice y
      in if \<not> feq bidI bidJ then bidJ < bidI else o_SequenceNumber x < o_SequenceNumber y)"

section \<open>Fulfilling an order\<close>

record match_state =
  items :: "MatchingItemResult list"
  totalQuantityFulfilled :: int
  hasRejectedItem :: bool
  totalCost :: f64

definition zero_match :: match_state where
  "zero_match = \<lparr>items = [], totalQuantityFulfilled = 0, hasRejectedItem = False, totalCost = 0\<rparr>"

definition make_item :: "Bread \<Rightarrow> int \<Rightarrow> string \<Rightarrow> MatchingItemResult" where
  "make_item bread fulfilled status = \<lparr>mi_BreadId = int32 (b_ID bread),
     mi_QuantityRequested = int32 (b_Quantity bread), mi_QuantityFulfilled = fulfilled, mi_Status = status\<rparr>"

definition add_item :: "Bread \<Rightarrow> int \<Rightarrow> string \<Rightarrow> match_state \<Rightarrow> match_state" where
  "add_item bread fulfilled status a = a\<lparr>items := items a @ [make_item bread fulfilled status]\<rparr>"

definition match_item ::
  "'w brokerClienter \<Rightarrow> BuyOrder \<Rightarrow> Bread \<Rightarrow> match_state \<Rightarrow> 'w \<Rightarrow> match_state \<times> 'w" where
  "match_item bc order bread a w =
     (if b_Quantity bread \<le> 0 then (add_item bread 0 ''skipped'' a, w)
      else
        (let (r, w') = bc_ReserveInventory bc
               \<lparr>rq_BreadId = int32 (b_ID bread), rq_QuantityRequested = int32 (b_Quantity bread),
                rq_BuyOrderUuid = o_BuyOrderUUID order\<rparr> w;
             refused =
               (if o_AllowPartial order \<or> o_SkipUnavailableItems order
                then (add_item bread 0 ''skipped'' a, w')
                else (add_item bread 0 ''rejected'' (a\<lparr>hasRejectedItem := True\<rparr>), w'))
         in case r of
              Inl err \<Rightarrow> refused
            | Inr resResult \<Rightarrow>
                if \<not> Reserved resResult then refused
                else
                  (let fulfilled = rs_QuantityFulfilled resResult;
                       b = add_item bread fulfilled ''fulfilled'' a
                   in (b\<lparr>totalQuantityFulfilled := int64 (totalQuantityFulfilled b + fulfilled),
                         totalCost := totalCost b + f64_of_int fulfilled * b_Price bread\<rparr>, w'))))"

fun match_items ::
  "'w brokerClienter \<Rightarrow> BuyOrder \<Rightarrow> Bread list \<Rightarrow> match_state \<Rightarrow> 'w \<Rightarrow> match_state \<times> 'w" where
  "match_items bc order [] a w = (a, w)"
| "match_items bc order (bread # breads) a w =
     (case match_item bc order bread a w of (a', w') \<Rightarrow> match_items bc order breads a' w')"

definition total_requested :: "BuyOrder \<Rightarrow> int" where
  "total_requested order = fold (\<lambda>b t. int64 (t + b_Quantity b)) (o_Breads order) 0"

definition match_status :: "BuyOrder \<Rightarrow> match_state \<Rightarrow> string" where
  "match_status order a =
     (if hasRejectedItem a \<and> \<not> o_AllowPartial order then ''rejected''
      else if totalQuantityFulfilled a = total_requested order \<and> 0 < total_requested order then ''processed''
      else if 0 < totalQuantityFulfilled a then ''partially_processed''
      else ''failed'')"

text \<open>
  The result is returned whatever happens to the publication on bread-bought: a failure there
  is logged.
\<close>

definition conclude_order ::
  "BuyOrder \<Rightarrow> match_state \<Rightarrow> 'w publisher \<Rightarrow> 'w \<Rightarrow> MatchingBatchResult \<times> 'w" where
  "conclude_order order a pub w =
     (let result = \<lparr>mr_BuyOrderUuid = o_BuyOrderUUID order, mr_OrderStatus = match_status order a,
                    mr_Items = items a, mr_TotalCost = totalCost a\<rparr>;
          message = \<lparr>pr_Order = order, pr_Items = matchingItemsToDataOrderItems (items a),
                     pr_TotalCost = totalCost a\<rparr>
      in case enc_publishResult message of
           None \<Rightarrow> (result, w)
         | Some body \<Rightarrow> (result, snd (pub ''bread-bought'' body w)))"

definition fulfillOrder ::
  "BuyOrder \<Rightarrow> 'w publisher \<Rightarrow> 'w brokerClienter \<Rightarrow> 'w \<Rightarrow> MatchingBatchResult \<times> 'w" where
  "fulfillOrder order pub bc w =
     (let (a, w1) = match_items bc order (o_Breads order) zero_match w in conclude_order order a pub w1)"

fun fulfill_all ::
  "BuyOrder list \<Rightarrow> 'w publisher \<Rightarrow> 'w brokerClienter \<Rightarrow> 'w \<Rightarrow> MatchingBatchResult list \<times> 'w" where
  "fulfill_all [] pub bc w = ([], w)"
| "fulfill_all (order # orders) pub bc w =
     (let (r, w1) = fulfillOrder order pub bc w; (rs, w2) = fulfill_all orders pub bc w1
      in (r # rs, w2))"

definition processMatchingBatch ::
  "BuyOrder list \<Rightarrow> 'w publisher \<Rightarrow> 'w brokerClienter \<Rightarrow> 'w \<Rightarrow> 'w" where
  "processMatchingBatch orders pub bc w =
     (if orders = [] then w
      else
        (let (batchResults, w1) = fulfill_all (go_sort priority_less orders) pub bc w
         in if batchResults = [] then w1
            else snd (bc_ReportMatchingResults bc batchResults w1)))"

section \<open>Intake\<close>

datatype ack = Ack | NackRequeue

definition processOneOrder ::
  "json \<Rightarrow> 'w brokerClienter \<Rightarrow> orderBuffer \<Rightarrow> 'w \<Rightarrow> ack \<times> orderBuffer \<times> 'w" where
  "processOneOrder body bc buf w =
     (case dec_BuyOrder body of
        None \<Rightarrow> (Ack, buf, w)
      | Some order \<Rightarrow>
          (case bc_ReportOrder bc (dataToProtoBuyOrder order) w of
             (Inl err, w') \<Rightarrow> (NackRequeue, buf, w')
           | (Inr result, w') \<Rightarrow>
               if \<not> Accepted result then (Ack, buf, w')
               else
                 (let order' = (if int32 (o_ID order) \<le> 0 then order\<lparr>o_ID := OrderId result\<rparr> else order)
                  in (Ack, buffer_add order' buf, w'))))"

text \<open>\<open>helpers.go\<close>: kept for reference in the source.\<close>

fun canFulfill_breads :: "Bread list \<Rightarrow> Bread list \<Rightarrow> bool" where
  "canFulfill_breads [] available = True"
| "canFulfill_breads (ordered # rest) available =
     (case find (\<lambda>b. b_Name b = b_Name ordered) available of
        None \<Rightarrow> False
      | Some b \<Rightarrow>
          if b_Quantity b < b_Quantity ordered then False else canFulfill_breads rest available)"

definition canFulfillOrder :: "BuyOrder \<Rightarrow> Bread list \<Rightarrow> bool" where
  "canFulfillOrder order available = canFulfill_breads (o_Breads order) available"

section \<open>The order of a batch\<close>

definition no_NaN :: "BuyOrder list \<Rightarrow> bool" where
  "no_NaN orders \<longleftrightarrow> (\<forall>ord \<in> set orders. maxBidPrice ord \<noteq> NaN)"

lemma feq_eq: "x \<noteq> NaN \<Longrightarrow> feq x y \<longleftrightarrow> x = y"
  by (auto simp: feq_def)

lemma priority_less_iff:
  assumes "maxBidPrice x \<noteq> NaN" and "maxBidPrice y \<noteq> NaN"
  shows "priority_less x y \<longleftrightarrow> maxBidPrice y < maxBidPrice x
    \<or> maxBidPrice x = maxBidPrice y \<and> o_SequenceNumber x < o_SequenceNumber y"
  using assms by (auto simp: priority_less_def Let_def feq_eq)

text \<open>The order on bids and sequence numbers alone.\<close>

lemma key_asym: "b < a \<or> a = b \<and> m < n \<Longrightarrow> \<not> (a < b \<or> b = a \<and> n < m)" for a b :: f64 and m n :: int
  by (auto dest: f64_less_asym)

lemma key_trans:
  fixes a b c :: f64 and k m n :: int
  assumes "a \<noteq> NaN" "b \<noteq> NaN" "c \<noteq> NaN"
    and "\<not> (b < a \<or> a = b \<and> k < m)" and "\<not> (c < b \<or> b = c \<and> m < n)"
  shows "\<not> (c < a \<or> a = c \<and> k < n)"
proof -
  from f64_less_linear [OF assms(1,2)] f64_less_linear [OF assms(2,3)] assms(4,5)
  consider "a < b" "b < c" | "a < b" "b = c" | "a = b" "b < c" | "a = b" "b = c" "m \<le> k" "n \<le> m"
    by fastforce
  then show ?thesis
    by cases (auto dest: f64_less_trans f64_less_asym)
qed

lemma priority_weak_order: "no_NaN orders \<Longrightarrow> weak_order_on (set orders) priority_less"
  unfolding weak_order_on_def no_NaN_def
proof (intro conjI ballI impI)
  assume n: "\<forall>ord \<in> set orders. maxBidPrice ord \<noteq> NaN"
  fix x y assume xy: "x \<in> set orders" "y \<in> set orders"
  show "\<not> priority_less y x" if "priority_less x y"
    using n xy that key_asym [of "maxBidPrice y" "maxBidPrice x" "o_SequenceNumber x" "o_SequenceNumber y"]
    by (simp add: priority_less_iff)
  fix z assume z: "z \<in> set orders"
  show "\<not> priority_less x z" if "\<not> priority_less x y" "\<not> priority_less y z"
    using n xy z that key_trans [of "maxBidPrice x" "maxBidPrice y" "maxBidPrice z"
        "o_SequenceNumber x" "o_SequenceNumber y" "o_SequenceNumber z"]
    by (simp add: priority_less_iff)
qed

lemma go_sort_priority:
  assumes "no_NaN orders"
  shows "mset (go_sort priority_less orders) = mset orders
    \<and> sorted_wrt (\<lambda>x y. \<not> (maxBidPrice x < maxBidPrice y
         \<or> maxBidPrice x = maxBidPrice y \<and> o_SequenceNumber y < o_SequenceNumber x)) (go_sort priority_less orders)"
proof -
  have "sorted_wrt (\<lambda>x y. \<not> priority_less y x) (go_sort priority_less orders)"
    using priority_weak_order [OF assms] by (rule sorted_go_sort)
  then have "sorted_wrt (\<lambda>x y. \<not> (maxBidPrice x < maxBidPrice y
         \<or> maxBidPrice x = maxBidPrice y \<and> o_SequenceNumber y < o_SequenceNumber x)) (go_sort priority_less orders)"
    using assms by (elim sorted_wrt_mono_rel [rotated]) (auto simp: priority_less_iff no_NaN_def)
  then show ?thesis by simp
qed

text \<open>
  A client and a publisher that note the calls they pass on: the reservations, in the order in which they
  are asked for.
\<close>

definition noting :: "'w brokerClienter \<Rightarrow> ('w \<times> ReserveInventoryRequest list) brokerClienter" where
  "noting bc =
     \<lparr>bc_ReportOrder = (\<lambda>req (w, l). case bc_ReportOrder bc req w of (x, v) \<Rightarrow> (x, (v, l))),
      bc_ReserveInventory = (\<lambda>req (w, l). case bc_ReserveInventory bc req w of (x, v) \<Rightarrow> (x, (v, l @ [req]))),
      bc_ReportMatchingResults = (\<lambda>rs (w, l). case bc_ReportMatchingResults bc rs w of (x, v) \<Rightarrow> (x, (v, l)))\<rparr>"

definition through :: "'w publisher \<Rightarrow> ('w \<times> ReserveInventoryRequest list) publisher" where
  "through pub = (\<lambda>key body (w, l). case pub key body w of (e, v) \<Rightarrow> (e, (v, l)))"

text \<open>What an order asks for: its breads in their order, those of no quantity left out.\<close>

definition reservations :: "BuyOrder \<Rightarrow> ReserveInventoryRequest list" where
  "reservations ord = map (\<lambda>b. \<lparr>rq_BreadId = int32 (b_ID b), rq_QuantityRequested = int32 (b_Quantity b),
     rq_BuyOrderUuid = o_BuyOrderUUID ord\<rparr>) (filter (\<lambda>b. 0 < b_Quantity b) (o_Breads ord))"

lemma match_items_notes:
  "snd (snd (match_items (noting bc) order bs a (w, l))) = l @ map (\<lambda>b. \<lparr>rq_BreadId = int32 (b_ID b),
     rq_QuantityRequested = int32 (b_Quantity b), rq_BuyOrderUuid = o_BuyOrderUUID order\<rparr>) (filter (\<lambda>b. 0 < b_Quantity b) bs)"
proof (induction bs arbitrary: a w l)
  case (Cons b bs)
  show ?case
  proof (cases "0 < b_Quantity b")
    case True
    let ?req = "\<lparr>rq_BreadId = int32 (b_ID b), rq_QuantityRequested = int32 (b_Quantity b), rq_BuyOrderUuid = o_BuyOrderUUID order\<rparr>"
    obtain x v where "bc_ReserveInventory bc ?req w = (x, v)" by (rule prod.exhaust)
    then have "\<exists>a'. match_item (noting bc) order b a (w, l) = (a', (v, l @ [?req]))"
      using True by (auto simp: match_item_def noting_def Let_def split: sum.split)
    then show ?thesis using True Cons by auto
  next
    case False
    then show ?thesis using Cons by (simp add: match_item_def)
  qed
qed simp

lemma fulfillOrder_notes: "snd (snd (fulfillOrder order (through pub) (noting bc) (w, l))) = l @ reservations order"
proof -
  obtain a v k where run: "match_items (noting bc) order (o_Breads order) zero_match (w, l) = (a, (v, k))"
    by (rule prod_cases3)
  moreover from this have "k = l @ reservations order"
    using match_items_notes [of bc order "o_Breads order" zero_match w l] by (simp add: reservations_def)
  ultimately show ?thesis
    by (simp add: fulfillOrder_def conclude_order_def through_def Let_def split: option.split prod.split)
qed

lemma fulfill_all_notes:
  "snd (snd (fulfill_all orders (through pub) (noting bc) (w, l))) = l @ concat (map reservations orders)"
proof (induction orders arbitrary: w l)
  case (Cons order orders)
  obtain r v k where run: "fulfillOrder order (through pub) (noting bc) (w, l) = (r, (v, k))" by (rule prod_cases3)
  then have "k = l @ reservations order" using fulfillOrder_notes [of order pub bc w l] by simp
  then show ?case using run Cons [of v k]
    by (cases "fulfill_all orders (through pub) (noting bc) (v, k)") (simp add: Let_def)
qed simp

text \<open>
  C8: A batch reserves bread in priority order, whatever the server and RabbitMQ answer: if no bid is NaN
  (none read from JSON is), the reservations \<open>processMatchingBatch\<close> asks for are those of the orders of
  the batch, one order after the other, such that no order comes before another with a higher bid, or
  with the same bid and a smaller sequence number.
\<close>

theorem batch_in_priority_order:
  assumes "no_NaN orders"
  shows "\<exists>sorted. mset sorted = mset orders
    \<and> sorted_wrt (\<lambda>x y. \<not> (maxBidPrice x < maxBidPrice y
         \<or> maxBidPrice x = maxBidPrice y \<and> o_SequenceNumber y < o_SequenceNumber x)) sorted
    \<and> snd (processMatchingBatch orders (through pub) (noting bc) (w, [])) = concat (map reservations sorted)"
proof -
  let ?sorted = "go_sort priority_less orders"
  have "snd (processMatchingBatch orders (through pub) (noting bc) (w, [])) = concat (map reservations ?sorted)"
  proof (cases "orders = []")
    case True
    then show ?thesis by (simp add: processMatchingBatch_def go_sort_def)
  next
    case False
    obtain rs v k where run: "fulfill_all ?sorted (through pub) (noting bc) (w, []) = (rs, (v, k))" by (rule prod_cases3)
    then have "k = concat (map reservations ?sorted)" using fulfill_all_notes [of ?sorted pub bc w "[]"] by simp
    then show ?thesis using False run
      by (simp add: processMatchingBatch_def) (simp add: noting_def split: prod.split)
  qed
  then show ?thesis using go_sort_priority [OF assms] by (intro exI [of _ ?sorted]) simp
qed

text \<open>
  The outcome of the sort does not depend on the algorithm when no two orders of the batch
  have both the same bid and the same sequence number: it is the only arrangement in priority
  order.
\<close>

theorem batch_order_unique:
  assumes "no_NaN orders" and "inj_on (\<lambda>x. (maxBidPrice x, o_SequenceNumber x)) (set orders)"
    and "mset ys = mset orders" and "sorted_wrt (\<lambda>x y. \<not> priority_less y x) ys"
  shows "ys = go_sort priority_less orders"
proof (rule sorted_unique [where lt = priority_less])
  show "sorted_wrt (\<lambda>a b. \<not> priority_less b a) (go_sort priority_less orders)"
    using priority_weak_order [OF assms(1)] by (rule sorted_go_sort)
  show "priority_less x y \<or> priority_less y x" if "x \<in> set ys" "y \<in> set ys" "x \<noteq> y" for x y
  proof -
    have "x \<in> set orders" "y \<in> set orders" using that assms(3) by (auto dest: mset_eq_setD)
    with assms(1,2) that(3) show ?thesis
      using f64_less_linear [of "maxBidPrice x" "maxBidPrice y"]
      by (auto simp: priority_less_iff no_NaN_def dest: inj_onD)
  qed
qed (use assms in simp_all)

definition bid :: "string \<Rightarrow> rat \<Rightarrow> int \<Rightarrow> BuyOrder" where
  "bid u p n = zero_BuyOrder\<lparr>o_BuyOrderUUID := u, o_BidPrice := Fin p, o_SequenceNumber := n\<rparr>"

text \<open>A server that has nothing, and three orders of one unit of bread 1.\<close>

definition sold_out :: "unit brokerClienter" where
  "sold_out = \<lparr>bc_ReportOrder = (\<lambda>req w. (Inl Internal, w)), bc_ReserveInventory = (\<lambda>req w. (Inl Internal, w)),
     bc_ReportMatchingResults = (\<lambda>rs w. (Inl Internal, w))\<rparr>"

definition three_bids :: "BuyOrder list" where
  "three_bids = map (\<lambda>x. x\<lparr>o_Breads := [zero_Bread\<lparr>b_ID := 1, b_Quantity := 1\<rparr>]\<rparr>) [bid ''a'' 1 1, bid ''b'' 2 3, bid ''c'' 2 2]"

theorem batch_in_priority_order_witness:
  "\<exists>sorted. mset sorted = mset three_bids \<and> sorted_wrt (\<lambda>x y. \<not> maxBidPrice x < maxBidPrice y) sorted
    \<and> concat (map reservations sorted) = map (\<lambda>u. \<lparr>rq_BreadId = 1, rq_QuantityRequested = 1, rq_BuyOrderUuid = u\<rparr>) [''c'', ''b'', ''a'']"
proof -
  have "no_NaN three_bids" by code_simp
  from batch_in_priority_order [OF this, of "\<lambda>k j w. (False, w)" sold_out "()"] obtain s where
    s: "mset s = mset three_bids" "sorted_wrt (\<lambda>x y. \<not> (maxBidPrice x < maxBidPrice y
         \<or> maxBidPrice x = maxBidPrice y \<and> o_SequenceNumber y < o_SequenceNumber x)) s"
      "snd (processMatchingBatch three_bids (through (\<lambda>k j w. (False, w))) (noting sold_out) ((), [])) = concat (map reservations s)"
    by blast
  have "snd (processMatchingBatch three_bids (through (\<lambda>k j w. (False, w))) (noting sold_out) ((), []))
      = map (\<lambda>u. \<lparr>rq_BreadId = 1, rq_QuantityRequested = 1, rq_BuyOrderUuid = u\<rparr>) [''c'', ''b'', ''a'']" by code_simp
  moreover have "sorted_wrt (\<lambda>x y. \<not> maxBidPrice x < maxBidPrice y) s"
    by (rule sorted_wrt_mono_rel [OF _ s(2)]) blast
  ultimately show ?thesis using s(1,3) by metis
qed

theorem batch_order_unique_witness:
  "[bid ''c'' 2 2, bid ''b'' 2 3, bid ''a'' 1 1] = go_sort priority_less [bid ''a'' 1 1, bid ''b'' 2 3, bid ''c'' 2 2]"
proof (rule batch_order_unique)
  show "no_NaN [bid ''a'' 1 1, bid ''b'' 2 3, bid ''c'' 2 2]" by code_simp
  show "inj_on (\<lambda>x. (maxBidPrice x, o_SequenceNumber x)) (set [bid ''a'' 1 1, bid ''b'' 2 3, bid ''c'' 2 2])"
    by (auto simp: inj_on_def bid_def zero_BuyOrder_def)
  show "sorted_wrt (\<lambda>x y. \<not> priority_less y x) [bid ''c'' 2 2, bid ''b'' 2 3, bid ''a'' 1 1]"
    by code_simp
qed simp

section \<open>What the items of a result say\<close>

definition sold :: "MatchingItemResult list \<Rightarrow> int \<Rightarrow> int" where
  "sold its i = sum_list (map mi_QuantityFulfilled (filter (\<lambda>x. mi_BreadId x = i) its))"

definition total_sold :: "MatchingItemResult list \<Rightarrow> int" where
  "total_sold its = sum_list (map mi_QuantityFulfilled its)"

lemma sold_append [simp]: "sold (xs @ ys) = (\<lambda>i. sold xs i + sold ys i)"
  by (simp add: sold_def fun_eq_iff)

lemma sold_Nil [simp]: "sold [] = (\<lambda>_. 0)"
  by (simp add: sold_def fun_eq_iff)

text \<open>The item of one bread: the bread and the request, and what may be reported for it.\<close>

definition item_for :: "Bread \<Rightarrow> MatchingItemResult \<Rightarrow> bool" where
  "item_for b x \<longleftrightarrow> mi_BreadId x = int32 (b_ID b) \<and> mi_QuantityRequested x = int32 (b_Quantity b)
     \<and> 0 \<le> mi_QuantityFulfilled x
     \<and> (0 < mi_QuantityFulfilled x \<longrightarrow> mi_QuantityFulfilled x \<le> int32 (b_Quantity b))
     \<and> (mi_Status x = ''fulfilled'' \<longleftrightarrow> 0 < mi_QuantityFulfilled x)"

lemma sold_make_item: "sold [make_item b m v] = (\<lambda>j. if j = int32 (b_ID b) then m else 0)"
  by (auto simp: sold_def make_item_def)

section \<open>The contract of a reservation\<close>

text \<open>
  What the matching engine relies on: while the world is good, an accepted reservation took at
  least what it reports, and no more is reported than was asked; a refused or failed one never
  adds stock.
\<close>

locale stock_backend =
  fixes bc :: "'w brokerClienter" and avail :: "'w \<Rightarrow> int \<Rightarrow> int option" and good :: "'w \<Rightarrow> bool"
  assumes reserve_good: "good w \<Longrightarrow> bc_ReserveInventory bc req w = (x, w') \<Longrightarrow> good w'"
    and reserve_yes: "good w \<Longrightarrow> bc_ReserveInventory bc req w = (Inr r, w') \<Longrightarrow> Reserved r \<Longrightarrow>
      takes (avail w) (rq_BreadId req) (rs_QuantityFulfilled r) (avail w')
      \<and> 0 < rs_QuantityFulfilled r \<and> rs_QuantityFulfilled r \<le> rq_QuantityRequested req"
    and reserve_no: "good w \<Longrightarrow> bc_ReserveInventory bc req w = (x, w') \<Longrightarrow>
      (case x of Inl e \<Rightarrow> True | Inr r \<Rightarrow> \<not> Reserved r) \<Longrightarrow> takes (avail w) (rq_BreadId req) 0 (avail w')"
begin

lemma match_item_step:
  assumes "good w" and "match_item bc order b a w = (a', w')"
  shows "good w' \<and> (\<exists>x. items a' = items a @ [x] \<and> item_for b x
      \<and> takes_all (avail w) (sold [x]) (avail w')
      \<and> totalQuantityFulfilled a' = (if mi_QuantityFulfilled x = 0 then totalQuantityFulfilled a
           else int64 (totalQuantityFulfilled a + mi_QuantityFulfilled x))
      \<and> (hasRejectedItem a' \<longleftrightarrow> hasRejectedItem a \<or> mi_Status x = ''rejected''))"
proof (cases "b_Quantity b \<le> 0")
  case True
  then show ?thesis
    using assms
    by (intro conjI exI [of _ "make_item b 0 ''skipped''"])
      (auto simp: match_item_def add_item_def item_for_def make_item_def sold_make_item [unfolded make_item_def])
next
  case False
  let ?req = "\<lparr>rq_BreadId = int32 (b_ID b), rq_QuantityRequested = int32 (b_Quantity b),
                rq_BuyOrderUuid = o_BuyOrderUUID order\<rparr>"
  obtain r w1 where r: "bc_ReserveInventory bc ?req w = (r, w1)" by (cases "bc_ReserveInventory bc ?req w")
  note good = reserve_good [OF assms(1) r]
  show ?thesis
  proof (cases "\<exists>res. r = Inr res \<and> Reserved res")
    case True
    then obtain res where res: "r = Inr res" "Reserved res" by blast
    from reserve_yes [OF assms(1) r [unfolded res(1)] res(2)]
    have take: "takes_all (avail w) (sold [make_item b (rs_QuantityFulfilled res) ''fulfilled'']) (avail w1)"
      and pos: "0 < rs_QuantityFulfilled res" "rs_QuantityFulfilled res \<le> int32 (b_Quantity b)"
      by (auto simp: sold_make_item dest: takes_takes_all)
    show ?thesis
      using assms(2) False r res good take pos
      by (intro conjI exI [of _ "make_item b (rs_QuantityFulfilled res) ''fulfilled''"])
        (auto simp: match_item_def Let_def add_item_def item_for_def make_item_def)
  next
    case refused: False
    then have "takes (avail w) (int32 (b_ID b)) 0 (avail w1)"
      using reserve_no [OF assms(1) r] by (simp split: sum.splits)
    from takes_takes_all [OF this] have take: "takes_all (avail w) (sold [make_item b 0 v]) (avail w1)" for v
      by (simp add: sold_make_item)
    define v where "v = (if o_AllowPartial order \<or> o_SkipUnavailableItems order then ''skipped'' else ''rejected'')"
    define c where "c = (if v = ''skipped'' then a else a\<lparr>hasRejectedItem := True\<rparr>)"
    have "a' = add_item b 0 v c \<and> w' = w1"
      using assms(2) False r refused
      by (auto simp: match_item_def Let_def v_def c_def split: sum.splits if_splits)
    moreover have "item_for b (make_item b 0 v)" "v = ''skipped'' \<or> v = ''rejected''"
      by (auto simp: item_for_def make_item_def v_def)
    ultimately show ?thesis
      using good take [of v]
      by (intro conjI exI [of _ "make_item b 0 v"]) (auto simp: add_item_def c_def make_item_def)
  qed
qed

text \<open>All the items of an order, with the totals exact as long as they fit.\<close>

lemma match_items_spec:
  assumes "good w" and "match_items bc order bs a w = (a', w')"
  shows "good w' \<and> (\<exists>xs. items a' = items a @ xs \<and> list_all2 item_for bs xs
      \<and> takes_all (avail w) (sold xs) (avail w')
      \<and> (hasRejectedItem a' \<longleftrightarrow> hasRejectedItem a \<or> (\<exists>x \<in> set xs. mi_Status x = ''rejected''))
      \<and> (0 \<le> totalQuantityFulfilled a \<longrightarrow> totalQuantityFulfilled a + total_sold xs < 9223372036854775808
           \<longrightarrow> totalQuantityFulfilled a' = totalQuantityFulfilled a + total_sold xs))"
  using assms
proof (induction bs arbitrary: a w)
  case Nil
  then show ?case by (simp add: total_sold_def)
next
  case (Cons b bs)
  obtain a1 w1 where step: "match_item bc order b a w = (a1, w1)" by (cases "match_item bc order b a w")
  from match_item_step [OF Cons.prems(1) step] obtain x where x: "good w1" "items a1 = items a @ [x]"
      "item_for b x" "takes_all (avail w) (sold [x]) (avail w1)"
      "totalQuantityFulfilled a1 = (if mi_QuantityFulfilled x = 0 then totalQuantityFulfilled a
           else int64 (totalQuantityFulfilled a + mi_QuantityFulfilled x))"
      "hasRejectedItem a1 \<longleftrightarrow> hasRejectedItem a \<or> mi_Status x = ''rejected''"
    by blast
  have rest: "match_items bc order bs a1 w1 = (a', w')" using Cons.prems(2) step by simp
  from Cons.IH [OF x(1) rest] obtain xs where xs: "good w'" "items a' = items a1 @ xs" "list_all2 item_for bs xs"
      "takes_all (avail w1) (sold xs) (avail w')"
      "hasRejectedItem a' \<longleftrightarrow> hasRejectedItem a1 \<or> (\<exists>x \<in> set xs. mi_Status x = ''rejected'')"
      "0 \<le> totalQuantityFulfilled a1 \<longrightarrow> totalQuantityFulfilled a1 + total_sold xs < 9223372036854775808
           \<longrightarrow> totalQuantityFulfilled a' = totalQuantityFulfilled a1 + total_sold xs"
    by blast
  have "takes_all (avail w) (sold (x # xs)) (avail w')"
    using takes_all_trans [OF x(4) xs(4)] sold_append [of "[x]" xs] by simp
  moreover have "0 \<le> total_sold xs"
    using xs(3) by (auto simp: total_sold_def list_all2_conv_all_nth in_set_conv_nth item_for_def intro!: sum_list_nonneg_int)
  then have "totalQuantityFulfilled a' = totalQuantityFulfilled a + total_sold (x # xs)"
    if "0 \<le> totalQuantityFulfilled a" "totalQuantityFulfilled a + total_sold (x # xs) < 9223372036854775808"
  proof -
    have "0 \<le> mi_QuantityFulfilled x" using x(3) by (simp add: item_for_def)
    moreover have "int64 (totalQuantityFulfilled a + mi_QuantityFulfilled x) = totalQuantityFulfilled a + mi_QuantityFulfilled x"
      using that \<open>0 \<le> total_sold xs\<close> calculation by (intro int64_id) (simp add: is_int64_def total_sold_def)
    ultimately show ?thesis using x(5) xs(6) that by (auto simp: total_sold_def split: if_splits)
  qed
  ultimately show ?case
    using x xs by (intro conjI exI [of _ "x # xs"]) auto
qed

end

section \<open>Orders and batches\<close>

lemma total_requested_exact:
  assumes "\<forall>b \<in> set bs. 0 \<le> b_Quantity b" and "0 \<le> t" and "t + sum_list (map b_Quantity bs) < 9223372036854775808"
  shows "fold (\<lambda>b t. int64 (t + b_Quantity b)) bs t = t + sum_list (map b_Quantity bs)"
  using assms
proof (induction bs arbitrary: t)
  case (Cons b bs)
  have "0 \<le> sum_list (map b_Quantity bs)" using Cons.prems(1) by (intro sum_list_nonneg_int) simp
  then have "int64 (t + b_Quantity b) = t + b_Quantity b"
    using Cons.prems by (intro int64_id) (simp add: is_int64_def)
  then show ?case using Cons by simp
qed simp

lemma list_all2_right: "list_all2 P xs ys \<Longrightarrow> y \<in> set ys \<Longrightarrow> \<exists>x \<in> set xs. P x y"
  by (induction rule: list_all2_induct) auto

text \<open>Served item by item exactly when served in total.\<close>

lemma served_iff_total:
  assumes "list_all2 item_for bs xs" and "\<forall>b \<in> set bs. 0 < b_Quantity b \<and> is_int32 (b_Quantity b)"
  shows "total_sold xs \<le> sum_list (map b_Quantity bs)
    \<and> (total_sold xs = sum_list (map b_Quantity bs) \<longleftrightarrow> (\<forall>x \<in> set xs. mi_QuantityFulfilled x = mi_QuantityRequested x))"
  using assms
proof (induction rule: list_all2_induct)
  case Nil
  then show ?case by (simp add: total_sold_def)
next
  case (Cons b bs x xs)
  have "mi_QuantityRequested x = b_Quantity b" "mi_QuantityFulfilled x \<le> b_Quantity b"
    using Cons.hyps(1) Cons.prems by (auto simp: item_for_def)
  then show ?case using Cons.IH Cons.prems by (auto simp: total_sold_def)
qed

text \<open>
  The engine together with its publisher and its report to the server, neither of which touches
  the stock.
\<close>

locale matching_engine = stock_backend bc avail good
  for bc :: "'w brokerClienter" and avail :: "'w \<Rightarrow> int \<Rightarrow> int option" and good :: "'w \<Rightarrow> bool" +
  fixes pub :: "'w publisher"
  assumes pub_good: "good w \<Longrightarrow> good (snd (pub k j w))"
    and pub_avail: "good w \<Longrightarrow> avail (snd (pub k j w)) = avail w"
    and report_good: "good w \<Longrightarrow> bc_ReportMatchingResults bc rs w = (x, w') \<Longrightarrow> good w' \<and> avail w' = avail w"
begin

lemma fulfillOrder_parts:
  assumes "good w" and "fulfillOrder order pub bc w = (m, w')"
  shows "\<exists>a w1. match_items bc order (o_Breads order) zero_match w = (a, w1) \<and> good w1
    \<and> m = \<lparr>mr_BuyOrderUuid = o_BuyOrderUUID order, mr_OrderStatus = match_status order a,
           mr_Items = items a, mr_TotalCost = totalCost a\<rparr>
    \<and> good w' \<and> avail w' = avail w1"
proof -
  obtain a w1 where run: "match_items bc order (o_Breads order) zero_match w = (a, w1)"
    by (cases "match_items bc order (o_Breads order) zero_match w")
  have "good w1" using match_items_spec [OF assms(1) run] by blast
  then show ?thesis
    using assms(2) run pub_good pub_avail by (auto simp: fulfillOrder_def conclude_order_def Let_def split: option.splits)
qed

lemma fulfillOrder_items:
  assumes "good w" and "fulfillOrder order pub bc w = (m, w')"
  shows "good w' \<and> mr_BuyOrderUuid m = o_BuyOrderUUID order
    \<and> list_all2 item_for (o_Breads order) (mr_Items m)
    \<and> takes_all (avail w) (sold (mr_Items m)) (avail w')"
proof -
  from fulfillOrder_parts [OF assms] obtain a w1
    where run: "match_items bc order (o_Breads order) zero_match w = (a, w1)" "good w1"
      "m = \<lparr>mr_BuyOrderUuid = o_BuyOrderUUID order, mr_OrderStatus = match_status order a,
           mr_Items = items a, mr_TotalCost = totalCost a\<rparr>" "good w'" "avail w' = avail w1"
    by blast
  from match_items_spec [OF assms(1) run(1)] obtain xs where "items a = items zero_match @ xs"
      "list_all2 item_for (o_Breads order) xs" "takes_all (avail w) (sold xs) (avail w1)"
    by blast
  then show ?thesis using run by (simp add: zero_match_def)
qed

lemma fulfillOrder_status:
  assumes "good w" and "fulfillOrder order pub bc w = (m, w')"
    and "\<forall>b \<in> set (o_Breads order). 0 < b_Quantity b \<and> is_int32 (b_Quantity b)" and "o_Breads order \<noteq> []"
    and "sum_list (map b_Quantity (o_Breads order)) < 9223372036854775808"
  shows "mr_OrderStatus m = ''processed'' \<longleftrightarrow> (\<forall>x \<in> set (mr_Items m). mi_QuantityFulfilled x = mi_QuantityRequested x)"
proof -
  let ?n = "sum_list (map b_Quantity (o_Breads order))"
  from fulfillOrder_parts [OF assms(1,2)] obtain a w1
    where run: "match_items bc order (o_Breads order) zero_match w = (a, w1)"
      and m: "m = \<lparr>mr_BuyOrderUuid = o_BuyOrderUUID order, mr_OrderStatus = match_status order a,
           mr_Items = items a, mr_TotalCost = totalCost a\<rparr>"
    by blast
  from match_items_spec [OF assms(1) run] obtain xs where xs: "items a = items zero_match @ xs"
      "list_all2 item_for (o_Breads order) xs"
      "hasRejectedItem a \<longleftrightarrow> hasRejectedItem zero_match \<or> (\<exists>x \<in> set xs. mi_Status x = ''rejected'')"
      "0 \<le> totalQuantityFulfilled zero_match \<longrightarrow> totalQuantityFulfilled zero_match + total_sold xs < 9223372036854775808
           \<longrightarrow> totalQuantityFulfilled a = totalQuantityFulfilled zero_match + total_sold xs"
    by blast
  note served = served_iff_total [OF xs(2) assms(3)]
  have its: "items a = xs" using xs(1) by (simp add: zero_match_def)
  have "\<forall>b \<in> set (o_Breads order). 0 \<le> b_Quantity b" using assms(3) by auto
  with assms(5) have req1: "total_requested order = ?n"
    using total_requested_exact [of "o_Breads order" 0] by (simp add: total_requested_def)
  have "0 < ?n" using assms(3,4) by (intro sum_list_pos_int) auto
  with req1 have req: "total_requested order = ?n" "0 < ?n" by simp_all
  have tot: "totalQuantityFulfilled a = total_sold xs"
    using xs(4) served assms(5) by (simp add: zero_match_def)
  have "\<exists>x \<in> set xs. mi_QuantityFulfilled x \<noteq> mi_QuantityRequested x" if "hasRejectedItem a"
  proof -
    from that xs(3) obtain x where "x \<in> set xs" "mi_Status x = ''rejected''" by (auto simp: zero_match_def)
    moreover obtain b where "b \<in> set (o_Breads order)" "item_for b x"
      using list_all2_right [OF xs(2) \<open>x \<in> set xs\<close>] by blast
    ultimately show ?thesis using assms(3) by (intro bexI [of _ x]) (auto simp: item_for_def)
  qed
  then show ?thesis using served req tot by (auto simp: m match_status_def its)
qed

lemma fulfill_all_items:
  assumes "good w" and "fulfill_all orders pub bc w = (ms, w')"
  shows "good w' \<and> list_all2 (\<lambda>ord m. mr_BuyOrderUuid m = o_BuyOrderUUID ord \<and> list_all2 item_for (o_Breads ord) (mr_Items m)) orders ms
    \<and> takes_all (avail w) (sold (concat (map mr_Items ms))) (avail w')"
  using assms
proof (induction orders arbitrary: w ms)
  case Nil
  then show ?case by simp
next
  case (Cons order orders)
  obtain m w1 where m: "fulfillOrder order pub bc w = (m, w1)" by (cases "fulfillOrder order pub bc w")
  obtain rs w2 where rs2: "fulfill_all orders pub bc w1 = (rs, w2)" by (cases "fulfill_all orders pub bc w1")
  have w2: "ms = m # rs" "w2 = w'" using Cons.prems(2) m rs2 by simp_all
  note rs = rs2 [unfolded w2(2)]
  note 1 = fulfillOrder_items [OF Cons.prems(1) m]
  then have "good w1" by blast
  note 2 = Cons.IH [OF this rs]
  have "takes_all (avail w) (\<lambda>i. sold (mr_Items m) i + sold (concat (map mr_Items rs)) i) (avail w')"
    using 1 2 by (intro takes_all_trans [of _ _ "avail w1"]) auto
  with 1 2 w2 show ?case by simp
qed

end

section \<open>A backend without faults\<close>

text \<open>Exactly what is reported leaves the stock.\<close>

definition gives_all :: "(int \<Rightarrow> int option) \<Rightarrow> (int \<Rightarrow> int) \<Rightarrow> (int \<Rightarrow> int option) \<Rightarrow> bool" where
  "gives_all st f st' \<longleftrightarrow> st' = (\<lambda>i. map_option (\<lambda>q. q - f i) (st i))"

lemma gives_all_refl [simp]: "gives_all st (\<lambda>_. 0) st"
  by (auto simp: gives_all_def fun_eq_iff option.map_ident)

lemma gives_all_trans: "gives_all st f st' \<Longrightarrow> gives_all st' g st'' \<Longrightarrow> gives_all st (\<lambda>i. f i + g i) st''"
  by (auto simp: gives_all_def fun_eq_iff option.map_comp o_def algebra_simps)

lemma gives_all_update: "st i = Some q \<Longrightarrow> gives_all st (\<lambda>j. if j = i then m else 0) (st(i \<mapsto> q - m))"
  by (auto simp: gives_all_def fun_eq_iff option.map_ident)

locale reliable_engine = matching_engine bc avail good pub
  for bc :: "'w brokerClienter" and avail :: "'w \<Rightarrow> int \<Rightarrow> int option" and good :: "'w \<Rightarrow> bool"
    and pub :: "'w publisher" +
  assumes reserve_exact: "good w \<Longrightarrow> bc_ReserveInventory bc req w = (x, w') \<Longrightarrow>
    \<exists>r. x = Inr r \<and> gives_all (avail w)
      (\<lambda>j. if Reserved r \<and> j = rq_BreadId req then rs_QuantityFulfilled r else 0) (avail w')"
begin

lemma match_item_exact:
  assumes "good w" and "match_item bc order b a w = (a', w')"
  shows "good w' \<and> (\<exists>x. items a' = items a @ [x] \<and> gives_all (avail w) (sold [x]) (avail w'))"
proof (cases "b_Quantity b \<le> 0")
  case True
  then show ?thesis
    using assms by (auto simp: match_item_def add_item_def sold_make_item)
next
  case False
  let ?req = "\<lparr>rq_BreadId = int32 (b_ID b), rq_QuantityRequested = int32 (b_Quantity b),
                rq_BuyOrderUuid = o_BuyOrderUUID order\<rparr>"
  obtain y w1 where y: "bc_ReserveInventory bc ?req w = (y, w1)" by (cases "bc_ReserveInventory bc ?req w")
  from reserve_exact [OF assms(1) y] obtain r where r: "y = Inr r"
    and gives: "gives_all (avail w) (\<lambda>j. if Reserved r \<and> j = int32 (b_ID b) then rs_QuantityFulfilled r else 0) (avail w1)"
    by auto
  have "good w1" using reserve_good [OF assms(1) y] .
  then show ?thesis
    using assms(2) False y r gives
    by (auto simp: match_item_def Let_def add_item_def sold_make_item split: if_splits cong: if_cong)
qed

lemma match_items_exact:
  assumes "good w" and "match_items bc order bs a w = (a', w')"
  shows "good w' \<and> (\<exists>xs. items a' = items a @ xs \<and> gives_all (avail w) (sold xs) (avail w'))"
  using assms
proof (induction bs arbitrary: a w)
  case Nil
  then show ?case by simp
next
  case (Cons b bs)
  obtain a1 w1 where step: "match_item bc order b a w = (a1, w1)" by (cases "match_item bc order b a w")
  from match_item_exact [OF Cons.prems(1) step] obtain x
    where x: "good w1" "items a1 = items a @ [x]" "gives_all (avail w) (sold [x]) (avail w1)" by blast
  have rest: "match_items bc order bs a1 w1 = (a', w')" using Cons.prems(2) step by simp
  from Cons.IH [OF x(1) rest] obtain xs where xs: "good w'" "items a' = items a1 @ xs"
      "gives_all (avail w1) (sold xs) (avail w')" by blast
  have "gives_all (avail w) (sold (x # xs)) (avail w')"
    using gives_all_trans [OF x(3) xs(3)] sold_append [of "[x]" xs] by simp
  with x xs show ?case by auto
qed

lemma fulfill_all_exact:
  assumes "good w" and "fulfill_all orders pub bc w = (ms, w')"
  shows "good w' \<and> gives_all (avail w) (sold (concat (map mr_Items ms))) (avail w')"
  using assms
proof (induction orders arbitrary: w ms)
  case Nil
  then show ?case by simp
next
  case (Cons order orders)
  obtain m w1 where m: "fulfillOrder order pub bc w = (m, w1)" by (cases "fulfillOrder order pub bc w")
  obtain rs w2 where rs2: "fulfill_all orders pub bc w1 = (rs, w2)" by (cases "fulfill_all orders pub bc w1")
  have w2: "ms = m # rs" "w2 = w'" using Cons.prems(2) m rs2 by simp_all
  from fulfillOrder_parts [OF Cons.prems(1) m] obtain a v
    where run: "match_items bc order (o_Breads order) zero_match w = (a, v)"
      and its: "mr_Items m = items a" "good w1" "avail w1 = avail v" by auto
  from match_items_exact [OF Cons.prems(1) run] its
  have "gives_all (avail w) (sold (mr_Items m)) (avail w1)" by (auto simp: zero_match_def)
  with Cons.IH [OF its(2) rs2 [unfolded w2(2)]]
  have "gives_all (avail w) (\<lambda>i. sold (mr_Items m) i + sold (concat (map mr_Items rs)) i) (avail w')"
    by (blast intro: gives_all_trans)
  with Cons.IH [OF its(2) rs2 [unfolded w2(2)]] w2 show ?case by simp
qed

end

end
