(* ===== verification/BrokerClient.thy ===== *)
theory BrokerClient
  imports BrokerServer Matching Resilience
begin

text \<open>
  The broker process around the matching engine: the \<open>brokerClient\<close> of \<open>broker/main.go\<close>,
  which calls the server through a retry loop and a circuit breaker per method, over a network
  that may lose requests and replies. With it the engine's contracts are discharged on the
  server's own methods.
\<close>

section \<open>The world of a broker\<close>

record broker_world =
  server_db :: db
  net :: "fault list"
  now_ns :: int
  reportOrderCB :: CircuitBreaker
  reserveInventoryCB :: CircuitBreaker
  reportMatchingCB :: CircuitBreaker
  published :: "(string \<times> json) list"
  pub_failures :: "bool list"

text \<open>One call over the network, with the next fault of its schedule.\<close>

definition on_server :: "(db, code, 'a) proc \<Rightarrow> (broker_world, code, 'a) proc" where
  "on_server f w = (case f (server_db w) of (r, s) \<Rightarrow> (r, w\<lparr>server_db := s\<rparr>))"

definition rpc :: "(db, code, 'a) proc \<Rightarrow> (broker_world, code, 'a) proc" where
  "rpc f w = (case net w of
       [] \<Rightarrow> on_server f w
     | g # gs \<Rightarrow>
         (let v = w\<lparr>net := gs\<rparr> in
          case g of
            NoFault \<Rightarrow> on_server f v
          | LostRequest \<Rightarrow> (Inl Unavailable, v)
          | LostReply \<Rightarrow> (Inl Unavailable, snd (on_server f v))
          | CutAfter n \<Rightarrow> (Inl Unavailable, snd (on_server f v))))"

text \<open>
  A method of the client: the closure keeps the reply in \<open>result\<close>, and waiting moves the
  clock. The context is \<open>context.Background()\<close>, which is never done.
\<close>

definition client_env :: "(db, code, 'a) proc \<Rightarrow> ('a option \<times> broker_world, code) surroundings" where
  "client_env f =
     \<lparr>call_fn = (\<lambda>(result, w). case rpc f w of
          (Inl err, w') \<Rightarrow> (Some err, (result, w'))
        | (Inr resp, w') \<Rightarrow> (None, (Some resp, w'))),
      wait_for = (\<lambda>d (result, w). (None, (result, w\<lparr>now_ns := now_ns w + max 0 d\<rparr>))),
      clock = (\<lambda>(result, w). now_ns w)\<rparr>"

definition client_call ::
  "(db, code, 'a) proc \<Rightarrow> CircuitBreaker \<Rightarrow> broker_world \<Rightarrow> (code + 'a) \<times> CircuitBreaker option \<times> broker_world" where
  "client_call f cb w =
     (case the (Retry DefaultRetryConfig (client_env f) (Some cb) (None, w)) of
        (Inr u, cb', (Some a, w')) \<Rightarrow> (Inr a, cb', w')
      | (r, cb', (result, w')) \<Rightarrow> (Inl Unavailable, cb', w'))"

text \<open>\<open>Retry\<close> returns with the default configuration.\<close>

lemma client_call_eq [code]:
  "client_call f cb w =
     (case Retry_result DefaultRetryConfig (client_env f) (Some cb) (None, w) of
        (Inr u, cb', (Some a, w')) \<Rightarrow> (Inr a, cb', w')
      | (r, cb', (result, w')) \<Rightarrow> (Inl Unavailable, cb', w'))"
  unfolding client_call_def by (subst Retry_returns) (simp_all add: DefaultRetryConfig_def)

definition client_ReportOrder :: "pbBuyOrder \<Rightarrow> (broker_world, code, BrokerOrderResult) proc" where
  "client_ReportOrder order w =
     (case client_call (ReportOrder order) (reportOrderCB w) w of
        (r, cb, w') \<Rightarrow> (r, w'\<lparr>reportOrderCB := (case cb of None \<Rightarrow> reportOrderCB w | Some b \<Rightarrow> b)\<rparr>))"

definition client_ReserveInventory :: "ReserveInventoryRequest \<Rightarrow> (broker_world, code, ReserveInventoryResult) proc" where
  "client_ReserveInventory req w =
     (case client_call (ReserveInventory req) (reserveInventoryCB w) w of
        (r, cb, w') \<Rightarrow> (r, w'\<lparr>reserveInventoryCB := (case cb of None \<Rightarrow> reserveInventoryCB w | Some b \<Rightarrow> b)\<rparr>))"

definition client_ReportMatchingResults :: "MatchingBatchResult list \<Rightarrow> (broker_world, code, BatchConfirmation) proc" where
  "client_ReportMatchingResults req w =
     (case client_call (ReportMatchingResults req) (reportMatchingCB w) w of
        (r, cb, w') \<Rightarrow> (r, w'\<lparr>reportMatchingCB := (case cb of None \<Rightarrow> reportMatchingCB w | Some b \<Rightarrow> b)\<rparr>))"

definition newBrokerClient :: "broker_world brokerClienter" where
  "newBrokerClient = \<lparr>bc_ReportOrder = client_ReportOrder, bc_ReserveInventory = client_ReserveInventory,
     bc_ReportMatchingResults = client_ReportMatchingResults\<rparr>"

text \<open>The breakers a new client starts with, over a given server.\<close>

definition new_broker :: "db \<Rightarrow> broker_world" where
  "new_broker s = \<lparr>server_db = s, net = [], now_ns = 0,
     reportOrderCB = NewCircuitBreaker \<lparr>FailureThreshold = 5, ResetTimeout = 30 * 1000000000\<rparr>,
     reserveInventoryCB = NewCircuitBreaker \<lparr>FailureThreshold = 5, ResetTimeout = 30 * 1000000000\<rparr>,
     reportMatchingCB = NewCircuitBreaker \<lparr>FailureThreshold = 3, ResetTimeout = 60 * 1000000000\<rparr>,
     published = [], pub_failures = []\<rparr>"

text \<open>Publishing: the message joins the queue unless the channel fails.\<close>

definition channel_Publish :: "broker_world publisher" where
  "channel_Publish key body w = (case pub_failures w of
       [] \<Rightarrow> (False, w\<lparr>published := published w @ [(key, body)]\<rparr>)
     | True # fs \<Rightarrow> (True, w\<lparr>pub_failures := fs\<rparr>)
     | False # fs \<Rightarrow> (False, w\<lparr>pub_failures := fs, published := published w @ [(key, body)]\<rparr>))"

section \<open>Calls over a faulty network\<close>

definition on_hand :: "broker_world \<Rightarrow> int \<Rightarrow> int option" where
  "on_hand w = stock (server_db w)"

definition sound :: "broker_world \<Rightarrow> bool" where
  "sound w \<longleftrightarrow> db_inv (server_db w)"

lemma rpc_cases:
  assumes "rpc f w = (x, w')"
  shows "server_db w' = server_db w \<and> (\<exists>e. x = Inl e) \<or>
    (\<exists>r. f (server_db w) = (r, server_db w') \<and> (x = r \<or> x = Inl Unavailable))"
  using assms
  by (auto simp: rpc_def on_server_def Let_def split: list.splits fault.splits prod.splits)

lemma rpc_rule:
  assumes step: "\<And>s r t. J s \<Longrightarrow> f s = (r, t) \<Longrightarrow> J t \<and> (\<forall>a. r = Inr a \<longrightarrow> K a t)"
    and "J (server_db w)" and "rpc f w = (x, w')"
  shows "J (server_db w') \<and> (\<forall>a. x = Inr a \<longrightarrow> K a (server_db w'))"
  using rpc_cases [OF assms(3)]
proof (elim disjE exE conjE)
  fix r assume r: "f (server_db w) = (r, server_db w')" "x = r"
  show ?thesis using step [OF assms(2) r(1)] r(2) by simp
next
  fix r assume r: "f (server_db w) = (r, server_db w')" "x = Inl Unavailable"
  show ?thesis using step [OF assms(2) r(1)] r(2) by simp
next
  fix e assume "server_db w' = server_db w" "x = Inl e"
  then show ?thesis using assms(2) by simp
qed

lemma call_client_None:
  "call_fn (client_env f) y = (None, y') \<Longrightarrow> \<exists>a. rpc f (snd y) = (Inr a, snd y') \<and> fst y' = Some a"
  by (cases y; cases "rpc f (snd y)"; cases "fst (rpc f (snd y))") (auto simp: client_env_def)

lemma call_client_Some:
  "call_fn (client_env f) y = (Some e, y') \<Longrightarrow> \<exists>x. rpc f (snd y) = (x, snd y')"
  by (cases y; cases "rpc f (snd y)"; cases "fst (rpc f (snd y))") (auto simp: client_env_def)

lemma wait_client:
  "wait_for (client_env f) d y = (e, y') \<Longrightarrow> \<exists>t. snd y' = (snd y)\<lparr>now_ns := t\<rparr>"
  by (cases y) (auto simp: client_env_def)

text \<open>
  An invariant of one call, and what its success gives, carry over to the call through the
  retry loop; so do an invariant of the server's method on the database and what that gives.
\<close>

lemma client_call_world:
  assumes call: "\<And>v x v'. J v \<Longrightarrow> rpc f v = (x, v') \<Longrightarrow> J v' \<and> (\<forall>a. x = Inr a \<longrightarrow> K a v')"
    and tick: "\<And>v t. J v \<Longrightarrow> J (v\<lparr>now_ns := t\<rparr>)"
    and "J w" and "client_call f cb w = (x, cb', w')"
  shows "J w' \<and> (\<forall>a. x = Inr a \<longrightarrow> K a w')"
proof -
  let ?J = "\<lambda>y. J (snd y)"
  let ?K = "\<lambda>y. J (snd y) \<and> (\<exists>a. fst y = Some a \<and> K a (snd y))"
  obtain r b res v where run: "Retry_result DefaultRetryConfig (client_env f) (Some cb) (None, w) = (r, b, (res, v))"
    by (cases "Retry_result DefaultRetryConfig (client_env f) (Some cb) (None, w)") auto
  have fin: "case r of Inl e \<Rightarrow> ?J (res, v) | Inr u \<Rightarrow> ?K (res, v)"
  proof (rule Retry_rule [where J = ?J and K = ?K, OF _ _ _ _ run])
    fix y :: "'a option \<times> broker_world" and e y'
    assume y: "?J y" "call_fn (client_env f) y = (Some e, y')"
    obtain x where "rpc f (snd y) = (x, snd y')"
      using call_client_Some [OF y(2)] by blast
    with y(1) show "?J y'" using call by blast
  next
    fix d and y :: "'a option \<times> broker_world" and e y'
    assume "?J y" "wait_for (client_env f) d y = (e, y')"
    then show "?J y'" using wait_client tick by metis
  next
    fix y y' :: "'a option \<times> broker_world"
    assume y: "?J y" "call_fn (client_env f) y = (None, y')"
    obtain a where "rpc f (snd y) = (Inr a, snd y')" "fst y' = Some a"
      using call_client_None [OF y(2)] by blast
    with y(1) show "?K y'" using call by blast
  next
    show "?J (None, w)" using assms(3) by simp
  qed
  show ?thesis
  proof (cases r)
    case (Inl e)
    with fin show ?thesis using assms(4) run by (auto simp: client_call_eq)
  next
    case (Inr u)
    with fin obtain a where "res = Some a" "J v" "K a v" by auto
    then show ?thesis using assms(4) run Inr by (auto simp: client_call_eq)
  qed
qed

lemma client_call_rule:
  assumes step: "\<And>s r t. J s \<Longrightarrow> f s = (r, t) \<Longrightarrow> J t \<and> (\<forall>a. r = Inr a \<longrightarrow> K a t)"
    and "J (server_db w)" and "client_call f cb w = (x, cb', w')"
  shows "J (server_db w') \<and> (\<forall>a. x = Inr a \<longrightarrow> K a (server_db w'))"
proof (rule client_call_world [where J = "\<lambda>v. J (server_db v)" and K = "\<lambda>a v. K a (server_db v)"])
  fix v x v' assume v: "J (server_db v)" "rpc f v = (x, v')"
  show "J (server_db v') \<and> (\<forall>a. x = Inr a \<longrightarrow> K a (server_db v'))"
  proof (rule rpc_rule [of J f K])
    show "J t \<and> (\<forall>a. r = Inr a \<longrightarrow> K a t)" if "J s" "f s = (r, t)" for s r t
      using that by (rule step)
  qed (fact v)+
qed (use assms in simp_all)

section \<open>The contracts hold of the real backend\<close>

lemma ReserveInventory_takes:
  assumes "db_inv s" and "ReserveInventory req s = (r, t)"
  shows "\<exists>res. r = Inr res \<and> takes (stock s) (rq_BreadId req) (rs_QuantityFulfilled res) (stock t)
    \<and> takes (stock s) (rq_BreadId req) 0 (stock t)
    \<and> (Reserved res \<longrightarrow> 0 < rs_QuantityFulfilled res \<and> rs_QuantityFulfilled res \<le> rq_QuantityRequested req)"
proof -
  from ReserveInventory_cases [OF db_inv_bread [OF assms(1)] assms(2)] obtain res where res: "r = Inr res"
    "if Reserved res
     then reserved (stock s) (rq_BreadId req) (rq_QuantityRequested req) (rs_QuantityFulfilled res) (stock t)
     else rs_QuantityFulfilled res = 0 \<and>
       (stock t = stock s \<or> (\<exists>m. reserved (stock s) (rq_BreadId req) (rq_QuantityRequested req) m (stock t)))"
    by blast
  have less: "takes (stock s) i 0 (stock t)" if "reserved (stock s) i n m (stock t)" for i n m
    using reserved_takes [OF that] takes_less by force
  show ?thesis
    using res less reserved_takes by (fastforce split: if_splits)
qed

text \<open>What a call may have done to the stock since the state \<open>st\<close>.\<close>

definition took :: "(int \<Rightarrow> int option) \<Rightarrow> ReserveInventoryRequest \<Rightarrow> ReserveInventoryResult \<Rightarrow> db \<Rightarrow> bool" where
  "took st req res s \<longleftrightarrow> (if Reserved res
     then takes st (rq_BreadId req) (rs_QuantityFulfilled res) (stock s)
       \<and> 0 < rs_QuantityFulfilled res \<and> rs_QuantityFulfilled res \<le> rq_QuantityRequested req
     else True)"

lemma client_ReserveInventory_spec:
  assumes "sound w" and "client_ReserveInventory req w = (x, w')"
  shows "sound w' \<and> takes (on_hand w) (rq_BreadId req) 0 (on_hand w')
    \<and> (\<forall>res. x = Inr res \<longrightarrow> took (on_hand w) req res (server_db w'))"
proof -
  let ?J = "\<lambda>s. db_inv s \<and> takes (on_hand w) (rq_BreadId req) 0 (stock s)"
  obtain cb v where call: "client_call (ReserveInventory req) (reserveInventoryCB w) w = (x, cb, v)"
      and w': "server_db w' = server_db v"
    using assms(2) by (auto simp: client_ReserveInventory_def split: prod.splits)
  have "?J (server_db v) \<and> (\<forall>res. x = Inr res \<longrightarrow> took (on_hand w) req res (server_db v))"
  proof (rule client_call_rule [where J = ?J, OF _ _ call])
    fix s r t assume J: "?J s" and run: "ReserveInventory req s = (r, t)"
    from ReserveInventory_takes [OF conjunct1 [OF J] run] obtain res where res: "r = Inr res"
      "takes (stock s) (rq_BreadId req) (rs_QuantityFulfilled res) (stock t)"
      "takes (stock s) (rq_BreadId req) 0 (stock t)"
      "Reserved res \<longrightarrow> 0 < rs_QuantityFulfilled res \<and> rs_QuantityFulfilled res \<le> rq_QuantityRequested req"
      by blast
    have "db_inv t" using keepsD [OF keeps_ReserveInventory conjunct1 [OF J]] run by (metis snd_conv)
    moreover have "takes (on_hand w) (rq_BreadId req) (0 + rs_QuantityFulfilled res) (stock t)"
      "takes (on_hand w) (rq_BreadId req) (0 + 0) (stock t)"
      using J res(2,3) by (blast intro: takes_trans)+
    ultimately show "?J t \<and> (\<forall>a. r = Inr a \<longrightarrow> took (on_hand w) req a t)"
      using res by (simp add: took_def)
  next
    show "?J (server_db w)" using assms(1) by (simp add: sound_def on_hand_def)
  qed
  then show ?thesis using w' by (simp add: sound_def on_hand_def)
qed

lemma ReportMatchingResults_stock: "stock (snd (ReportMatchingResults ms s)) = stock s"
proof -
  have "keeps (\<lambda>x. stock x = stock s) (ReportMatchingResults ms)"
    unfolding ReportMatchingResults_def report_result_def insert_payload_def sql_update_order_def Let_def
    by (intro keeps_intros) (simp_all add: stock_def table_pred_def)
  then show ?thesis by (rule keepsD) simp
qed

lemma client_ReportMatchingResults_spec:
  assumes "sound w" and "client_ReportMatchingResults ms w = (x, w')"
  shows "sound w' \<and> on_hand w' = on_hand w"
proof -
  let ?J = "\<lambda>s. db_inv s \<and> stock s = on_hand w"
  obtain cb v where call: "client_call (ReportMatchingResults ms) (reportMatchingCB w) w = (x, cb, v)"
      and w': "server_db w' = server_db v"
    using assms(2) by (auto simp: client_ReportMatchingResults_def split: prod.splits)
  have "?J (server_db v) \<and> (\<forall>a. x = Inr a \<longrightarrow> True)"
  proof (rule client_call_rule [where J = ?J, OF _ _ call])
    fix s r t assume J: "?J s" and run: "ReportMatchingResults ms s = (r, t)"
    have "db_inv t" using keepsD [OF keeps_ReportMatchingResults conjunct1 [OF J]] run by (metis snd_conv)
    moreover have "stock t = stock s" using ReportMatchingResults_stock [of ms s] run by simp
    ultimately show "?J t \<and> (\<forall>a. r = Inr a \<longrightarrow> True)" using J by simp
  next
    show "?J (server_db w)" using assms(1) by (simp add: sound_def on_hand_def)
  qed
  then show ?thesis using w' by (simp add: sound_def on_hand_def)
qed

lemma channel_Publish_server [simp]: "server_db (snd (channel_Publish k j w)) = server_db w"
  by (auto simp: channel_Publish_def split: list.split bool.split)

interpretation engine: matching_engine newBrokerClient on_hand sound channel_Publish
proof unfold_locales
  fix w :: broker_world and req x w'
  assume w: "sound w" and call: "bc_ReserveInventory newBrokerClient req w = (x, w')"
  note spec = client_ReserveInventory_spec [OF w, of req x w'] call
  then show "sound w'" by (simp add: newBrokerClient_def)
  show "takes (on_hand w) (rq_BreadId req) 0 (on_hand w')"
    using spec by (simp add: newBrokerClient_def)
next
  fix w :: broker_world and req r w'
  assume "sound w" "bc_ReserveInventory newBrokerClient req w = (Inr r, w')" "Reserved r"
  then show "takes (on_hand w) (rq_BreadId req) (rs_QuantityFulfilled r) (on_hand w')
      \<and> 0 < rs_QuantityFulfilled r \<and> rs_QuantityFulfilled r \<le> rq_QuantityRequested req"
    using client_ReserveInventory_spec [of w req "Inr r" w']
    by (auto simp: newBrokerClient_def took_def on_hand_def)
next
  fix w :: broker_world and rs x w'
  assume "sound w" "bc_ReportMatchingResults newBrokerClient rs w = (x, w')"
  then show "sound w' \<and> on_hand w' = on_hand w"
    using client_ReportMatchingResults_spec [of w rs x w'] by (simp add: newBrokerClient_def)
qed (simp_all add: sound_def on_hand_def)

section \<open>Without faults\<close>

definition healthy :: "broker_world \<Rightarrow> bool" where
  "healthy w \<longleftrightarrow> db_inv (server_db w) \<and> faults (server_db w) = [] \<and> net w = []
     \<and> cb_state (reserveInventoryCB w) = StateClosed"

lemma closed_breaker: "cb_state b = StateClosed \<Longrightarrow> Allow t b = ((True, 0), b) \<and> RecordSuccess b = b"
  by (simp add: Allow_def RecordSuccess_def)

lemma client_ReserveInventory_healthy:
  assumes "healthy w"
  shows "\<exists>res w'. client_ReserveInventory req w = (Inr res, w') \<and> healthy w'
    \<and> gives_all (on_hand w) (\<lambda>j. if Reserved res \<and> j = rq_BreadId req then rs_QuantityFulfilled res else 0) (on_hand w')"
proof -
  from assms have inv: "db_inv (server_db w)" and calm: "faults (server_db w) = []" "net w = []"
    "cb_state (reserveInventoryCB w) = StateClosed" by (simp_all add: healthy_def)
  from ReserveInventory_no_fault [OF inv calm(1)] obtain res t
    where run: "ReserveInventory req (server_db w) = (Inr res, t)" "faults t = []" by blast
  let ?w = "w\<lparr>server_db := t\<rparr>"
  have "call_fn (client_env (ReserveInventory req)) (None, w) = (None, (Some res, ?w))"
    using calm(2) run(1) by (simp add: client_env_def rpc_def on_server_def)
  moreover have "clock (client_env (ReserveInventory req)) (None, w) = now_ns w"
    by (simp add: client_env_def)
  ultimately have "Retry_result DefaultRetryConfig (client_env (ReserveInventory req)) (Some (reserveInventoryCB w)) (None, w)
      = (Inr (), Some (reserveInventoryCB w), (Some res, ?w))"
    using closed_breaker [OF calm(3), of "now_ns w"]
      Retry_first [of DefaultRetryConfig "client_env (ReserveInventory req)" "(None, w)" "reserveInventoryCB w" 0
        "reserveInventoryCB w" "(Some res, ?w)"]
    by (simp add: DefaultRetryConfig_def)
  then have call: "client_ReserveInventory req w = (Inr res, ?w)"
    by (simp add: client_ReserveInventory_def client_call_eq)
  have "db_inv t" using keepsD [OF keeps_ReserveInventory inv, of req] run(1) by simp
  moreover have "gives_all (stock (server_db w))
      (\<lambda>j. if Reserved res \<and> j = rq_BreadId req then rs_QuantityFulfilled res else 0) (stock t)"
  proof (cases "Reserved res")
    case True
    then have "reserved (stock (server_db w)) (rq_BreadId req) (rq_QuantityRequested req) (rs_QuantityFulfilled res) (stock t)"
      using ReserveInventory_cases [OF db_inv_bread [OF inv] run(1)] by simp
    then obtain q where "stock (server_db w) (rq_BreadId req) = Some q"
      "stock t = (stock (server_db w))(rq_BreadId req \<mapsto> q - rs_QuantityFulfilled res)"
      unfolding reserved_def by blast
    then show ?thesis
      using True gives_all_update [of "stock (server_db w)" "rq_BreadId req" q "rs_QuantityFulfilled res"] by simp
  next
    case False
    then show ?thesis using ReserveInventory_refused_stock [OF inv calm(1) run(1)] by simp
  qed
  ultimately show ?thesis
    using call run(2) calm by (intro exI [of _ res] exI [of _ ?w]) (simp add: healthy_def on_hand_def)
qed

text \<open>Nothing brings faults into a schedule that has none.\<close>

definition no_faults :: "db \<Rightarrow> bool" where
  "no_faults s \<longleftrightarrow> faults s = []"

lemma keeps_no_faults_stmt: "keeps no_faults f \<Longrightarrow> keeps no_faults (stmt f)"
  by (simp add: keeps_def no_faults_def stmt_no_fault)

lemma keeps_no_faults_transaction:
  assumes "keeps no_faults body"
  shows "keeps no_faults (transaction wb wc body)"
proof (rule keepsI)
  fix s assume s: "no_faults s"
  then have "no_faults (snd (body s))" using assms by (simp add: keeps_def)
  with s show "no_faults (snd (transaction wb wc body s))"
    by (auto simp: transaction_no_fault no_faults_def split: prod.split sum.split)
qed

lemma keeps_no_faults_ReportMatchingResults: "keeps no_faults (ReportMatchingResults ms)"
proof -
  have upd: "keeps no_faults (sql_update_order P g)" for P g
    by (simp add: sql_update_order_def keeps_def guarded_def no_faults_def split: option.split)
  have ins: "keeps no_faults (insert_payload j)" for j
    unfolding insert_payload_def Let_def
    by (intro keeps_no_faults_stmt keeps_seq keeps_query)
      (simp_all add: keeps_def nextval_def guarded_def no_faults_def split: option.split)
  show ?thesis
    unfolding ReportMatchingResults_def report_result_def
    by (intro keeps_attempt keeps_no_faults_transaction keeps_for_each keeps_no_faults_stmt upd ins keeps_fail keeps_ret)
qed

lemma client_ReportMatchingResults_healthy:
  assumes "healthy w" and "client_ReportMatchingResults ms w = (x, w')"
  shows "healthy w' \<and> on_hand w' = on_hand w"
proof -
  let ?J = "\<lambda>v. healthy v \<and> on_hand v = on_hand w"
  obtain cb v where call: "client_call (ReportMatchingResults ms) (reportMatchingCB w) w = (x, cb, v)"
      and w': "w' = v\<lparr>reportMatchingCB := (case cb of None \<Rightarrow> reportMatchingCB w | Some b \<Rightarrow> b)\<rparr>"
    using assms(2) by (auto simp: client_ReportMatchingResults_def split: prod.splits)
  have "?J v \<and> (\<forall>a. x = Inr a \<longrightarrow> True)"
  proof (rule client_call_world [where J = ?J, OF _ _ _ call])
    fix u y u' assume J: "?J u" and run: "rpc (ReportMatchingResults ms) u = (y, u')"
    then have u': "u' = u\<lparr>server_db := snd (ReportMatchingResults ms (server_db u))\<rparr>"
      by (auto simp: rpc_def on_server_def healthy_def split: prod.splits)
    have "db_inv (snd (ReportMatchingResults ms (server_db u)))"
      using J by (intro keepsD [OF keeps_ReportMatchingResults]) (simp add: healthy_def)
    moreover have "no_faults (snd (ReportMatchingResults ms (server_db u)))"
      using J by (intro keepsD [OF keeps_no_faults_ReportMatchingResults]) (simp add: healthy_def no_faults_def)
    ultimately show "?J u' \<and> (\<forall>a. y = Inr a \<longrightarrow> True)"
      using J by (simp add: u' healthy_def on_hand_def no_faults_def ReportMatchingResults_stock)
  qed (use assms(1) in \<open>simp_all add: healthy_def on_hand_def\<close>)
  then show ?thesis by (simp add: w' healthy_def on_hand_def)
qed

lemma channel_Publish_rest [simp]:
  "net (snd (channel_Publish k j w)) = net w"
  "reserveInventoryCB (snd (channel_Publish k j w)) = reserveInventoryCB w"
  by (auto simp: channel_Publish_def split: list.split bool.split)

lemma healthy_sound: "healthy w \<Longrightarrow> sound w"
  by (simp add: healthy_def sound_def)

interpretation calm_engine: reliable_engine newBrokerClient on_hand healthy channel_Publish
proof unfold_locales
  fix w :: broker_world and req x w'
  assume w: "healthy w" and call: "bc_ReserveInventory newBrokerClient req w = (x, w')"
  show "healthy w'"
    using client_ReserveInventory_healthy [OF w, of req] call by (auto simp: newBrokerClient_def)
  show "\<exists>r. x = Inr r \<and> gives_all (on_hand w)
      (\<lambda>j. if Reserved r \<and> j = rq_BreadId req then rs_QuantityFulfilled r else 0) (on_hand w')"
    using client_ReserveInventory_healthy [OF w, of req] call by (auto simp: newBrokerClient_def)
  show "takes (on_hand w) (rq_BreadId req) 0 (on_hand w')"
    using engine.reserve_no [OF healthy_sound [OF w] call]
      client_ReserveInventory_spec [OF healthy_sound [OF w], of req x w'] call
    by (simp add: newBrokerClient_def)
next
  fix w :: broker_world and req r w'
  assume "healthy w" "bc_ReserveInventory newBrokerClient req w = (Inr r, w')" "Reserved r"
  then show "takes (on_hand w) (rq_BreadId req) (rs_QuantityFulfilled r) (on_hand w')
      \<and> 0 < rs_QuantityFulfilled r \<and> rs_QuantityFulfilled r \<le> rq_QuantityRequested req"
    using engine.reserve_yes [OF healthy_sound] by blast
next
  fix w :: broker_world and rs x w'
  assume "healthy w" "bc_ReportMatchingResults newBrokerClient rs w = (x, w')"
  then show "healthy w' \<and> on_hand w' = on_hand w"
    using client_ReportMatchingResults_healthy [of w rs x w'] by (simp add: newBrokerClient_def)
qed (simp_all add: healthy_def on_hand_def)

section \<open>Claims\<close>

definition batch_results :: "BuyOrder list \<Rightarrow> broker_world \<Rightarrow> MatchingBatchResult list" where
  "batch_results orders w = fst (fulfill_all (go_sort priority_less orders) channel_Publish newBrokerClient w)"

lemma batch_end:
  assumes "sound w"
  shows "\<exists>w1. fulfill_all (go_sort priority_less orders) channel_Publish newBrokerClient w = (batch_results orders w, w1)
    \<and> sound (processMatchingBatch orders channel_Publish newBrokerClient w)
    \<and> on_hand (processMatchingBatch orders channel_Publish newBrokerClient w) = on_hand w1"
proof -
  obtain ms w1 where run: "fulfill_all (go_sort priority_less orders) channel_Publish newBrokerClient w = (ms, w1)"
    by (cases "fulfill_all (go_sort priority_less orders) channel_Publish newBrokerClient w")
  have w1: "sound w1" using engine.fulfill_all_items [OF assms run] by blast
  show ?thesis
  proof (cases "orders = []")
    case True
    then show ?thesis using assms run by (simp add: processMatchingBatch_def batch_results_def go_sort_def)
  next
    case False
    have "sound (snd (bc_ReportMatchingResults newBrokerClient ms w1))
        \<and> on_hand (snd (bc_ReportMatchingResults newBrokerClient ms w1)) = on_hand w1"
      using engine.report_good [OF w1, of ms] by (metis prod.collapse)
    then show ?thesis using False run w1 by (simp add: processMatchingBatch_def batch_results_def)
  qed
qed

text \<open>
  C1: no overselling: whatever requests and replies are lost, between the broker and the server
  and between the server and its database, for every bread the units that a batch reports as
  fulfilled are at most what left the stock, and the stock never falls below zero.
\<close>

theorem batch_never_oversells:
  assumes "db_inv (server_db w)"
  shows "case stock (server_db w) i of
      None \<Rightarrow> sold (concat (map mr_Items (batch_results orders w))) i = 0
    | Some q \<Rightarrow> \<exists>r. stock (server_db (processMatchingBatch orders channel_Publish newBrokerClient w)) i = Some r
        \<and> 0 \<le> r \<and> sold (concat (map mr_Items (batch_results orders w))) i \<le> q - r"
proof -
  let ?w' = "processMatchingBatch orders channel_Publish newBrokerClient w"
  have w: "sound w" using assms by (simp add: sound_def)
  from batch_end [OF w, of orders] obtain w1
    where run: "fulfill_all (go_sort priority_less orders) channel_Publish newBrokerClient w = (batch_results orders w, w1)"
      and fin: "sound ?w'" "on_hand ?w' = on_hand w1" by blast
  have "takes_all (on_hand w) (sold (concat (map mr_Items (batch_results orders w)))) (on_hand ?w')"
    using engine.fulfill_all_items [OF w run] fin(2) by simp
  then have "case stock (server_db w) i of
      None \<Rightarrow> sold (concat (map mr_Items (batch_results orders w))) i = 0 \<and> stock (server_db ?w') i = None
    | Some q \<Rightarrow> \<exists>r. stock (server_db ?w') i = Some r \<and> r \<le> q - sold (concat (map mr_Items (batch_results orders w))) i"
    unfolding takes_all_def on_hand_def by (rule spec)
  moreover have "0 \<le> r" if "stock (server_db ?w') i = Some r" for r
    using fin(1) that stock_nonneg [OF db_inv_bread] by (auto simp: sound_def)
  ultimately show ?thesis by (fastforce split: option.splits)
qed

text \<open>
  C2: the books balance when nothing is lost: with a healthy network, database and breaker the
  stock of every bread after a batch is the stock before it less exactly the units that the
  batch reports as fulfilled.
\<close>

theorem batch_conserves_stock:
  assumes "healthy w"
  shows "stock (server_db (processMatchingBatch orders channel_Publish newBrokerClient w)) i
    = map_option (\<lambda>q. q - sold (concat (map mr_Items (batch_results orders w))) i) (stock (server_db w) i)"
proof -
  from batch_end [OF healthy_sound [OF assms], of orders] obtain w1
    where run: "fulfill_all (go_sort priority_less orders) channel_Publish newBrokerClient w = (batch_results orders w, w1)"
      and fin: "on_hand (processMatchingBatch orders channel_Publish newBrokerClient w) = on_hand w1" by blast
  show ?thesis
    using calm_engine.fulfill_all_exact [OF assms run] fin by (simp add: gives_all_def on_hand_def fun_eq_iff)
qed

text \<open>
  Every bread of an order gets one item in the result, in order, with what was asked and at
  most that as fulfilled, and the order is reported as processed exactly when every item was
  fulfilled in full.
\<close>

theorem fulfillOrder_reports:
  assumes "db_inv (server_db w)" and "fulfillOrder order channel_Publish newBrokerClient w = (m, w')"
    and "\<forall>b \<in> set (o_Breads order). 0 < b_Quantity b \<and> is_int32 (b_Quantity b)" and "o_Breads order \<noteq> []"
    and "sum_list (map b_Quantity (o_Breads order)) < 9223372036854775808"
  shows "mr_BuyOrderUuid m = o_BuyOrderUUID order \<and> list_all2 item_for (o_Breads order) (mr_Items m)
    \<and> (mr_OrderStatus m = ''processed'' \<longleftrightarrow>
         (\<forall>x \<in> set (mr_Items m). mi_QuantityFulfilled x = mi_QuantityRequested x))"
proof -
  have w: "sound w" using assms(1) by (simp add: sound_def)
  show ?thesis
    using engine.fulfillOrder_items [OF w assms(2)] engine.fulfillOrder_status [OF w assms(2-5)] by blast
qed

text \<open>
  A delivery is acknowledged or put back, never lost before the server has answered: it goes
  back to the queue exactly when the server could not be reached or failed, and an order enters
  the buffer exactly when the server accepted it.
\<close>

theorem processOneOrder_ack:
  "processOneOrder body bc buf w =
     (case dec_BuyOrder body of
        None \<Rightarrow> (Ack, buf, w)
      | Some order \<Rightarrow>
          (case bc_ReportOrder bc (dataToProtoBuyOrder order) w of (r, w') \<Rightarrow>
             (if \<exists>e. r = Inl e then NackRequeue else Ack,
              if \<exists>res. r = Inr res \<and> Accepted res
              then buf @ [order\<lparr>o_ID := if int32 (o_ID order) \<le> 0 then OrderId (projr r) else o_ID order\<rparr>]
              else buf, w')))"
  by (auto simp: processOneOrder_def buffer_add_def split: option.split prod.split sum.split)

definition two_loaves :: BuyOrder where
  "two_loaves = zero_BuyOrder\<lparr>o_CustomerID := 1, o_BuyOrderUUID := ''u1'', o_Breads := [ordered_bread 1 2]\<rparr>"

definition broker_ready :: broker_world where
  "broker_ready = new_broker sample_db"

lemma broker_ready_healthy: "healthy broker_ready"
  by code_simp

lemma two_loaves_run:
  "fulfillOrder two_loaves channel_Publish newBrokerClient broker_ready =
     (fst (fulfillOrder two_loaves channel_Publish newBrokerClient broker_ready),
      snd (fulfillOrder two_loaves channel_Publish newBrokerClient broker_ready))"
  by simp

text \<open>The reply to the first reservation is lost; the retry reserves again.\<close>

definition broker_lossy :: broker_world where
  "broker_lossy = broker_ready\<lparr>net := [LostReply]\<rparr>"

theorem batch_never_oversells_witness:
  "\<exists>r. stock (server_db (processMatchingBatch [two_loaves] channel_Publish newBrokerClient broker_lossy)) 1 = Some r
     \<and> 0 \<le> r \<and> 2 \<le> 5 - r"
proof -
  have "db_inv (server_db broker_lossy)" by code_simp
  moreover have "stock (server_db broker_lossy) 1 = Some 5" by code_simp
  moreover have "sold (concat (map mr_Items (batch_results [two_loaves] broker_lossy))) 1 = 2"
    by code_simp
  ultimately show ?thesis
    using batch_never_oversells [of broker_lossy "[two_loaves]" 1] by simp
qed

theorem batch_conserves_stock_witness:
  "stock (server_db (processMatchingBatch [two_loaves] channel_Publish newBrokerClient broker_ready)) 1 = Some 3"
proof -
  have "stock (server_db broker_ready) 1 = Some 5" by code_simp
  moreover have "sold (concat (map mr_Items (batch_results [two_loaves] broker_ready))) 1 = 2"
    by code_simp
  ultimately show ?thesis
    using batch_conserves_stock [OF broker_ready_healthy, of "[two_loaves]" 1] by simp
qed

theorem fulfillOrder_reports_witness:
  "mr_OrderStatus (fst (fulfillOrder two_loaves channel_Publish newBrokerClient broker_ready)) = ''processed'' \<longleftrightarrow>
     (\<forall>x \<in> set (mr_Items (fst (fulfillOrder two_loaves channel_Publish newBrokerClient broker_ready))).
        mi_QuantityFulfilled x = mi_QuantityRequested x)"
proof -
  have "\<forall>b \<in> set (o_Breads two_loaves). 0 < b_Quantity b \<and> is_int32 (b_Quantity b)" "o_Breads two_loaves \<noteq> []"
    "sum_list (map b_Quantity (o_Breads two_loaves)) < 9223372036854775808"
    by (simp_all add: two_loaves_def ordered_bread_def is_int32_def)
  moreover have "db_inv (server_db broker_ready)" by code_simp
  ultimately show ?thesis
    using fulfillOrder_reports [OF _ two_loaves_run] by blast
qed

section \<open>A reply that is lost\<close>

text \<open>A closed breaker that one more failure does not open.\<close>

definition tolerates_one :: "CircuitBreaker \<Rightarrow> bool" where
  "tolerates_one b \<longleftrightarrow> cb_state b = StateClosed \<and> 0 \<le> failureCount b \<and> failureCount b + 1 < failureThreshold b
     \<and> is_int64 (failureThreshold b)"

text \<open>When the reply to a call is lost the method has run once, and the retry runs it again.\<close>

lemma client_call_lost_reply:
  assumes "net w = [LostReply]" and "tolerates_one b"
    and "f (server_db w) = (x, t)" and "f t = (Inr a, u)"
  shows "\<exists>cb w'. client_call f b w = (Inr a, cb, w') \<and> server_db w' = u"
proof -
  let ?w1 = "w\<lparr>net := [], server_db := t\<rparr>"
  let ?b1 = "RecordFailure (now_ns w) b"
  have four: "nat (MaxRetries DefaultRetryConfig + 1) = Suc (Suc 2)" by (simp add: DefaultRetryConfig_def)
  have first: "call_fn (client_env f) (None, w) = (Some Unavailable, (None, ?w1))"
    using assms(1,3) by (simp add: client_env_def rpc_def on_server_def)
  have second: "call_fn (client_env f) (None, ?w1\<lparr>now_ns := now_ns w + max 0 d\<rparr>)
      = (None, (Some a, ?w1\<lparr>now_ns := now_ns w + max 0 d, server_db := u\<rparr>))" for d
    using assms(4) by (simp add: client_env_def rpc_def on_server_def)
  have clocks: "clock (client_env f) (r, v) = now_ns v" and waits: "wait_for (client_env f) d (r, v)
      = (None, (r, v\<lparr>now_ns := now_ns v + max 0 d\<rparr>))" for r v d
    by (simp_all add: client_env_def)
  have "cb_state ?b1 = StateClosed"
    using assms(2) by (simp add: RecordFailure_def tolerates_one_def is_int64_def)
  then have gates: "Allow v b = ((True, 0), b)" "Allow v ?b1 = ((True, 0), ?b1)" "RecordSuccess ?b1 = ?b1" for v
    using closed_breaker assms(2) by (auto simp: tolerates_one_def)
  have "(0 :: int) < MaxRetries DefaultRetryConfig" by (simp add: DefaultRetryConfig_def)
  then have "retry_loop (Suc (Suc m)) DefaultRetryConfig (client_env f) 0 d None (Some b) (None, w)
      = (Inr (), Some ?b1, (Some a, ?w1\<lparr>now_ns := now_ns w + max 0 d, server_db := u\<rparr>))" for m d
    using second [of d] by (simp add: first clocks waits gates Let_def)
  then have "Retry_result DefaultRetryConfig (client_env f) (Some b) (None, w)
      = (Inr (), Some ?b1, (Some a, ?w1\<lparr>now_ns := now_ns w + max 0 (BaseDelay DefaultRetryConfig), server_db := u\<rparr>))"
    unfolding Retry_result_def four .
  then show ?thesis by (simp add: client_call_eq)
qed

text \<open>
  C25: A reservation is not idempotent: with a healthy database and a breaker that tolerates a failure, when
  the one reply that gets lost is that to a reservation of \<open>q\<close> of a bread of which there are more than
  \<open>q\<close>, the retry reserves a second time: it is granted what is asked, as far as the rest goes, and the \<open>q\<close>
  units of the first are gone from the stock without being reported to any order.
\<close>

theorem reservation_retry_deducts_twice:
  assumes "net w = [LostReply]" and "tolerates_one (reserveInventoryCB w)"
    and "db_inv (server_db w)" and "faults (server_db w) = []"
    and "on_hand w i = Some n" and "0 < q" and "q < n"
  shows "\<exists>res w'. client_ReserveInventory \<lparr>rq_BreadId = i, rq_QuantityRequested = q, rq_BuyOrderUuid = u\<rparr> w = (Inr res, w')
    \<and> Reserved res \<and> rs_QuantityFulfilled res = min q (n - q) \<and> on_hand w' i = Some (n - q - min q (n - q))"
proof -
  let ?req = "\<lparr>rq_BreadId = i, rq_QuantityRequested = q, rq_BuyOrderUuid = u\<rparr>"
  have one: "\<exists>res t. ReserveInventory ?req s = (Inr res, t) \<and> faults t = [] \<and> db_inv t \<and> Reserved res
      \<and> rs_QuantityFulfilled res = min k q \<and> stock t i = Some (k - min k q)"
    if s: "db_inv s" "faults s = []" "stock s i = Some k" "0 < k" for s k
  proof -
    let ?res = "\<lparr>Reserved = True, rs_QuantityFulfilled = min k q, rs_Message = ''reserved''\<rparr>"
    obtain t where t: "faults t = []" "ReserveInventory ?req s = (Inr ?res, t)"
      using ReserveInventory_no_fault [OF s(1,2), of ?req] s(3,4) assms(6) by auto
    moreover have "db_inv t" using keepsD [OF keeps_ReserveInventory s(1), of ?req] t(2) by simp
    moreover have "stock t i = Some (k - min k q)"
      using ReserveInventory_cases [OF db_inv_bread [OF s(1)] t(2)] s(3) by (auto simp: reserved_def)
    ultimately show ?thesis by auto
  qed
  obtain r1 t where t: "ReserveInventory ?req (server_db w) = (Inr r1, t)" "faults t = []" "db_inv t" "stock t i = Some (n - q)"
    using one [OF assms(3,4), of n] assms(5-7) by (auto simp: on_hand_def min_def)
  obtain r2 v where v: "ReserveInventory ?req t = (Inr r2, v)" "Reserved r2"
      "rs_QuantityFulfilled r2 = min (n - q) q" "stock v i = Some (n - q - min (n - q) q)"
    using one [OF t(3,2,4)] assms(7) by auto
  obtain cb w' where "client_call (ReserveInventory ?req) (reserveInventoryCB w) w = (Inr r2, cb, w')" "server_db w' = v"
    using client_call_lost_reply [OF assms(1,2) t(1) v(1)] by blast
  then show ?thesis using v by (simp add: client_ReserveInventory_def on_hand_def min.commute)
qed

theorem reservation_retry_deducts_twice_witness:
  "\<exists>res w'. client_ReserveInventory \<lparr>rq_BreadId = 1, rq_QuantityRequested = 2, rq_BuyOrderUuid = ''u1''\<rparr> broker_lossy = (Inr res, w')
    \<and> rs_QuantityFulfilled res = 2 \<and> on_hand w' 1 = Some 1"
proof -
  have "net broker_lossy = [LostReply]" "tolerates_one (reserveInventoryCB broker_lossy)" "db_inv (server_db broker_lossy)"
    "faults (server_db broker_lossy) = []" "on_hand broker_lossy 1 = Some 5" by code_simp+
  then show ?thesis using reservation_retry_deducts_twice [of broker_lossy 1 5 2 "''u1''"] by auto
qed

text \<open>
  C26: An order can be lost for matching: take any order the server would accept, a breaker that tolerates a
  failure, and let the reply to \<open>ReportOrder\<close>, and nothing else, be lost. Then the server has stored the
  order as processing, the retry of the client is told duplicate, and the broker acknowledges the
  delivery without buffering the order.
\<close>

theorem lost_reply_loses_order:
  assumes "net w = [LostReply]" and "tolerates_one (reportOrderCB w)" and "dec_BuyOrder body = Some order"
    and "ReportOrder (dataToProtoBuyOrder order) (server_db w) = (Inr res, t)" and "Accepted res" and "faults t = []"
  shows "\<exists>w'. processOneOrder body newBrokerClient buf w = (Ack, buf, w') \<and> server_db w' = t
    \<and> (\<exists>r \<in> set (buy_order_t t). bo_uuid r = o_BuyOrderUUID order \<and> bo_status r = ''processing'')"
proof -
  let ?req = "dataToProtoBuyOrder order"
  have uuid: "pb_BuyOrderUuid ?req = o_BuyOrderUUID order" by (simp add: dataToProtoBuyOrder_def)
  obtain ord where "GetBuyOrderByUUID (pb_BuyOrderUuid ?req) t = (Inr ord, t)"
    using load_existing [OF assms(6) ReportOrder_stored [OF assms(4,5)]] by blast
  then have dup: "ReportOrder ?req t = (Inr \<lparr>Accepted = False, OrderId = 0, Message = ''duplicate''\<rparr>, t)"
    by (simp add: ReportOrder_def attempt_apply)
  obtain cb w' where "client_call (ReportOrder ?req) (reportOrderCB w) w
      = (Inr \<lparr>Accepted = False, OrderId = 0, Message = ''duplicate''\<rparr>, cb, w')" "server_db w' = t"
    using client_call_lost_reply [OF assms(1,2,4) dup] by blast
  then show ?thesis
    using assms(3) ReportOrder_processing [OF assms(4,5)] uuid
    by (simp add: processOneOrder_def newBrokerClient_def client_ReportOrder_def)
qed

theorem lost_reply_loses_order_witness:
  "\<exists>body w. enc_BuyOrder two_loaves = Some body \<and> processOneOrder body newBrokerClient [] broker_lossy = (Ack, [], w)
     \<and> (\<exists>r \<in> set (buy_order_t (server_db w)). bo_uuid r = ''u1'' \<and> bo_status r = ''processing'')"
proof -
  obtain body where body: "enc_BuyOrder two_loaves = Some body" "dec_BuyOrder body = Some two_loaves"
    using dec_enc_BuyOrder [of two_loaves]
    by (auto simp: BuyOrder_ok_def two_loaves_def zero_BuyOrder_def zero_Customer_def ordered_bread_def
        zero_Bread_def Bread_ok_def is_int64_def)
  let ?p = "ReportOrder (dataToProtoBuyOrder two_loaves) (server_db broker_lossy)"
  have w: "net broker_lossy = [LostReply]" "tolerates_one (reportOrderCB broker_lossy)" "faults (snd ?p) = []" by code_simp+
  have "fst ?p = Inr \<lparr>Accepted = True, OrderId = 1, Message = ''accepted''\<rparr>" by code_simp
  then have "?p = (Inr \<lparr>Accepted = True, OrderId = 1, Message = ''accepted''\<rparr>, snd ?p)" by (rule result_eq)
  from lost_reply_loses_order [OF w(1,2) body(2) this _ w(3), of "[]"]
  obtain v where "processOneOrder body newBrokerClient [] broker_lossy = (Ack, [], v)" "server_db v = snd ?p"
      "\<exists>r \<in> set (buy_order_t (snd ?p)). bo_uuid r = o_BuyOrderUUID two_loaves \<and> bo_status r = ''processing''" by auto
  moreover have "o_BuyOrderUUID two_loaves = ''u1''" by (simp add: two_loaves_def)
  ultimately show ?thesis using body(1) by metis
qed

end
