(* ===== verification/BrokerProcess.thy ===== *)
theory BrokerProcess
  imports BrokerClient
begin

text \<open>
  The broker as a process (\<open>broker/main.go\<close>, \<open>broker/matching.go\<close>): the consumer that fills the buffer and the
  matching loop that empties it, each with its own connection to RabbitMQ, as a step relation. A
  delivery is one step; a batch is taken in one step, and then every item of every order, the end of
  every order and the report to the server are steps of their own, so that deliveries and everybody
  else come in between.
\<close>

section \<open>The process\<close>

datatype consumer_pc = Consuming | Reconnecting | ConsumerGone

text \<open>
  Where the matching loop is: waiting for its ticker; in \<open>processMatchingBatch\<close>, with the orders left and
  the results so far; or in \<open>fulfillOrder\<close>, with the order, the breads left of it and its items so far,
  the orders after it and the results before it.
\<close>

datatype engine_pc =
    Idle
  | AtOrder "BuyOrder list" "MatchingBatchResult list"
  | AtItem BuyOrder "Bread list" match_state "BuyOrder list" "MatchingBatchResult list"

text \<open>
  The last three fields are not in the code: the orders the server accepted from the broker, in the
  order of their deliveries; the batches that were taken from the buffer; the results of the orders.
\<close>

record broker_service =
  bworld :: broker_world
  buffer :: orderBuffer
  consumer :: consumer_pc
  channel_open :: bool \<comment> \<open>the matching loop's channel, opened once\<close>
  matching :: bool \<comment> \<open>the matching loop runs\<close>
  engine_at :: engine_pc
  stopped :: bool \<comment> \<open>\<open>stopCh\<close> is closed or the context done\<close>
  taken :: "BuyOrder list"
  batches :: "BuyOrder list list"
  results :: "MatchingBatchResult list"

text \<open>
  \<open>declareQueues\<close>: the queues, and how far it gets when an operation fails (connection, channel, and
  a declaration for each queue).
\<close>

definition broker_queues :: "string list" where
  "broker_queues = [''buy-bread-order'', ''bread-bought'']"

definition declareQueues :: "bool list \<Rightarrow> bool \<times> string list" where
  "declareQueues fails =
     (let n = length (takeWhile Not (take 4 fails @ replicate (4 - length fails) False))
      in (n < 4, take (n - 2) broker_queues))"

text \<open>
  \<open>startMatchingEngine\<close>: without a connection or a channel of its own the matching loop is not
  started, and the consumer is not either.
\<close>

definition startMatchingEngine :: "bool \<Rightarrow> broker_world \<Rightarrow> broker_service" where
  "startMatchingEngine up w = \<lparr>bworld = w, buffer = [], consumer = (if up then Reconnecting else ConsumerGone),
     channel_open = up, matching = up, engine_at = Idle, stopped = False, taken = [], batches = [], results = []\<rparr>"

text \<open>
  \<open>Start\<close> ends the process (\<open>None\<close>) when the queues cannot be declared; \<open>Stop\<close> has an effect once. Every
  ten seconds \<open>logCircuitStates\<close> logs the breakers that are not closed.
\<close>

definition broker_Start :: "bool list \<Rightarrow> bool \<Rightarrow> broker_world \<Rightarrow> broker_service option" where
  "broker_Start fails up w = (if fst (declareQueues fails) then None else Some (startMatchingEngine up w))"

definition broker_Stop :: "broker_service \<Rightarrow> broker_service" where
  "broker_Stop s = (if stopped s then s else s\<lparr>stopped := True\<rparr>)"

definition breakers :: "broker_world \<Rightarrow> (string \<times> CircuitBreaker) list" where
  "breakers w = [(''report_order'', reportOrderCB w), (''reserve_inventory'', reserveInventoryCB w),
     (''report_matching'', reportMatchingCB w)]"

definition logCircuitStates :: "broker_world \<Rightarrow> (string \<times> State) list" where
  "logCircuitStates w = map (\<lambda>(name, cb). (name, cb_state cb)) (filter (\<lambda>(name, cb). cb_state cb \<noteq> StateClosed) (breakers w))"

lemma started_has_queues: "broker_Start fails up w = Some s \<Longrightarrow> snd (declareQueues fails) = broker_queues"
  by (auto simp: broker_Start_def declareQueues_def Let_def broker_queues_def not_less split: if_splits)

text \<open>Publishing on a channel that is closed fails without reaching anybody.\<close>

definition match_publisher :: "bool \<Rightarrow> broker_world publisher" where
  "match_publisher up = (if up then channel_Publish else (\<lambda>key body w. (True, w)))"

text \<open>The order of a delivery as it is matched, when the server accepts it.\<close>

definition accepted_order :: "json \<Rightarrow> broker_world \<Rightarrow> BuyOrder list" where
  "accepted_order body w =
     (case dec_BuyOrder body of
        None \<Rightarrow> []
      | Some order \<Rightarrow>
          (case fst (bc_ReportOrder newBrokerClient (dataToProtoBuyOrder order) w) of
             Inl err \<Rightarrow> []
           | Inr answer \<Rightarrow>
               if \<not> Accepted answer then []
               else [if int32 (o_ID order) \<le> 0 then order\<lparr>o_ID := OrderId answer\<rparr> else order]))"

text \<open>A delivery (\<open>performBuyBread\<close>).\<close>

definition intake :: "json \<Rightarrow> broker_service \<Rightarrow> broker_service" where
  "intake body s =
     (case processOneOrder body newBrokerClient (buffer s) (bworld s) of
        (a, orders, w) \<Rightarrow> s\<lparr>buffer := orders, bworld := w, taken := taken s @ accepted_order body (bworld s)\<rparr>)"

text \<open>
  The ticker or a full buffer (\<open>matchLoop\<close>): the buffer is drained, and the batch sorted.
\<close>

definition start_batch :: "broker_service \<Rightarrow> broker_service" where
  "start_batch s =
     (case buffer_drain (buffer s) of
        (batch, rest) \<Rightarrow> s\<lparr>buffer := rest, engine_at := AtOrder (go_sort priority_less batch) [],
           batches := batches s @ [batch]\<rparr>)"

text \<open>
  One step of \<open>processMatchingBatch\<close>: an order begins, an item of it is reserved, the order ends with its
  result published, or the results are reported when no order is left.
\<close>

definition match_next :: "broker_service \<Rightarrow> broker_service" where
  "match_next s =
     (case engine_at s of
        Idle \<Rightarrow> s
      | AtOrder [] rs \<Rightarrow>
          s\<lparr>engine_at := Idle, bworld := (if rs = [] then bworld s
             else snd (bc_ReportMatchingResults newBrokerClient rs (bworld s)))\<rparr>
      | AtOrder (order # orders) rs \<Rightarrow> s\<lparr>engine_at := AtItem order (o_Breads order) zero_match orders rs\<rparr>
      | AtItem order (bread # breads) a orders rs \<Rightarrow>
          (case match_item newBrokerClient order bread a (bworld s) of
             (a', w) \<Rightarrow> s\<lparr>engine_at := AtItem order breads a' orders rs, bworld := w\<rparr>)
      | AtItem order [] a orders rs \<Rightarrow>
          (case conclude_order order a (match_publisher (channel_open s)) (bworld s) of
             (r, w) \<Rightarrow> s\<lparr>engine_at := AtOrder orders (rs @ [r]), bworld := w, results := results s @ [r]\<rparr>))"

text \<open>
  \<open>others\<close> is everybody else: the server, time, the network. The consumer looks at \<open>stopped\<close> between
  connections only; the matching loop whenever it is between batches.
\<close>

inductive broker_step :: "broker_service \<Rightarrow> broker_service \<Rightarrow> bool" where
  deliver: "consumer s = Consuming \<Longrightarrow> broker_step s (intake body s)"
| lost: "consumer s = Consuming \<Longrightarrow> broker_step s (s\<lparr>consumer := Reconnecting\<rparr>)"
| reconnect: "consumer s = Reconnecting \<Longrightarrow> \<not> stopped s \<Longrightarrow> broker_step s (s\<lparr>consumer := Consuming\<rparr>)"
| consumer_stops: "consumer s = Reconnecting \<Longrightarrow> stopped s \<Longrightarrow> broker_step s (s\<lparr>consumer := ConsumerGone\<rparr>)"
| channel_lost: "broker_step s (s\<lparr>channel_open := False\<rparr>)"
| tick: "matching s \<Longrightarrow> engine_at s = Idle \<Longrightarrow> buffer s \<noteq> [] \<Longrightarrow> broker_step s (start_batch s)"
| full: "matching s \<Longrightarrow> engine_at s = Idle \<Longrightarrow> matchBatchSize \<le> buffer_len (buffer s) \<Longrightarrow> broker_step s (start_batch s)"
| matches: "engine_at s \<noteq> Idle \<Longrightarrow> broker_step s (match_next s)"
| stop: "broker_step s (s\<lparr>stopped := True\<rparr>)"
| match_stops: "matching s \<Longrightarrow> engine_at s = Idle \<Longrightarrow> stopped s \<Longrightarrow> broker_step s (s\<lparr>matching := False\<rparr>)"
| others: "published w = published (bworld s) \<Longrightarrow> broker_step s (s\<lparr>bworld := w\<rparr>)"

inductive_cases broker_stepE: "broker_step s s'"

section \<open>A batch, step by step\<close>

text \<open>Left to itself the matching loop does what \<open>processMatchingBatch\<close> does.\<close>

abbreviation steps_to :: "broker_service \<Rightarrow> broker_service \<Rightarrow> bool" where
  "steps_to s t \<equiv> broker_step\<^sup>*\<^sup>* s t"

lemma steps_first: "broker_step s t \<Longrightarrow> steps_to t u \<Longrightarrow> steps_to s u"
  by (rule converse_rtranclp_into_rtranclp)

lemma matches_first: "engine_at s \<noteq> Idle \<Longrightarrow> steps_to (match_next s) u \<Longrightarrow> steps_to s u"
  by (rule steps_first [OF matches])

lemma items_run:
  "engine_at s = AtItem order breads a orders rs \<Longrightarrow>
    match_items newBrokerClient order breads a (bworld s) = (a', w) \<Longrightarrow>
    steps_to s (s\<lparr>engine_at := AtItem order [] a' orders rs, bworld := w\<rparr>)"
proof (induction breads arbitrary: s a)
  case Nil
  then have "s\<lparr>engine_at := AtItem order [] a' orders rs, bworld := w\<rparr> = s" by simp
  then show ?case by simp
next
  case (Cons b breads)
  obtain a1 w1 where 1: "match_item newBrokerClient order b a (bworld s) = (a1, w1)" by fastforce
  let ?t = "s\<lparr>engine_at := AtItem order breads a1 orders rs, bworld := w1\<rparr>"
  have "match_next s = ?t" using Cons.prems(1) 1 by (simp add: match_next_def)
  moreover have "steps_to ?t (?t\<lparr>engine_at := AtItem order [] a' orders rs, bworld := w\<rparr>)"
    by (rule Cons.IH) (use Cons.prems(2) 1 in simp_all)
  ultimately show ?case using matches_first [of s] Cons.prems(1) by simp
qed

lemma orders_run:
  "engine_at s = AtOrder orders rs \<Longrightarrow>
    fulfill_all orders (match_publisher (channel_open s)) newBrokerClient (bworld s) = (ms, w) \<Longrightarrow>
    steps_to s (s\<lparr>engine_at := AtOrder [] (rs @ ms), bworld := w, results := results s @ ms\<rparr>)"
proof (induction orders arbitrary: s rs ms)
  case Nil
  then have "s\<lparr>engine_at := AtOrder [] (rs @ ms), bworld := w, results := results s @ ms\<rparr> = s" by simp
  then show ?case by simp
next
  case (Cons order orders)
  let ?pub = "match_publisher (channel_open s)"
  obtain a w1 where 1: "match_items newBrokerClient order (o_Breads order) zero_match (bworld s) = (a, w1)" by fastforce
  obtain r w2 where 2: "conclude_order order a ?pub w1 = (r, w2)" by fastforce
  obtain ms' where 3: "fulfill_all orders ?pub newBrokerClient w2 = (ms', w)" "ms = r # ms'"
    using Cons.prems(2) 1 2 by (auto simp: fulfillOrder_def split: prod.splits)
  let ?t = "s\<lparr>engine_at := AtItem order (o_Breads order) zero_match orders rs\<rparr>"
  let ?u = "?t\<lparr>engine_at := AtItem order [] a orders rs, bworld := w1\<rparr>"
  let ?v = "s\<lparr>engine_at := AtOrder orders (rs @ [r]), bworld := w2, results := results s @ [r]\<rparr>"
  have "steps_to ?t ?u" by (rule items_run) (use 1 in simp_all)
  moreover have "match_next s = ?t" using Cons.prems(1) by (simp add: match_next_def)
  ultimately have "steps_to s ?u" using matches_first [of s ?u] Cons.prems(1) by simp
  moreover have "steps_to ?v (?v\<lparr>engine_at := AtOrder [] ((rs @ [r]) @ ms'), bworld := w, results := results ?v @ ms'\<rparr>)"
    by (rule Cons.IH) (use 3 in simp_all)
  moreover have "match_next ?u = ?v" using 2 by (simp add: match_next_def)
  ultimately have "steps_to s ?u" "steps_to ?u (?v\<lparr>engine_at := AtOrder [] ((rs @ [r]) @ ms'), bworld := w, results := results ?v @ ms'\<rparr>)"
    using matches_first [of ?u] by simp_all
  then show ?case using 3(2) by simp
qed

lemma conclude_order_uuid [simp]: "mr_BuyOrderUuid (fst (conclude_order order a pub w)) = o_BuyOrderUUID order"
  by (simp add: conclude_order_def Let_def split: option.split)

lemma fulfill_all_uuids: "map mr_BuyOrderUuid (fst (fulfill_all orders pub bc w)) = map o_BuyOrderUUID orders"
  by (induction orders arbitrary: w) (simp_all add: fulfillOrder_def case_prod_beta Let_def)

lemma batch_run:
  assumes "matching s" and "engine_at s = Idle" and "buffer s \<noteq> []"
  shows "\<exists>u. steps_to s u \<and> engine_at u = Idle \<and> buffer u = [] \<and> consumer u = consumer s
    \<and> bworld u = processMatchingBatch (buffer s) (match_publisher (channel_open s)) newBrokerClient (bworld s)
    \<and> map mr_BuyOrderUuid (results u) = map mr_BuyOrderUuid (results s)
        @ map o_BuyOrderUUID (go_sort priority_less (buffer s))"
proof -
  let ?pub = "match_publisher (channel_open s)" and ?orders = "go_sort priority_less (buffer s)"
  obtain ms w where run: "fulfill_all ?orders ?pub newBrokerClient (bworld s) = (ms, w)" by fastforce
  let ?t = "start_batch s"
  let ?u = "?t\<lparr>engine_at := AtOrder [] ms, bworld := w, results := results s @ ms\<rparr>"
  have t: "engine_at ?t = AtOrder ?orders []" "bworld ?t = bworld s" "channel_open ?t = channel_open s" "results ?t = results s"
    "buffer ?t = []" "consumer ?t = consumer s"
    by (simp_all add: start_batch_def buffer_drain_def)
  have "steps_to ?t ?u" using orders_run [OF t(1), of ms w] run t by simp
  then have "steps_to s ?u" using steps_first [OF tick] assms by blast
  moreover have "broker_step ?u (match_next ?u)" by (rule matches) simp
  ultimately have "steps_to s (match_next ?u)" by (rule rtranclp.rtrancl_into_rtrancl)
  moreover have "ms \<noteq> [] \<or> ms = []" by simp
  moreover have "processMatchingBatch (buffer s) ?pub newBrokerClient (bworld s)
      = (if ms = [] then w else snd (bc_ReportMatchingResults newBrokerClient ms w))"
    using assms(3) run by (simp add: processMatchingBatch_def)
  moreover have "map mr_BuyOrderUuid ms = map o_BuyOrderUUID ?orders"
    using fulfill_all_uuids [of ?orders ?pub newBrokerClient "bworld s"] run by simp
  ultimately show ?thesis
    by (intro exI [of _ "match_next ?u"]) (simp add: match_next_def t)
qed

section \<open>Every order once\<close>

lemma intake_buffer: "buffer (intake body s) = buffer s @ accepted_order body (bworld s)"
  by (auto simp: intake_def processOneOrder_def accepted_order_def buffer_add_def Let_def split: option.split prod.split sum.split)

lemma intake_fields:
  "taken (intake body s) = taken s @ accepted_order body (bworld s)"
  "consumer (intake body s) = consumer s" "channel_open (intake body s) = channel_open s"
  "matching (intake body s) = matching s" "stopped (intake body s) = stopped s" "batches (intake body s) = batches s"
  "engine_at (intake body s) = engine_at s" "results (intake body s) = results s"
  by (simp_all add: intake_def split: prod.split)

lemma start_batch_fields:
  "buffer (start_batch s) = []" "batches (start_batch s) = batches s @ [buffer s]" "taken (start_batch s) = taken s"
  "engine_at (start_batch s) = AtOrder (go_sort priority_less (buffer s)) []" "results (start_batch s) = results s"
  "bworld (start_batch s) = bworld s" "consumer (start_batch s) = consumer s" "channel_open (start_batch s) = channel_open s"
  "matching (start_batch s) = matching s" "stopped (start_batch s) = stopped s"
  by (simp_all add: start_batch_def buffer_drain_def)

lemma match_next_fields:
  "buffer (match_next s) = buffer s" "batches (match_next s) = batches s" "taken (match_next s) = taken s"
  "consumer (match_next s) = consumer s" "channel_open (match_next s) = channel_open s"
  "matching (match_next s) = matching s" "stopped (match_next s) = stopped s"
  by (simp_all add: match_next_def split: engine_pc.split list.split prod.split)

text \<open>The orders of the batch that have no result yet.\<close>

fun unsettled :: "engine_pc \<Rightarrow> BuyOrder list" where
  "unsettled Idle = []"
| "unsettled (AtOrder orders rs) = orders"
| "unsettled (AtItem order breads a orders rs) = order # orders"

lemma match_next_settles:
  "map mr_BuyOrderUuid (results (match_next s)) @ map o_BuyOrderUUID (unsettled (engine_at (match_next s)))
    = map mr_BuyOrderUuid (results s) @ map o_BuyOrderUUID (unsettled (engine_at s))"
  by (auto simp: match_next_def case_prod_beta split: engine_pc.split list.split)

definition all_accounted :: "broker_service \<Rightarrow> bool" where
  "all_accounted s \<longleftrightarrow> taken s = concat (batches s) @ buffer s \<and> [] \<notin> set (batches s)
     \<and> map mr_BuyOrderUuid (results s) @ map o_BuyOrderUUID (unsettled (engine_at s))
       = map o_BuyOrderUUID (concat (map (go_sort priority_less) (batches s)))"

lemma step_all_accounted: "broker_step s s' \<Longrightarrow> all_accounted s \<Longrightarrow> all_accounted s'"
proof (induction rule: broker_step.induct)
  case (full s)
  then have "buffer s \<noteq> []" by (auto simp: matchBatchSize_def buffer_len_def)
  with full show ?case by (simp add: all_accounted_def start_batch_fields)
next
  case (matches s)
  then show ?case using match_next_settles [of s] by (simp add: all_accounted_def match_next_fields)
qed (simp_all add: all_accounted_def start_batch_fields intake_fields intake_buffer)

lemma reachable_accounted:
  assumes "broker_step\<^sup>*\<^sup>* (startMatchingEngine up w) s"
  shows "all_accounted s"
proof -
  have "all_accounted (startMatchingEngine up w)" by (simp add: all_accounted_def startMatchingEngine_def)
  with assms show ?thesis by (induction rule: rtranclp_induct) (use step_all_accounted in blast)+
qed


section \<open>A channel that is lost stays lost\<close>

text \<open>An engine whose calls, and publications on bread-bought, leave something as it is.\<close>

locale observed_engine =
  fixes bc :: "'w brokerClienter" and pub :: "'w publisher" and obs :: "'w \<Rightarrow> 'o"
  assumes reserve_obs: "obs (snd (bc_ReserveInventory bc req w)) = obs w"
    and results_obs: "obs (snd (bc_ReportMatchingResults bc rs w)) = obs w"
    and publish_obs: "obs (snd (pub ''bread-bought'' body w)) = obs w"
begin

lemma match_item_obs: "obs (snd (match_item bc order b a w)) = obs w"
  using reserve_obs by (auto simp: match_item_def Let_def split: prod.split sum.split) (metis snd_conv)+

lemma match_items_obs: "obs (snd (match_items bc order breads a w)) = obs w"
proof (induction breads arbitrary: a w)
  case (Cons b breads)
  then show ?case using match_item_obs [of order b a w] by (simp add: case_prod_beta)
qed simp

lemma conclude_obs: "obs (snd (conclude_order order a pub w)) = obs w"
  using publish_obs by (auto simp: conclude_order_def Let_def split: option.split)

lemma fulfillOrder_obs: "obs (snd (fulfillOrder order pub bc w)) = obs w"
  using match_items_obs conclude_obs by (simp add: fulfillOrder_def case_prod_beta)

lemma fulfill_all_obs: "obs (snd (fulfill_all orders pub bc w)) = obs w"
  by (induction orders arbitrary: w) (simp_all add: Let_def case_prod_beta fulfillOrder_obs)

lemma batch_obs: "obs (processMatchingBatch orders pub bc w) = obs w"
  by (simp add: processMatchingBatch_def Let_def case_prod_beta fulfill_all_obs results_obs)

end

lemma rpc_published: "rpc f v = (x, v') \<Longrightarrow> published v' = published v"
  by (auto simp: rpc_def on_server_def Let_def split: list.splits fault.splits prod.splits)

lemma client_call_published:
  assumes "client_call f cb w = (x, cb', w')"
  shows "published w' = published w"
proof -
  have "published w' = published w \<and> (\<forall>a. x = Inr a \<longrightarrow> True)"
    by (rule client_call_world [where J = "\<lambda>v. published v = published w", OF _ _ _ assms])
      (auto dest: rpc_published)
  then show ?thesis by simp
qed

interpretation silent: observed_engine newBrokerClient "match_publisher False" published
proof
  show "published (snd (bc_ReserveInventory newBrokerClient req w)) = published w" for req w
    by (auto simp: newBrokerClient_def client_ReserveInventory_def split: prod.split dest: client_call_published)
  show "published (snd (bc_ReportMatchingResults newBrokerClient rs w)) = published w" for rs w
    by (auto simp: newBrokerClient_def client_ReportMatchingResults_def split: prod.split dest: client_call_published)
qed (simp add: match_publisher_def)

lemma match_next_published:
  assumes "\<not> channel_open s"
  shows "published (bworld (match_next s)) = published (bworld s)"
  using assms silent.match_item_obs silent.conclude_obs silent.results_obs
  by (auto simp: match_next_def case_prod_beta split: engine_pc.split list.split)

lemma intake_published: "published (bworld (intake body s)) = published (bworld s)"
  by (auto simp: intake_def processOneOrder_ack newBrokerClient_def client_ReportOrder_def
      split: prod.split option.split dest: client_call_published)

lemma closed_step:
  "broker_step s t \<Longrightarrow> \<not> channel_open s \<Longrightarrow> \<not> channel_open t \<and> published (bworld t) = published (bworld s)"
  by (induction rule: broker_step.induct)
    (simp_all add: intake_fields intake_published start_batch_fields match_next_fields match_next_published)

text \<open>
  C34: The consumer reconnects, the matching loop does not: once its channel is gone it stays gone, and
  nothing is published on bread-bought any more, however the broker and the rest of the world go on;
  yet whenever the loop is idle and there are orders in the buffer, it can run to the end of a batch
  of them, which it matches, reserves and reports to the server just as \<open>processMatchingBatch\<close> does with a
  channel on which every publication fails, with a result for each of them.
\<close>

theorem lost_channel_publishes_nothing:
  assumes "\<not> channel_open s" and "broker_step\<^sup>*\<^sup>* s t"
  shows "\<not> channel_open t \<and> published (bworld t) = published (bworld s)
    \<and> (matching t \<and> engine_at t = Idle \<and> buffer t \<noteq> [] \<longrightarrow>
         (\<exists>u. broker_step\<^sup>*\<^sup>* t u \<and> engine_at u = Idle \<and> buffer u = [] \<and> published (bworld u) = published (bworld s)
           \<and> bworld u = processMatchingBatch (buffer t) (\<lambda>key body w. (True, w)) newBrokerClient (bworld t)
           \<and> map mr_BuyOrderUuid (results u) = map mr_BuyOrderUuid (results t)
               @ map o_BuyOrderUUID (go_sort priority_less (buffer t))))"
proof -
  have quiet: "\<not> channel_open v \<and> published (bworld v) = published (bworld s)" if "broker_step\<^sup>*\<^sup>* s v" for v
    using that assms(1) by (induction rule: rtranclp_induct) (use closed_step in auto)
  have pub: "match_publisher (channel_open t) = (\<lambda>key body w. (True, w))"
    using quiet [OF assms(2)] by (simp add: match_publisher_def)
  have "\<exists>u. broker_step\<^sup>*\<^sup>* t u \<and> engine_at u = Idle \<and> buffer u = [] \<and> published (bworld u) = published (bworld s)
      \<and> bworld u = processMatchingBatch (buffer t) (\<lambda>key body w. (True, w)) newBrokerClient (bworld t)
      \<and> map mr_BuyOrderUuid (results u) = map mr_BuyOrderUuid (results t)
          @ map o_BuyOrderUUID (go_sort priority_less (buffer t))"
    if "matching t" "engine_at t = Idle" "buffer t \<noteq> []"
  proof -
    from batch_run [OF that] obtain u where u: "broker_step\<^sup>*\<^sup>* t u" "engine_at u = Idle" "buffer u = []"
      "bworld u = processMatchingBatch (buffer t) (\<lambda>key body w. (True, w)) newBrokerClient (bworld t)"
      "map mr_BuyOrderUuid (results u) = map mr_BuyOrderUuid (results t)
          @ map o_BuyOrderUUID (go_sort priority_less (buffer t))"
      unfolding pub by blast
    then show ?thesis using quiet [OF rtranclp_trans [OF assms(2) u(1)]] by blast
  qed
  then show ?thesis using quiet [OF assms(2)] by blast
qed

section \<open>A loop that has stopped\<close>

definition halted :: "broker_service \<Rightarrow> bool" where
  "halted s \<longleftrightarrow> \<not> matching s \<and> engine_at s = Idle"

lemma halted_step:
  "broker_step s t \<Longrightarrow> halted s \<Longrightarrow> halted t \<and> batches t = batches s \<and> results t = results s
    \<and> (\<exists>xs. buffer t = buffer s @ xs \<and> taken t = taken s @ xs)"
  by (induction rule: broker_step.induct) (simp_all add: halted_def intake_fields intake_buffer)

lemma halted_run:
  assumes "broker_step\<^sup>*\<^sup>* s t" and "halted s"
  shows "halted t \<and> batches t = batches s \<and> results t = results s
    \<and> (\<exists>xs. buffer t = buffer s @ xs \<and> taken t = taken s @ xs)"
  using assms(1)
proof (induction rule: rtranclp_induct)
  case (step t u)
  with halted_step [of t u] show ?case by auto
qed (use assms(2) in simp)

lemma stopped_halted:
  assumes "broker_step\<^sup>*\<^sup>* (startMatchingEngine up w) s" and "\<not> matching s"
  shows "halted s"
proof -
  have "\<not> matching s \<longrightarrow> engine_at s = Idle" using assms(1)
  proof (induction rule: rtranclp_induct)
    case (step s t)
    from step(2,3) show ?case
      by (induction rule: broker_step.induct) (simp_all add: intake_fields start_batch_fields match_next_fields)
  qed (simp add: startMatchingEngine_def)
  then show ?thesis using assms(2) by (simp add: halted_def)
qed

text \<open>
  C35: Stopping the broker strands orders: after the matching loop has stopped no batch is taken and no
  order gets a result any more, and what the buffer held stays there, with every order that the
  server accepts from then on behind it; and as long as the connection of the consumer lasts, it can
  take a further delivery, whatever it is, buffer the order of it if the server accepts it, and go on.
\<close>

theorem stopped_broker_strands_orders:
  assumes "broker_step\<^sup>*\<^sup>* (startMatchingEngine up w) s" and "\<not> matching s" and "broker_step\<^sup>*\<^sup>* s t"
  shows "batches t = batches s \<and> results t = results s
    \<and> (\<exists>xs. buffer t = buffer s @ xs \<and> taken t = taken s @ xs)
    \<and> (consumer t = Consuming \<longrightarrow> (\<exists>u. broker_step t u \<and> consumer u = Consuming
         \<and> buffer u = buffer t @ accepted_order body (bworld t)))"
proof -
  have "broker_step t (intake body t) \<and> consumer (intake body t) = Consuming
      \<and> buffer (intake body t) = buffer t @ accepted_order body (bworld t)" if "consumer t = Consuming"
    using that by (simp add: deliver intake_fields intake_buffer)
  then show ?thesis using halted_run [OF assms(3) stopped_halted [OF assms(1,2)]] by blast
qed

section \<open>A run\<close>

text \<open>A broker that has taken an order; and the same with its matching channel gone, or stopped.\<close>

definition loaves_body :: json where
  "loaves_body = the (enc_BuyOrder two_loaves)"

definition broker_fed :: broker_service where
  "broker_fed = intake loaves_body ((startMatchingEngine True broker_ready)\<lparr>consumer := Consuming\<rparr>)"

definition broker_mute :: broker_service where
  "broker_mute = broker_fed\<lparr>channel_open := False\<rparr>"

definition broker_halted :: broker_service where
  "broker_halted = (startMatchingEngine True broker_ready)\<lparr>consumer := Consuming, stopped := True, matching := False\<rparr>"

lemma broker_fed_reachable: "broker_step\<^sup>*\<^sup>* (startMatchingEngine True broker_ready) broker_fed"
proof -
  let ?s0 = "startMatchingEngine True broker_ready"
  have "broker_step ?s0 (?s0\<lparr>consumer := Consuming\<rparr>)" by (rule reconnect) (simp_all add: startMatchingEngine_def)
  moreover have "broker_step (?s0\<lparr>consumer := Consuming\<rparr>) broker_fed" unfolding broker_fed_def by (rule deliver) simp
  ultimately show ?thesis by (meson rtranclp.rtrancl_into_rtrancl rtranclp.rtrancl_refl)
qed

lemma fed_buffer: "map o_BuyOrderUUID (buffer broker_fed) = [''u1'']" "matching broker_fed" "channel_open broker_fed"
    "published (bworld broker_fed) = []"
  by code_simp+

lemma fed_idle: "engine_at broker_fed = Idle" "results broker_fed = []" "taken broker_fed = buffer broker_fed"
  using intake_buffer [of loaves_body "(startMatchingEngine True broker_ready)\<lparr>consumer := Consuming\<rparr>"]
  by (simp_all add: broker_fed_def intake_fields startMatchingEngine_def)

lemma fed_nonempty: "buffer broker_fed \<noteq> []"
  using fed_buffer(1) by auto

lemma fed_sorted: "map o_BuyOrderUUID (go_sort priority_less (buffer broker_fed)) = [''u1'']"
  by code_simp


theorem lost_channel_publishes_nothing_witness:
  "\<exists>u. broker_step\<^sup>*\<^sup>* broker_mute u \<and> published (bworld u) = [] \<and> map mr_BuyOrderUuid (results u) = [''u1'']
    \<and> map bo_status (buy_order_t (server_db (bworld u))) = [''processed'']"
proof -
  have m: "\<not> channel_open broker_mute" "matching broker_mute" "engine_at broker_mute = Idle" "buffer broker_mute = buffer broker_fed"
    "bworld broker_mute = bworld broker_fed" "results broker_mute = []"
    using fed_buffer fed_idle by (simp_all add: broker_mute_def)
  have "map bo_status (buy_order_t (server_db (processMatchingBatch (buffer broker_fed) (\<lambda>key body w. (True, w))
      newBrokerClient (bworld broker_fed)))) = [''processed'']"
    by code_simp
  moreover from lost_channel_publishes_nothing [OF m(1) rtranclp.rtrancl_refl] obtain u where "broker_step\<^sup>*\<^sup>* broker_mute u"
      "published (bworld u) = published (bworld broker_mute)"
      "bworld u = processMatchingBatch (buffer broker_fed) (\<lambda>key body w. (True, w)) newBrokerClient (bworld broker_fed)"
      "map mr_BuyOrderUuid (results u) = [''u1'']"
    using m fed_nonempty fed_sorted by auto
  ultimately show ?thesis using m(5) fed_buffer(4) by (intro exI [of _ u]) simp
qed

theorem stopped_broker_strands_orders_witness:
  "\<exists>u. broker_step broker_halted u \<and> consumer u = Consuming \<and> map o_BuyOrderUUID (buffer u) = [''u1'']"
proof -
  let ?s0 = "startMatchingEngine True broker_ready"
  have "broker_step ?s0 (?s0\<lparr>consumer := Consuming\<rparr>)" by (rule reconnect) (simp_all add: startMatchingEngine_def)
  moreover have "broker_step (?s0\<lparr>consumer := Consuming\<rparr>) (?s0\<lparr>consumer := Consuming, stopped := True\<rparr>)"
    using stop [of "?s0\<lparr>consumer := Consuming\<rparr>"] by simp
  moreover have "broker_step (?s0\<lparr>consumer := Consuming, stopped := True\<rparr>) broker_halted"
    using match_stops [of "?s0\<lparr>consumer := Consuming, stopped := True\<rparr>"]
    by (simp add: broker_halted_def startMatchingEngine_def)
  ultimately have r: "broker_step\<^sup>*\<^sup>* ?s0 broker_halted"
    by (meson rtranclp.rtrancl_into_rtrancl rtranclp.rtrancl_refl)
  have h: "\<not> matching broker_halted" "consumer broker_halted = Consuming" "buffer broker_halted = []"
    "bworld broker_halted = broker_ready"
    by (simp_all add: broker_halted_def startMatchingEngine_def)
  have "map o_BuyOrderUUID (accepted_order loaves_body broker_ready) = [''u1'']" by code_simp
  then show ?thesis using stopped_broker_strands_orders [OF r h(1) rtranclp.rtrancl_refl, of loaves_body] h(2-4) by auto
qed

end
