(* ===== verification/Calm.thy ===== *)
theory Calm
  imports Bakery BrokerProcess
begin

text \<open>
  The server and the broker on a run where nothing fails: no fault of the database, no loss in the
  network, no failure to publish, breakers closed. The operations that the order path calls are
  functions there, and what they return is what the customer is told.
\<close>

section \<open>Costs\<close>

lemma rnd64_le_pow2:
  assumes "0 \<le> x" and "x \<le> pow2 e" and "- 1022 \<le> e" and "e < 1024"
  shows "\<exists>y. rnd64 x = Fin y \<and> 0 \<le> y \<and> y \<le> pow2 e"
proof (cases "x = 0")
  case True
  then show ?thesis by (simp add: rnd64_def less_imp_le)
next
  case False
  define m where "m = max (binade \<bar>x\<bar>) (- 1022)"
  define r where "r = of_int (round_half_even (x / ulp x)) * ulp x"
  have x: "0 < x" using False assms(1) by simp
  have "pow2 (binade x) \<le> pow2 e" using binade_bounds(1) [OF x] assms(2) by linarith
  then have m: "m \<le> e" using assms(3) x by (simp add: m_def pow2_le)
  have u: "ulp x = pow2 (m - 52)" by (simp add: ulp_def m_def)
  have "pow2 e = of_int (2 ^ nat (e - (m - 52))) * ulp x"
    using pow2_diff_int [of "m - 52" e] m pow2_pos [of "m - 52"] unfolding u
    by (simp add: nonzero_divide_eq_eq less_imp_neq [symmetric] del: pow2_pos)
  then have "x / ulp x \<le> of_int (2 ^ nat (e - (m - 52)))" using assms(2) by (simp add: pos_divide_le_eq)
  from round_half_even_le [OF this] have "of_int (round_half_even (x / ulp x)) \<le> (of_int (2 ^ nat (e - (m - 52))) :: rat)"
    by (simp only: of_int_le_iff)
  then have hi: "r \<le> pow2 e"
    unfolding r_def \<open>pow2 e = _\<close> by (intro mult_right_mono) (simp_all add: less_imp_le)
  have lo: "0 \<le> r"
    unfolding r_def using round_half_even_nonneg [of "x / ulp x"] assms(1)
    by (intro mult_nonneg_nonneg) (simp_all add: less_imp_le)
  have "binade \<bar>r\<bar> < 1024" if "r \<noteq> 0"
  proof -
    have "0 < r" using lo that by simp
    then have "pow2 (binade r) \<le> pow2 e" using binade_bounds(1) [of r] hi by linarith
    then show ?thesis using assms(4) \<open>0 < r\<close> by (simp add: pow2_le)
  qed
  then have "rnd64 x = Fin r" using False by (auto simp: rnd64_def r_def Let_def)
  then show ?thesis using lo hi by blast
qed

text \<open>A price of the catalogue fits \<open>NUMERIC(10,2)\<close>.\<close>

lemma price_bound:
  assumes "0 \<le> c" and "c < 10000000000"
  shows "\<exists>y. f64_of_numeric (Amount c) = Fin y \<and> 0 \<le> y \<and> y \<le> pow2 27"
proof -
  have "(of_int c :: rat) \<le> of_int 10000000000" using assms(2) by (subst of_int_le_iff) simp
  then have "of_int c / 100 \<le> pow2 27" by (simp add: pow2_def)
  then show ?thesis using rnd64_le_pow2 [of "of_int c / 100" 27] assms(1) by simp
qed

lemma item_cost_bound:
  assumes "is_int32 n" and "0 \<le> n" and "0 \<le> p" and "p \<le> pow2 27"
  shows "\<exists>y. f64_of_int n * Fin p = Fin y \<and> 0 \<le> y \<and> y \<le> pow2 58"
proof -
  have "(of_int n :: rat) \<le> of_int (2 ^ 31)" using assms(1) by (subst of_int_le_iff) (simp add: is_int32_def)
  then have "of_int n * p \<le> of_int (2 ^ 31) * pow2 27"
    using assms by (intro mult_mono) simp_all
  also have "\<dots> = pow2 58" by (simp add: pow2_def)
  finally show ?thesis using rnd64_le_pow2 [of "of_int n * p" 58] assms by (simp add: f64_of_int32)
qed

definition total_cost :: "Bread list \<Rightarrow> f64 \<Rightarrow> f64" where
  "total_cost bs c = fold (\<lambda>b c. c + f64_of_int (b_Quantity b) * b_Price b) bs c"

lemma total_cost_bound:
  assumes "\<forall>b \<in> set bs. is_int32 (b_Quantity b) \<and> 0 \<le> b_Quantity b \<and> (\<exists>p. b_Price b = Fin p \<and> 0 \<le> p \<and> p \<le> pow2 27)"
    and "rnd64 c = Fin c" and "0 \<le> c" and "c \<le> pow2 (58 + k)" and "0 \<le> k" and "58 + k + int (length bs) < 1024"
  shows "\<exists>y. total_cost bs (Fin c) = Fin y \<and> rnd64 y = Fin y \<and> 0 \<le> y \<and> y \<le> pow2 (58 + k + int (length bs))"
  using assms
proof (induction bs arbitrary: c k)
  case Nil
  then show ?case by (simp add: total_cost_def)
next
  case (Cons b bs)
  obtain p where p: "b_Price b = Fin p" "0 \<le> p" "p \<le> pow2 27" "is_int32 (b_Quantity b)" "0 \<le> b_Quantity b"
    using Cons.prems(1) by auto
  obtain y where y: "f64_of_int (b_Quantity b) * Fin p = Fin y" "0 \<le> y" "y \<le> pow2 58"
    using item_cost_bound [OF p(4,5,2,3)] by blast
  have "pow2 58 \<le> pow2 (58 + k)" using Cons.prems(5) by (simp add: pow2_le)
  then have "c + y \<le> pow2 (58 + (k + 1))" using y(3) Cons.prems(4) pow2_Suc [of "58 + k"] by (simp add: add.assoc)
  then obtain z where z: "rnd64 (c + y) = Fin z" "0 \<le> z" "z \<le> pow2 (58 + (k + 1))"
    using rnd64_le_pow2 [of "c + y" "58 + (k + 1)"] y(2) Cons.prems(3,5,6) by auto
  have step: "total_cost (b # bs) (Fin c) = total_cost bs (Fin z)"
    by (simp add: total_cost_def p(1) y(1) z(1))
  have "\<exists>y. total_cost bs (Fin z) = Fin y \<and> rnd64 y = Fin y \<and> 0 \<le> y \<and> y \<le> pow2 (58 + (k + 1) + int (length bs))"
    using Cons.prems(1,5,6) z by (intro Cons.IH) (auto intro: rnd64_idem)
  then show ?case by (simp add: step algebra_simps)
qed

section \<open>The server without faults\<close>

text \<open>The driver turns the price into a value the column takes.\<close>

definition has_price :: "db \<Rightarrow> Bread \<Rightarrow> bool" where
  "has_price s b \<longleftrightarrow> (\<exists>p. to_numeric s 10 (b_Price b) = Some p \<and> fits_numeric 10 p)"

lemma has_price_others [simp]:
  "has_price (s\<lparr>order_details_t := x\<rparr>) b = has_price s b"
  "has_price (s\<lparr>seqs := y, buy_order_t := z\<rparr>) b = has_price s b"
  by (simp_all add: has_price_def)

lemma insert_order_detail_calm:
  assumes "faults s = []" and "db_inv s" and "is_int32 i" and "i \<in> bo_id ` set (buy_order_t s)"
    and "b_ID b \<in> br_id ` set (bread_t s)" and "is_int32 (b_Quantity b)" and "to_numeric s 10 (b_Price b) = Some p"
    and "fits_numeric 10 p"
    and "(i, b_ID b) \<notin> (\<lambda>d. (od_buy_order_id d, od_bread_id d)) ` set (order_details_t s)"
  shows "\<exists>d. insert_order_detail i b s = (Inr (), s\<lparr>order_details_t := order_details_t s @ [d]\<rparr>)
    \<and> od_buy_order_id d = i \<and> od_bread_id d = b_ID b \<and> db_inv (s\<lparr>order_details_t := order_details_t s @ [d]\<rparr>)"
proof -
  let ?d = "\<lparr>od_buy_order_id = i, od_bread_id = b_ID b, od_quantity = b_Quantity b,
                    od_price = p, od_status = ''pending'', od_created_at = now s, od_updated_at = now s\<rparr>"
  have "is_int32 (b_ID b)"
    using assms(2,5) by (auto simp: db_inv_def bread_inv_def bread_row_error_None)
  then have ok: "insert_detail_error ?d s = None"
    using assms by (simp add: insert_detail_error_def check_simps order_detail_row_error_def)
  then show ?thesis
    using assms(1,7) insert_detail_inv [OF assms(2) ok] by (intro exI [of _ ?d]) (simp add: insert_order_detail_def seq_apply no_fault_simps param_numeric_def Let_def guarded_def)
qed

lemma insert_details_calm:
  assumes "faults s = []" and "db_inv s" and "is_int32 i" and "i \<in> bo_id ` set (buy_order_t s)"
    and "\<forall>b \<in> set bs. b_ID b \<in> br_id ` set (bread_t s) \<and> is_int32 (b_Quantity b) \<and> has_price s b"
    and "\<forall>b \<in> set bs. (i, b_ID b) \<notin> (\<lambda>d. (od_buy_order_id d, od_bread_id d)) ` set (order_details_t s)"
    and "distinct (map b_ID bs)"
  shows "\<exists>ds. for_each (\<lambda>b _. insert_order_detail i b) bs () s = (Inr (), s\<lparr>order_details_t := order_details_t s @ ds\<rparr>)"
  using assms
proof (induction bs arbitrary: s)
  case (Cons b bs)
  obtain p where "to_numeric s 10 (b_Price b) = Some p" "fits_numeric 10 p" using Cons.prems(5) by (auto simp: has_price_def)
  then obtain d where d: "insert_order_detail i b s = (Inr (), s\<lparr>order_details_t := order_details_t s @ [d]\<rparr>)"
      "od_buy_order_id d = i" "od_bread_id d = b_ID b" "db_inv (s\<lparr>order_details_t := order_details_t s @ [d]\<rparr>)"
    using insert_order_detail_calm [OF Cons.prems(1-4), of b p] Cons.prems(5,6) by auto
  let ?s = "s\<lparr>order_details_t := order_details_t s @ [d]\<rparr>"
  have new: "\<forall>c \<in> set bs. (i, b_ID c) \<notin> (\<lambda>d. (od_buy_order_id d, od_bread_id d)) ` set (order_details_t ?s)"
  proof
    fix c assume c: "c \<in> set bs"
    then have "b_ID c \<in> b_ID ` set bs" by (rule imageI)
    then have "b_ID c \<noteq> b_ID b" using Cons.prems(7) by (metis distinct.simps(2) list.simps(9) set_map)
    then show "(i, b_ID c) \<notin> (\<lambda>d. (od_buy_order_id d, od_bread_id d)) ` set (order_details_t ?s)"
      using c Cons.prems(6) d(2,3) by simp
  qed
  have "\<exists>ds. for_each (\<lambda>b _. insert_order_detail i b) bs () ?s = (Inr (), ?s\<lparr>order_details_t := order_details_t ?s @ ds\<rparr>)"
    by (rule Cons.IH [OF _ d(4) Cons.prems(3) _ _ new]) (use Cons.prems(1,4,5,7) in simp_all)
  then obtain ds where "for_each (\<lambda>b _. insert_order_detail i b) bs () ?s = (Inr (), ?s\<lparr>order_details_t := order_details_t ?s @ ds\<rparr>)"
    by blast
  then show ?case by (intro exI [of _ "d # ds"]) (simp add: seq_apply d(1))
qed (intro exI [of _ "[]"], simp)

definition next_order_fits :: "db \<Rightarrow> bool" where
  "next_order_fits s \<longleftrightarrow> is_int32 (seqs s BuySeq) \<and> seqs s BuySeq \<notin> bo_id ` set (buy_order_t s)"

lemma InsertBuyOrder_calm:
  assumes "faults s = []" and "db_inv s" and "next_order_fits s"
    and "o_CustomerID order \<in> cu_id ` set (customer_t s)" and "fits 255 (o_BuyOrderUUID order)"
    and "o_BuyOrderUUID order \<notin> bo_uuid ` set (buy_order_t s)"
    and "\<forall>b \<in> set bs. b_ID b \<in> br_id ` set (bread_t s) \<and> is_int32 (b_Quantity b) \<and> has_price s b"
    and "distinct (map b_ID bs)"
  shows "\<exists>q rs ds. InsertBuyOrder order bs s = (Inr (seqs s BuySeq),
      s\<lparr>seqs := (seqs s)(BuySeq := q), buy_order_t := rs, order_details_t := ds\<rparr>)"
proof -
  let ?i = "seqs s BuySeq"
  let ?r = "\<lparr>bo_id = ?i, bo_customer_id = o_CustomerID order, bo_uuid = o_BuyOrderUUID order, bo_status = ''processing''\<rparr>"
  let ?s = "s\<lparr>seqs := (seqs s)(BuySeq := ?i + 1), buy_order_t := buy_order_t s @ [?r]\<rparr>"
  have "is_int32 (o_CustomerID order)"
    using assms(2,4) by (auto simp: db_inv_def accounts_inv_def customer_row_error_def split: if_splits)
  then have ok: "insert_buy_order_error ?r s = None"
    using assms(3-6)
    by (simp add: insert_buy_order_error_def check_simps buy_order_row_error_def next_order_fits_def fits_def
        buy_order_statuses_def)
  then have ok': "insert_buy_order_error ?r (s\<lparr>seqs := (seqs s)(BuySeq := ?i + 1)\<rparr>) = None"
    by (simp add: insert_buy_order_error_def)
  have header: "insert_order_header order s = (Inr ?i, ?s)"
    using assms(1) ok' by (simp add: insert_order_header_def no_fault_simps seq_apply nextval_def guarded_def Let_def)
  have "db_inv (s\<lparr>seqs := (seqs s)(BuySeq := ?i + 1)\<rparr>)"
    using assms(2) table_pred_seqs [OF table_pred_db_inv] by blast
  from insert_buy_order_inv [OF this ok'] have inv: "db_inv ?s" by simp
  have new: "(?i, b) \<notin> (\<lambda>d. (od_buy_order_id d, od_bread_id d)) ` set (order_details_t s)" for b
    using assms(2,3) by (auto simp: db_inv_def orders_inv_def next_order_fits_def)
  have "\<exists>ds. for_each (\<lambda>b _. insert_order_detail ?i b) bs () ?s
      = (Inr (), ?s\<lparr>order_details_t := order_details_t ?s @ ds\<rparr>)"
    by (rule insert_details_calm [OF _ inv]) (use assms(1,3,7,8) new in \<open>simp_all add: next_order_fits_def\<close>)
  then obtain ds where "for_each (\<lambda>b _. insert_order_detail ?i b) bs () ?s
      = (Inr (), ?s\<lparr>order_details_t := order_details_t ?s @ ds\<rparr>)" by blast
  then have "InsertBuyOrder order bs s = (Inr ?i, ?s\<lparr>order_details_t := order_details_t s @ ds\<rparr>)"
    using assms(1) header by (simp add: InsertBuyOrder_def transaction_no_fault seq_apply)
  then show ?thesis by auto
qed

lemma GetBuyOrderByUUID_absent:
  "faults s = [] \<Longrightarrow> u \<notin> bo_uuid ` set (buy_order_t s) \<Longrightarrow> GetBuyOrderByUUID u s = (Inl ErrNoRows, s)"
proof -
  assume s: "faults s = []" "u \<notin> bo_uuid ` set (buy_order_t s)"
  then have "filter (\<lambda>r. bo_uuid r = u) (buy_order_t s) = []" by (auto simp: filter_empty_conv)
  then show ?thesis using s(1) by (simp add: GetBuyOrderByUUID_def load_order_def seq_apply no_fault_simps)
qed

text \<open>A reservation of what is there.\<close>

lemma FulfillOrderItem_calm:
  assumes "faults s = []" and "bread_inv s" and "stock s i = Some q" and "0 < n" and "n \<le> q"
  shows "\<exists>B. FulfillOrderItem i n s = (Inr n, s\<lparr>bread_t := B\<rparr>) \<and> stock (s\<lparr>bread_t := B\<rparr>) = (stock s)(i \<mapsto> q - n)"
proof -
  let ?g = "\<lambda>r. r\<lparr>br_quantity := br_quantity r - n, br_updated_at := now s\<rparr>"
  let ?t = "s\<lparr>bread_t := update_where (\<lambda>r. br_id r = i) ?g (bread_t s)\<rparr>"
  obtain r where r: "find (\<lambda>r. br_id r = i) (bread_t s) = Some r" "br_quantity r = q"
    using assms(3) by (auto simp: stock_def quantity_of_def)
  then have "bread_row_error r = None"
    using assms(2) by (auto simp: bread_inv_def dest: find_SomeD)
  then have "bread_row_error (?g r) = None" "is_int32 n"
    using r(2) assms(4,5) by (auto simp: bread_row_error_None is_int32_def)
  then have "sql_deduct i n s = (Inr (), ?t)"
    using r assms(1)
    by (simp add: sql_deduct_def no_fault_simps seq_apply param_int4_def check_def
        sql_update_bread_def guarded_def update_error_def select_rows_eq [OF assms(2)])
  moreover have "query_row (select_quantity i) s = (Inr q, s)"
    using assms(1,3) select_quantity_eq [OF assms(2), of i] by (simp add: no_fault_simps)
  ultimately have "fulfill_item i n s = (Inr n, ?t)"
    using assms(4,5) by (simp add: fulfill_item_def attempt_apply Let_def)
  then have "FulfillOrderItem i n s = (Inr n, ?t)"
    using assms(1) by (simp add: FulfillOrderItem_def transaction_no_fault)
  moreover have "stock ?t = (stock s)(i \<mapsto> q - n)"
    using quantity_of_change [of ?g "\<lambda>q. q - n" "bread_t s" i q] assms(3) by (simp add: stock_def)
  ultimately show ?thesis by blast
qed

section \<open>The broker without faults\<close>

definition quiet :: "broker_world \<Rightarrow> bool" where
  "quiet w \<longleftrightarrow> net w = [] \<and> pub_failures w = [] \<and> cb_state (reportOrderCB w) = StateClosed
     \<and> cb_state (reserveInventoryCB w) = StateClosed \<and> cb_state (reportMatchingCB w) = StateClosed"

lemma client_call_first:
  assumes "net w = []" and "cb_state cb = StateClosed" and "f (server_db w) = (Inr a, t)"
  shows "client_call f cb w = (Inr a, Some cb, w\<lparr>server_db := t\<rparr>)"
proof -
  have "call_fn (client_env f) (None, w) = (None, (Some a, w\<lparr>server_db := t\<rparr>))"
    using assms(1,3) by (simp add: client_env_def rpc_def on_server_def)
  then have "Retry_result DefaultRetryConfig (client_env f) (Some cb) (None, w) = (Inr (), Some cb, (Some a, w\<lparr>server_db := t\<rparr>))"
    using closed_breaker [OF assms(2), of "clock (client_env f) (None, w)"]
      Retry_first [of DefaultRetryConfig "client_env f" "(None, w)" cb 0 cb "(Some a, w\<lparr>server_db := t\<rparr>)"]
    by (simp add: DefaultRetryConfig_def)
  then show ?thesis by (simp add: client_call_eq)
qed

lemma client_calm:
  assumes "quiet w"
  shows "ReportOrder x (server_db w) = (Inr a, t) \<Longrightarrow> client_ReportOrder x w = (Inr a, w\<lparr>server_db := t\<rparr>)"
    and "ReserveInventory y (server_db w) = (Inr b, t) \<Longrightarrow> client_ReserveInventory y w = (Inr b, w\<lparr>server_db := t\<rparr>)"
    and "ReportMatchingResults z (server_db w) = (Inr c, t) \<Longrightarrow> client_ReportMatchingResults z w = (Inr c, w\<lparr>server_db := t\<rparr>)"
  using assms client_call_first [of w "reportOrderCB w" "ReportOrder x" a t]
    client_call_first [of w "reserveInventoryCB w" "ReserveInventory y" b t]
    client_call_first [of w "reportMatchingCB w" "ReportMatchingResults z" c t]
  by (simp_all add: quiet_def client_ReportOrder_def client_ReserveInventory_def client_ReportMatchingResults_def)

lemma quiet_db [simp]: "quiet (w\<lparr>server_db := s\<rparr>) = quiet w"
  by (simp add: quiet_def)

text \<open>What is wanted is there.\<close>

definition enough :: "(int \<Rightarrow> int option) \<Rightarrow> Bread \<Rightarrow> bool" where
  "enough st b \<longleftrightarrow> is_int32 (b_ID b) \<and> is_int32 (b_Quantity b) \<and> 0 < b_Quantity b
     \<and> (\<exists>q. st (b_ID b) = Some q \<and> b_Quantity b \<le> q)"

definition less_sold :: "Bread list \<Rightarrow> (int \<Rightarrow> int option) \<Rightarrow> int \<Rightarrow> int option" where
  "less_sold bs st i = map_option (\<lambda>q. q - sum_list (map b_Quantity (filter (\<lambda>b. b_ID b = i) bs))) (st i)"

definition all_served :: "Bread list \<Rightarrow> match_state \<Rightarrow> match_state" where
  "all_served bs a = a\<lparr>items := items a @ map (\<lambda>b. make_item b (b_Quantity b) ''fulfilled'') bs,
     totalQuantityFulfilled := fold (\<lambda>b t. int64 (t + b_Quantity b)) bs (totalQuantityFulfilled a),
     totalCost := total_cost bs (totalCost a)\<rparr>"

lemma ReserveInventory_calm:
  assumes "faults s = []" and "db_inv s" and "enough (stock s) b"
  shows "\<exists>B. ReserveInventory \<lparr>rq_BreadId = b_ID b, rq_QuantityRequested = b_Quantity b, rq_BuyOrderUuid = u\<rparr> s
      = (Inr \<lparr>Reserved = True, rs_QuantityFulfilled = b_Quantity b, rs_Message = ''reserved''\<rparr>, s\<lparr>bread_t := B\<rparr>)
    \<and> db_inv (s\<lparr>bread_t := B\<rparr>) \<and> stock (s\<lparr>bread_t := B\<rparr>) = less_sold [b] (stock s)"
proof -
  let ?req = "\<lparr>rq_BreadId = b_ID b, rq_QuantityRequested = b_Quantity b, rq_BuyOrderUuid = u\<rparr>"
  obtain q where q: "stock s (b_ID b) = Some q" "b_Quantity b \<le> q" using assms(3) by (auto simp: enough_def)
  obtain B where B: "FulfillOrderItem (b_ID b) (b_Quantity b) s = (Inr (b_Quantity b), s\<lparr>bread_t := B\<rparr>)"
      "stock (s\<lparr>bread_t := B\<rparr>) = (stock s)(b_ID b \<mapsto> q - b_Quantity b)"
    using FulfillOrderItem_calm [OF assms(1) db_inv_bread [OF assms(2)] q(1) _ q(2)] assms(3) by (auto simp: enough_def)
  have r: "ReserveInventory ?req s
      = (Inr \<lparr>Reserved = True, rs_QuantityFulfilled = b_Quantity b, rs_Message = ''reserved''\<rparr>, s\<lparr>bread_t := B\<rparr>)"
    using B(1) assms(3) by (simp add: ReserveInventory_def attempt_apply enough_def)
  moreover have "db_inv (s\<lparr>bread_t := B\<rparr>)"
    using keepsD [OF keeps_ReserveInventory assms(2), of ?req] r by simp
  moreover have "stock (s\<lparr>bread_t := B\<rparr>) = less_sold [b] (stock s)"
    using B(2) q(1) by (auto simp: less_sold_def fun_eq_iff option.map_ident)
  ultimately show ?thesis by blast
qed

lemma match_items_calm:
  assumes "quiet w" and "faults (server_db w) = []" and "db_inv (server_db w)"
    and "\<forall>b \<in> set bs. enough (stock (server_db w)) b" and "distinct (map b_ID bs)"
  shows "\<exists>B. match_items newBrokerClient ord bs a w = (all_served bs a, w\<lparr>server_db := (server_db w)\<lparr>bread_t := B\<rparr>\<rparr>)
    \<and> db_inv ((server_db w)\<lparr>bread_t := B\<rparr>) \<and> stock ((server_db w)\<lparr>bread_t := B\<rparr>) = less_sold bs (stock (server_db w))"
  using assms
proof (induction bs arbitrary: a w)
  case Nil
  then show ?case
    by (intro exI [of _ "bread_t (server_db w)"]) (simp add: all_served_def total_cost_def less_sold_def option.map_ident)
next
  case (Cons b bs)
  let ?s = "server_db w"
  have b: "enough (stock ?s) b" using Cons.prems(4) by simp
  obtain B where B: "ReserveInventory \<lparr>rq_BreadId = b_ID b, rq_QuantityRequested = b_Quantity b, rq_BuyOrderUuid = o_BuyOrderUUID ord\<rparr> ?s
      = (Inr \<lparr>Reserved = True, rs_QuantityFulfilled = b_Quantity b, rs_Message = ''reserved''\<rparr>, ?s\<lparr>bread_t := B\<rparr>)"
      "db_inv (?s\<lparr>bread_t := B\<rparr>)" "stock (?s\<lparr>bread_t := B\<rparr>) = less_sold [b] (stock ?s)"
    using ReserveInventory_calm [OF Cons.prems(2,3) b] by blast
  let ?w = "w\<lparr>server_db := ?s\<lparr>bread_t := B\<rparr>\<rparr>"
  have item: "match_item newBrokerClient ord b a w = (all_served [b] a, ?w)"
    using client_calm(2) [OF Cons.prems(1) B(1)] b
    by (simp add: match_item_def newBrokerClient_def enough_def add_item_def all_served_def total_cost_def Let_def)
  have "\<forall>c \<in> set bs. b_ID c \<noteq> b_ID b" using Cons.prems(5) by (metis distinct.simps(2) imageI list.simps(9) set_map)
  then have "\<forall>c \<in> set bs. enough (stock (server_db ?w)) c"
    using Cons.prems(4) B(3) by (auto simp: enough_def less_sold_def)
  then obtain C where C: "match_items newBrokerClient ord bs (all_served [b] a) ?w
        = (all_served bs (all_served [b] a), ?w\<lparr>server_db := (server_db ?w)\<lparr>bread_t := C\<rparr>\<rparr>)"
      "db_inv ((server_db ?w)\<lparr>bread_t := C\<rparr>)" "stock ((server_db ?w)\<lparr>bread_t := C\<rparr>) = less_sold bs (stock (server_db ?w))"
    using Cons.IH [of ?w "all_served [b] a"] Cons.prems(1,2,5) B(2) by auto
  have "all_served bs (all_served [b] a) = all_served (b # bs) a" by (simp add: all_served_def total_cost_def)
  moreover have "less_sold bs (less_sold [b] (stock ?s)) = less_sold (b # bs) (stock ?s)"
    by (auto simp: less_sold_def fun_eq_iff option.map_comp o_def algebra_simps)
  ultimately show ?case using item C B(3) by (intro exI [of _ C]) simp
qed

text \<open>An order that is there in full is processed, published and reported.\<close>

definition processed :: "BuyOrder \<Rightarrow> MatchingBatchResult" where
  "processed ord = \<lparr>mr_BuyOrderUuid = o_BuyOrderUUID ord, mr_OrderStatus = ''processed'',
     mr_Items = map (\<lambda>b. make_item b (b_Quantity b) ''fulfilled'') (o_Breads ord), mr_TotalCost = total_cost (o_Breads ord) 0\<rparr>"

definition settlement_of :: "BuyOrder \<Rightarrow> publishResult" where
  "settlement_of ord = \<lparr>pr_Order = ord, pr_Items = matchingItemsToDataOrderItems (mr_Items (processed ord)),
     pr_TotalCost = total_cost (o_Breads ord) 0\<rparr>"

definition modest :: "Bread list \<Rightarrow> bool" where
  "modest bs \<longleftrightarrow> bs \<noteq> [] \<and> length bs \<le> 64 \<and> distinct (map b_ID bs)
     \<and> (\<forall>b \<in> set bs. 0 < b_Quantity b \<and> is_int32 (b_Quantity b) \<and> (\<exists>p. b_Price b = Fin p \<and> 0 \<le> p \<and> p \<le> pow2 27))"

lemma modest_cost:
  assumes "modest bs"
  shows "\<exists>c. total_cost bs 0 = Fin c \<and> rnd64 c = Fin c \<and> \<bar>c\<bar> < 2 ^ 128 - 2 ^ 103"
proof -
  obtain c where c: "total_cost bs (Fin 0) = Fin c" "rnd64 c = Fin c" "0 \<le> c" "c \<le> pow2 (58 + int (length bs))"
    using total_cost_bound [of bs 0 0] assms by (auto simp: modest_def rnd64_def less_imp_le)
  have "pow2 (58 + int (length bs)) \<le> pow2 122" using assms by (simp add: modest_def pow2_le)
  then have "c \<le> 2 ^ 122" using c(4) by (simp add: pow2_def)
  moreover have "(2 :: rat) ^ 122 < 2 ^ 128 - 2 ^ 103" by simp
  ultimately show ?thesis using c by (simp add: zero_f64_def)
qed

lemma modest_requested:
  assumes "modest bs"
  shows "fold (\<lambda>b t. int64 (t + b_Quantity b)) bs 0 = sum_list (map b_Quantity bs) \<and> 0 < sum_list (map b_Quantity bs)"
proof -
  have "sum_list (map b_Quantity bs) \<le> sum_list (map (\<lambda>b. 2 ^ 31) bs)"
    using assms by (intro sum_list_mono) (auto simp: modest_def is_int32_def)
  also have "\<dots> \<le> 64 * 2 ^ 31" using assms by (simp add: modest_def sum_list_triv)
  finally have "sum_list (map b_Quantity bs) < 9223372036854775808" by simp
  moreover have "0 < sum_list (map b_Quantity bs)"
    using assms by (intro sum_list_pos_int) (auto simp: modest_def)
  ultimately show ?thesis using total_requested_exact [of bs 0] assms by (auto simp: modest_def less_imp_le)
qed

lemma fulfillOrder_calm:
  assumes "quiet w" and "faults (server_db w) = []" and "db_inv (server_db w)"
    and "modest (o_Breads ord)" and "\<forall>b \<in> set (o_Breads ord). enough (stock (server_db w)) b"
    and "enc_publishResult (settlement_of ord) = Some k"
  shows "\<exists>B. fulfillOrder ord channel_Publish newBrokerClient w
      = (processed ord, w\<lparr>server_db := (server_db w)\<lparr>bread_t := B\<rparr>, published := published w @ [(''bread-bought'', k)]\<rparr>)
    \<and> db_inv ((server_db w)\<lparr>bread_t := B\<rparr>)
    \<and> stock ((server_db w)\<lparr>bread_t := B\<rparr>) = less_sold (o_Breads ord) (stock (server_db w))"
proof -
  obtain B where B: "match_items newBrokerClient ord (o_Breads ord) zero_match w
        = (all_served (o_Breads ord) zero_match, w\<lparr>server_db := (server_db w)\<lparr>bread_t := B\<rparr>\<rparr>)"
      "db_inv ((server_db w)\<lparr>bread_t := B\<rparr>)"
      "stock ((server_db w)\<lparr>bread_t := B\<rparr>) = less_sold (o_Breads ord) (stock (server_db w))"
    using match_items_calm [OF assms(1-3,5), where ord = ord and a = zero_match] assms(4)
    unfolding modest_def by blast
  have "match_status ord (all_served (o_Breads ord) zero_match) = ''processed''"
    using modest_requested [OF assms(4)] by (simp add: match_status_def all_served_def zero_match_def total_requested_def)
  then have "fulfillOrder ord channel_Publish newBrokerClient w
      = (processed ord, w\<lparr>server_db := (server_db w)\<lparr>bread_t := B\<rparr>, published := published w @ [(''bread-bought'', k)]\<rparr>)"
    using assms(1,6) B(1)
    by (simp add: fulfillOrder_def conclude_order_def Let_def processed_def settlement_of_def all_served_def zero_match_def
        channel_Publish_def quiet_def)
  then show ?thesis using B(2,3) by blast
qed

definition next_outbox_fits :: "db \<Rightarrow> bool" where
  "next_outbox_fits s \<longleftrightarrow> is_int32 (seqs s OutboxSeq) \<and> seqs s OutboxSeq \<notin> ob_id ` set (outbox_t s)"

lemma ReportMatchingResults_calm:
  assumes "faults s = []" and "db_inv s" and "next_outbox_fits s"
  shows "\<exists>c q X. ReportMatchingResults [processed ord] s
    = (Inr c, s\<lparr>buy_order_t := set_status (processed ord) (buy_order_t s), outbox_t := X, seqs := q\<rparr>)"
proof -
  let ?m = "processed ord"
  let ?B = "set_status ?m (buy_order_t s)"
  let ?s = "s\<lparr>buy_order_t := ?B\<rparr>"
  let ?x = "\<lparr>ob_id = seqs s OutboxSeq, ob_payload = matchingResultToPayload ?m, ob_sent = False, ob_created_at = now s\<rparr>"
  let ?q = "(seqs s)(OutboxSeq := seqs s OutboxSeq + 1)"
  have "update_error buy_order_row_error (\<lambda>r. bo_uuid r = mr_BuyOrderUuid ?m) (\<lambda>r. r\<lparr>bo_status := mr_OrderStatus ?m\<rparr>) (buy_order_t s) = None"
    using assms(2)
    by (auto simp: update_error_None db_inv_def orders_inv_def buy_order_row_error_def processed_def
        buy_order_statuses_def fits_def split: if_splits)
  then have 1: "sql_update_order (\<lambda>r. bo_uuid r = mr_BuyOrderUuid ?m) (\<lambda>r. r\<lparr>bo_status := mr_OrderStatus ?m\<rparr>) s = (Inr (), ?s)"
    by (simp add: sql_update_order_def guarded_def set_status_def)
  have 2: "insert_payload (matchingResultToPayload ?m) ?s = (Inr (), ?s\<lparr>seqs := ?q, outbox_t := outbox_t s @ [?x]\<rparr>)"
    using assms(1,3)
    by (simp add: insert_payload_def no_fault_simps seq_apply nextval_def Let_def guarded_def insert_outbox_error_def
        unless_def and_then_def next_outbox_fits_def)
  have "report_result ?m s = (Inr (), ?s\<lparr>seqs := ?q, outbox_t := outbox_t s @ [?x]\<rparr>)"
    using assms(1) 1 2 by (simp add: report_result_def attempt_apply no_fault_simps)
  then have "ReportMatchingResults [?m] s
      = (Inr \<lparr>bc_Accepted = True, OrdersProcessed = int32 1, bc_Message = ''accepted''\<rparr>,
         ?s\<lparr>seqs := ?q, outbox_t := outbox_t s @ [?x]\<rparr>)"
    using assms(1) by (simp add: ReportMatchingResults_def attempt_apply seq_apply transaction_no_fault)
  then show ?thesis by (intro exI [of _ "\<lparr>bc_Accepted = True, OrdersProcessed = int32 1, bc_Message = ''accepted''\<rparr>"]
      exI [of _ ?q] exI [of _ "outbox_t s @ [?x]"]) simp
qed

lemma batch_calm:
  assumes "quiet w" and "faults (server_db w) = []" and "db_inv (server_db w)" and "next_outbox_fits (server_db w)"
    and "modest (o_Breads ord)" and "\<forall>b \<in> set (o_Breads ord). enough (stock (server_db w)) b"
    and "enc_publishResult (settlement_of ord) = Some k"
  shows "\<exists>B X q. processMatchingBatch [ord] channel_Publish newBrokerClient w
      = w\<lparr>server_db := (server_db w)\<lparr>bread_t := B, buy_order_t := set_status (processed ord) (buy_order_t (server_db w)),
            outbox_t := X, seqs := q\<rparr>,
          published := published w @ [(''bread-bought'', k)]\<rparr>
    \<and> stock ((server_db w)\<lparr>bread_t := B\<rparr>) = less_sold (o_Breads ord) (stock (server_db w))"
proof -
  obtain B where B: "fulfillOrder ord channel_Publish newBrokerClient w
      = (processed ord, w\<lparr>server_db := (server_db w)\<lparr>bread_t := B\<rparr>, published := published w @ [(''bread-bought'', k)]\<rparr>)"
      "db_inv ((server_db w)\<lparr>bread_t := B\<rparr>)"
      "stock ((server_db w)\<lparr>bread_t := B\<rparr>) = less_sold (o_Breads ord) (stock (server_db w))"
    using fulfillOrder_calm [OF assms(1-3,5-7)] by blast
  let ?w = "w\<lparr>server_db := (server_db w)\<lparr>bread_t := B\<rparr>, published := published w @ [(''bread-bought'', k)]\<rparr>"
  obtain c q X where r: "ReportMatchingResults [processed ord] (server_db ?w) = (Inr c,
      (server_db ?w)\<lparr>buy_order_t := set_status (processed ord) (buy_order_t (server_db ?w)), outbox_t := X, seqs := q\<rparr>)"
    using ReportMatchingResults_calm [of "server_db ?w" ord] assms(2,4) B(2) by (auto simp: next_outbox_fits_def)
  have "quiet ?w" using assms(1) by (simp add: quiet_def)
  note r' = client_calm(3) [OF this r]
  have "processMatchingBatch [ord] channel_Publish newBrokerClient w
      = ?w\<lparr>server_db := (server_db ?w)\<lparr>buy_order_t := set_status (processed ord) (buy_order_t (server_db ?w)), outbox_t := X, seqs := q\<rparr>\<rparr>"
    using B(1) r' by (simp add: processMatchingBatch_def go_sort_def newBrokerClient_def [symmetric])
      (simp add: newBrokerClient_def)
  then show ?thesis using B(3) by (intro exI [of _ B] exI [of _ X] exI [of _ q]) simp
qed

end
