(* ===== verification/Market.thy ===== *)
theory Market
  imports Calm
begin

text \<open>
  The order path as a whole: what becomes of an order between the customer's \<open>BuyBread\<close>
  (\<open>server/gRPCBakery.go\<close>), the broker (\<open>broker/main.go\<close>, \<open>broker/matching.go\<close>), the server's database and
  the stream that waits for the settlement. The definitions are those of the parts; here are the
  properties that only their composition has.
\<close>

section \<open>Orders that cannot be stored\<close>

text \<open>An order with the same bread twice: the key of \<open>order_details\<close> is the order and the bread.\<close>

definition repeats_bread :: "BuyOrder \<Rightarrow> bool" where
  "repeats_bread order \<longleftrightarrow> \<not> distinct (map (\<lambda>b. int32 (b_ID b)) (o_Breads order))"

lemma added_distinct:
  assumes "order_added order conv B D i ys s" and "db_inv s"
  shows "distinct (map b_ID ys)"
proof -
  obtain ds where ds: "order_details_t s = D @ ds" "list_all2 (stored_as conv i) ys ds"
    using assms(1) by (auto simp: order_added_def)
  have "distinct (map (\<lambda>d. (od_buy_order_id d, od_bread_id d)) ds)"
    using assms(2) ds(1) by (simp add: db_inv_def orders_inv_def)
  moreover from ds(2) have "map (\<lambda>d. (od_buy_order_id d, od_bread_id d)) ds = map (\<lambda>b. (i, b_ID b)) ys"
    by (induction rule: list_all2_induct) (auto simp: stored_as_def)
  ultimately have "distinct (map (Pair i) (map b_ID ys))" by (simp add: comp_def)
  then show ?thesis by (auto simp: distinct_map inj_on_def)
qed

lemma InsertBuyOrder_repeated:
  assumes "db_inv s" and "\<not> distinct (map b_ID breads)" and "InsertBuyOrder order breads s = (r, t)"
  shows "(\<exists>e. r = Inl e) \<and> buy_order_t t = buy_order_t s"
proof -
  have t: "db_inv t" using keepsD [OF keeps_InsertBuyOrder assms(1), of order breads] assms(3) by simp
  have never: "\<not> order_added order (to_numeric s) (buy_order_t s) (order_details_t s) i breads t" for i
    using added_distinct t assms(2) by blast
  show ?thesis
    using tripleD [OF InsertBuyOrder_triple, of s "buy_order_t s" "order_details_t s" "to_numeric s" order breads]
      assms(3) never by (auto split: sum.splits)
qed

definition unreported :: "string \<Rightarrow> db \<Rightarrow> bool" where
  "unreported u s \<longleftrightarrow> db_inv s \<and> u \<notin> bo_uuid ` set (buy_order_t s)"

lemma GetBuyOrderByUUID_stored:
  assumes "GetBuyOrderByUUID u s = (Inr ord, t)"
  shows "u \<in> bo_uuid ` set (buy_order_t s)"
proof -
  have "triple (\<lambda>x. buy_order_t x = buy_order_t s) (GetBuyOrderByUUID u)
      (\<lambda>_ _. u \<in> bo_uuid ` set (buy_order_t s)) (\<lambda>_ _. True)"
    unfolding GetBuyOrderByUUID_def load_order_def
    by (rule triple_seq [where R = "\<lambda>r _. u \<in> bo_uuid ` set (buy_order_t s)"], rule triple_query_row)
      (auto simp: table_pred_def triple_def filter_eq_Cons_iff split: prod.split sum.split)
  from tripleD [OF this, of s] show ?thesis using assms by simp
qed

lemma ReportOrder_unstorable:
  assumes "unreported (pb_BuyOrderUuid req) s" and "\<not> distinct (map pb_BreadId (pb_Items req))"
    and "ReportOrder req s = (r, t)"
  shows "(\<exists>e. r = Inl e) \<and> unreported (pb_BuyOrderUuid req) t"
proof -
  obtain x s1 where x: "GetBuyOrderByUUID (pb_BuyOrderUuid req) s = (x, s1)" by fastforce
  have s1: "unreported (pb_BuyOrderUuid req) s1"
    using keepsD [OF keeps_GetBuyOrderByUUID, of s "pb_BuyOrderUuid req"] GetBuyOrderByUUID_orders [of "pb_BuyOrderUuid req" s]
      assms(1) x by (auto simp: unreported_def)
  obtain e where e: "x = Inl e"
    using x assms(1) GetBuyOrderByUUID_stored by (cases x) (auto simp: unreported_def)
  obtain y s2 where y: "InsertBuyOrder (protoToDataBuyOrder req) (protoToDataBreads (pb_Items req)) s1 = (y, s2)"
    by fastforce
  have "map b_ID (protoToDataBreads (pb_Items req)) = map pb_BreadId (pb_Items req)"
    by (simp add: protoToDataBreads_def comp_def)
  then have "(\<exists>f. y = Inl f) \<and> buy_order_t s2 = buy_order_t s1"
    using InsertBuyOrder_repeated [OF _ _ y] s1 assms(2) by (auto simp: unreported_def)
  moreover have "db_inv s2"
    using keepsD [OF keeps_InsertBuyOrder, of s1] s1 y by (metis snd_conv unreported_def)
  ultimately show ?thesis
    using assms(3) x y s1 e by (auto simp: ReportOrder_def attempt_apply unreported_def)
qed

text \<open>
  C37: An order that cannot be stored never leaves the queue: a delivery of one that names a bread
  twice, while no order of its UUID is stored, is put back, over any network and any faults, with
  the buffer as it was, and leaves no order of that UUID behind, so that the next delivery finds
  what this one found.
\<close>

theorem poison_order_returns:
  assumes "dec_BuyOrder body = Some order" and "repeats_bread order" and "unreported (o_BuyOrderUUID order) (server_db w)"
  shows "\<exists>w'. processOneOrder body newBrokerClient orders w = (NackRequeue, orders, w')
    \<and> unreported (o_BuyOrderUUID order) (server_db w')"
proof -
  let ?req = "dataToProtoBuyOrder order"
  obtain x cb v where call: "client_call (ReportOrder ?req) (reportOrderCB w) w = (x, cb, v)" by (metis prod_cases3)
  have req: "pb_BuyOrderUuid ?req = o_BuyOrderUUID order" "\<not> distinct (map pb_BreadId (pb_Items ?req))"
    using assms(2) by (simp_all add: dataToProtoBuyOrder_def repeats_bread_def comp_def)
  have "unreported (o_BuyOrderUUID order) (server_db v) \<and> (\<forall>a. x = Inr a \<longrightarrow> False)"
  proof (rule client_call_rule [where J = "unreported (o_BuyOrderUUID order)" and K = "\<lambda>_ _. False", OF _ assms(3) call])
    fix s r t assume "unreported (o_BuyOrderUUID order) s" "ReportOrder ?req s = (r, t)"
    from ReportOrder_unstorable [OF _ req(2) this(2)] this(1)
    show "unreported (o_BuyOrderUUID order) t \<and> (\<forall>a. r = Inr a \<longrightarrow> False)" by (auto simp: req(1))
  qed
  moreover from this obtain e where "x = Inl e" by (cases x) auto
  ultimately show ?thesis
    using call by (simp add: processOneOrder_ack assms(1) newBrokerClient_def client_ReportOrder_def)
qed

text \<open>
  Over a network without faults two deliveries of such an order open the breaker, and the next
  order, which is a good one, is put back too.
\<close>

definition two_rolls :: BuyOrder where
  "two_rolls = zero_BuyOrder\<lparr>o_CustomerID := 1, o_BuyOrderUUID := ''u2'', o_Breads := [ordered_bread 1 1, ordered_bread 1 1]\<rparr>"

definition poisoned :: broker_world where
  "poisoned = snd (snd (processOneOrder (the (enc_BuyOrder two_rolls)) newBrokerClient []
     (snd (snd (processOneOrder (the (enc_BuyOrder two_rolls)) newBrokerClient [] broker_ready)))))"

theorem poison_order_returns_witness:
  "fst (processOneOrder (the (enc_BuyOrder two_rolls)) newBrokerClient [] poisoned) = NackRequeue
    \<and> fst (processOneOrder (the (enc_BuyOrder two_loaves)) newBrokerClient [] broker_ready) = Ack
    \<and> fst (processOneOrder (the (enc_BuyOrder two_loaves)) newBrokerClient [] poisoned) = NackRequeue"
proof -
  have "dec_BuyOrder (the (enc_BuyOrder two_rolls)) = Some two_rolls" "repeats_bread two_rolls"
      "unreported (o_BuyOrderUUID two_rolls) (server_db poisoned)"
    by code_simp+
  from poison_order_returns [OF this, of "[]"]
  have "fst (processOneOrder (the (enc_BuyOrder two_rolls)) newBrokerClient [] poisoned) = NackRequeue" by auto
  moreover have "fst (processOneOrder (the (enc_BuyOrder two_loaves)) newBrokerClient [] broker_ready) = Ack"
      "fst (processOneOrder (the (enc_BuyOrder two_loaves)) newBrokerClient [] poisoned) = NackRequeue"
    by code_simp+
  ultimately show ?thesis by blast
qed

section \<open>From the order to its settlement\<close>

definition cents :: "db \<Rightarrow> int \<Rightarrow> int" where
  "cents s i = (case catalogue s i of Some r \<Rightarrow> (case br_price r of Amount c \<Rightarrow> c | NumNaN \<Rightarrow> 0) | None \<Rightarrow> 0)"

text \<open>Prices are those of \<open>NUMERIC(10,2)\<close>, and the driver gives them back as it read them.\<close>

definition priced :: "db \<Rightarrow> bool" where
  "priced s \<longleftrightarrow> (\<forall>r \<in> set (bread_t s). \<exists>c. br_price r = Amount c \<and> 0 \<le> c \<and> c < 10000000000
     \<and> to_numeric s 10 (f64_of_numeric (Amount c)) = Some (Amount c))"

definition shop_ready :: "db \<Rightarrow> bool" where
  "shop_ready s \<longleftrightarrow> db_inv s \<and> faults s = [] \<and> priced s \<and> next_order_fits s \<and> next_outbox_fits s"

definition for_sale :: "db \<Rightarrow> pbBread list \<Rightarrow> bool" where
  "for_sale s bs \<longleftrightarrow> bs \<noteq> [] \<and> length bs \<le> 64 \<and> distinct (map bd_Id bs)
     \<and> (\<forall>x \<in> set bs. 0 < bd_Quantity x \<and> is_int32 (bd_Quantity x) \<and> (\<exists>q. stock s (bd_Id x) = Some q \<and> bd_Quantity x \<le> q))"

definition as_priced :: "db \<Rightarrow> Bread \<Rightarrow> bool" where
  "as_priced s b \<longleftrightarrow> b_Price b = f64_of_numeric (Amount (cents s (b_ID b)))
     \<and> to_numeric s 10 (b_Price b) = Some (Amount (cents s (b_ID b))) \<and> f64_ok (b_Price b)
     \<and> fits_numeric 10 (Amount (cents s (b_ID b)))
     \<and> b_ID b \<in> br_id ` set (bread_t s)"

lemma ordered_bread_ready:
  assumes "shop_ready s" and "stock s (bd_Id x) = Some q" and "ordered_as s x b"
  shows "as_priced s b \<and> is_int32 (b_ID b) \<and> (\<exists>p. b_Price b = Fin p \<and> 0 \<le> p \<and> p \<le> pow2 27)"
proof -
  obtain r where r: "catalogue s (bd_Id x) = Some r" "r \<in> set (bread_t s)" "br_id r = bd_Id x"
    using assms(2) by (auto simp: stock_def quantity_of_def catalogue_def dest: find_SomeD)
  obtain c where c: "br_price r = Amount c" "0 \<le> c" "c < 10000000000"
      "to_numeric s 10 (f64_of_numeric (Amount c)) = Some (Amount c)"
    using assms(1) r(2) unfolding shop_ready_def priced_def by blast
  have p: "b_Price b = f64_of_numeric (Amount c)" "b_ID b = bd_Id x" "cents s (bd_Id x) = c"
    using assms(3) r(1) c(1) by (simp_all add: ordered_as_def cents_def)
  obtain y where y: "f64_of_numeric (Amount c) = Fin y" "0 \<le> y" "y \<le> pow2 27" using price_bound [OF c(2,3)] by blast
  have "is_int32 (bd_Id x)"
    using assms(1) r(2,3) by (auto simp: shop_ready_def db_inv_def bread_inv_def bread_row_error_None)
  moreover have "f64_ok (Fin y)" using f64_ok_rnd64 [of "of_int c / 100" y] y(1) by simp
  moreover have "bd_Id x \<in> br_id ` set (bread_t s)" using r(2,3) by (metis imageI)
  ultimately show ?thesis using p c(2-4) y by (simp add: as_priced_def del: f64_of_numeric.simps)
qed

lemma ordered_ready:
  assumes "list_all2 (ordered_as s) reqs xs" and "shop_ready s"
    and "\<forall>x \<in> set reqs. 0 < bd_Quantity x \<and> is_int32 (bd_Quantity x) \<and> (\<exists>q. stock s (bd_Id x) = Some q \<and> bd_Quantity x \<le> q)"
  shows "map b_ID xs = map bd_Id reqs \<and> map b_Quantity xs = map bd_Quantity reqs
    \<and> (\<forall>b \<in> set xs. as_priced s b \<and> enough (stock s) b \<and> (\<exists>p. b_Price b = Fin p \<and> 0 \<le> p \<and> p \<le> pow2 27))"
  using assms(1,3)
proof (induction rule: list_all2_induct)
  case (Cons x xs b bs)
  then obtain q where q: "stock s (bd_Id x) = Some q" "bd_Quantity x \<le> q" by auto
  from ordered_bread_ready [OF assms(2) q(1) Cons.hyps(1)] Cons q show ?case
    by (auto simp: enough_def ordered_as_def)
qed simp

lemma set_status_keys: "map bo_id (set_status m rs) = map bo_id rs" "map bo_uuid (set_status m rs) = map bo_uuid rs"
  by (simp_all add: set_status_def update_where_def comp_def if_distrib cong: if_cong)

lemma order_total_added:
  assumes "db_inv s" and added: "order_added order conv (buy_order_t s) (order_details_t s) i ys t"
    and "buy_order_t t' = set_status m (buy_order_t t)" and "order_details_t t' = order_details_t t"
    and "\<forall>b \<in> set ys. conv 10 (b_Price b) = Some (Amount (c b))"
  shows "order_total i t' = Amount (\<Sum>b\<leftarrow>ys. c b * b_Quantity b)"
proof -
  have B: "map bo_id (buy_order_t t') = map bo_id (buy_order_t s) @ [i]" "i \<notin> bo_id ` set (buy_order_t s)"
    using added assms(3) by (simp_all add: order_added_def set_status_keys)
  have one: "filter (\<lambda>x. x = i) (map bo_id (buy_order_t t')) = [i]"
    using B by (auto simp: filter_empty_conv)
  have "map bo_id (filter (\<lambda>bo. bo_id bo = i) (buy_order_t t')) = [i]"
    using one by (simp add: filter_map comp_def)
  then obtain h where h: "filter (\<lambda>bo. bo_id bo = i) (buy_order_t t') = [h]" "bo_id h = i" by auto
  have ds: "list_all2 (stored_as conv i) ys (filter (\<lambda>od. od_buy_order_id od = i) (order_details_t t'))"
    using details_of_added [OF assms(1) added] assms(4) by (simp add: details_of_def)
  have sum: "num_sum (map (\<lambda>od. num_scale (od_price od) (od_quantity od)) ds) = Amount (\<Sum>b\<leftarrow>ys. c b * b_Quantity b)"
    if "list_all2 (stored_as conv i) ys ds" "\<forall>b \<in> set ys. conv 10 (b_Price b) = Some (Amount (c b))" for ds ys
    using that
  proof (induction rule: list_all2_induct)
    case (Cons b bs d ds)
    then have "od_price d = Amount (c b)" "od_quantity d = b_Quantity b" by (simp_all add: stored_as_def)
    then show ?case using Cons by (simp add: num_sum_def)
  qed (simp add: num_sum_def)
  show ?thesis using sum [OF ds assms(5)] by (simp add: order_total_def h)
qed

lemma ReportOrder_calm:
  assumes "shop_ready s" and "o_CustomerID ord \<in> cu_id ` set (customer_t s)" and "fits 255 (o_BuyOrderUUID ord)"
    and "o_BuyOrderUUID ord \<notin> bo_uuid ` set (buy_order_t s)"
    and "\<forall>b \<in> set (o_Breads ord). as_priced s b \<and> enough (stock s) b" and "distinct (map b_ID (o_Breads ord))"
  shows "\<exists>q rs ds. ReportOrder (dataToProtoBuyOrder ord) s
      = (Inr \<lparr>Accepted = True, OrderId = seqs s BuySeq, Message = ''accepted''\<rparr>,
         s\<lparr>seqs := (seqs s)(BuySeq := q), buy_order_t := rs, order_details_t := ds\<rparr>)
    \<and> (\<exists>o2 ys. order_added o2 (to_numeric s) (buy_order_t s) (order_details_t s) (seqs s BuySeq) ys
          (s\<lparr>seqs := (seqs s)(BuySeq := q), buy_order_t := rs, order_details_t := ds\<rparr>)
        \<and> o_BuyOrderUUID o2 = o_BuyOrderUUID ord
        \<and> map b_ID ys = map b_ID (o_Breads ord) \<and> map b_Quantity ys = map b_Quantity (o_Breads ord)
        \<and> map b_Price ys = map b_Price (o_Breads ord))"
proof -
  let ?o = "protoToDataBuyOrder (dataToProtoBuyOrder ord)"
  let ?ys = "protoToDataBreads (pb_Items (dataToProtoBuyOrder ord))"
  have inv: "db_inv s" "faults s = []" "next_order_fits s" using assms(1) by (simp_all add: shop_ready_def)
  have "is_int32 (o_CustomerID ord)"
    using inv(1) assms(2) by (auto simp: db_inv_def accounts_inv_def customer_row_error_def split: if_splits)
  then have ord: "o_CustomerID ?o = o_CustomerID ord" "o_BuyOrderUUID ?o = o_BuyOrderUUID ord"
    by (simp_all add: protoToDataBuyOrder_def dataToProtoBuyOrder_def)
  have ys: "map b_ID ?ys = map b_ID (o_Breads ord)" "map b_Quantity ?ys = map b_Quantity (o_Breads ord)"
      "map b_Price ?ys = map b_Price (o_Breads ord)"
    using assms(5) by (auto simp: protoToDataBreads_def dataToProtoBuyOrder_def enough_def)
  have "\<forall>b \<in> set ?ys. b_ID b \<in> br_id ` set (bread_t s) \<and> is_int32 (b_Quantity b) \<and> has_price s b"
    using assms(5) by (auto simp: protoToDataBreads_def dataToProtoBuyOrder_def enough_def as_priced_def has_price_def)
  then obtain q rs ds where i: "InsertBuyOrder ?o ?ys s
      = (Inr (seqs s BuySeq), s\<lparr>seqs := (seqs s)(BuySeq := q), buy_order_t := rs, order_details_t := ds\<rparr>)"
    using InsertBuyOrder_calm [OF inv(2,1,3), of ?o ?ys] assms(2-4,6) ys(1) ord by auto
  have "ReportOrder (dataToProtoBuyOrder ord) s
      = (Inr \<lparr>Accepted = True, OrderId = seqs s BuySeq, Message = ''accepted''\<rparr>,
         s\<lparr>seqs := (seqs s)(BuySeq := q), buy_order_t := rs, order_details_t := ds\<rparr>)"
    using GetBuyOrderByUUID_absent [OF inv(2) assms(4)] i inv(3)
    by (simp add: ReportOrder_def attempt_apply next_order_fits_def) (simp add: dataToProtoBuyOrder_def attempt_apply)
  then show ?thesis using InsertBuyOrder_stores [OF i] ys ord by blast
qed

text \<open>What a settled order says of itself, in the database and to its stream.\<close>

definition cost_in_cents :: "db \<Rightarrow> pbBread list \<Rightarrow> int" where
  "cost_in_cents s bs = (\<Sum>x\<leftarrow>bs. cents s (bd_Id x) * bd_Quantity x)"

lemma settled_stream:
  assumes "faults s = []" and "order_total (o_ID ord) s = t"
  shows "BuyBreadStream u (Settlement ord) s = (Inr (settled_response ord (f64_of_numeric t)), s)"
  using assms
  by (simp add: BuyBreadStream_def report_settlement_def GetOrderTotalCost_def attempt_apply no_fault_simps)

lemma less_sold_breads:
  assumes "distinct (map bd_Id bs)" and "map b_ID xs = map bd_Id bs" and "map b_Quantity xs = map bd_Quantity bs"
  shows "x \<in> set bs \<Longrightarrow> less_sold xs st (bd_Id x) = map_option (\<lambda>q. q - bd_Quantity x) (st (bd_Id x))"
    and "i \<notin> bd_Id ` set bs \<Longrightarrow> less_sold xs st i = st i"
proof -
  have eq: "map b_Quantity (filter (\<lambda>b. b_ID b = i) xs) = map bd_Quantity (filter (\<lambda>x. bd_Id x = i) bs)" for i
    using assms(2,3)
  proof (induction xs arbitrary: bs)
    case (Cons b xs)
    then show ?case by (cases bs) auto
  qed simp
  show "i \<notin> bd_Id ` set bs \<Longrightarrow> less_sold xs st i = st i"
  proof -
    assume "i \<notin> bd_Id ` set bs"
    then have "filter (\<lambda>x. bd_Id x = i) bs = []" by (auto simp: filter_empty_conv)
    then show ?thesis by (simp add: less_sold_def eq option.map_ident)
  qed
  show "x \<in> set bs \<Longrightarrow> less_sold xs st (bd_Id x) = map_option (\<lambda>q. q - bd_Quantity x) (st (bd_Id x))"
  proof -
    assume x: "x \<in> set bs"
    have "filter (\<lambda>y. bd_Id y = bd_Id x) bs = [x]"
      by (simp add: distinct_filter_key [OF assms(1)] distinct_key_find [OF assms(1) x])
    then show ?thesis by (simp add: less_sold_def eq)
  qed
qed


lemma placed_order_ok:
  assumes "is_int32 (buyer ctx)" and "is_int64 n" and "case Preferences req of None \<Rightarrow> True | Some (p, _) \<Rightarrow> f64_ok p"
    and "\<forall>b \<in> set xs. is_int32 (b_ID b) \<and> is_int32 (b_Quantity b) \<and> f64_ok (b_Price b)"
  shows "BuyOrder_ok (buy_order uuid ctx req n t xs)"
  using assms
  by (auto simp: BuyOrder_ok_def buy_order_def zero_BuyOrder_def zero_Customer_def Bread_ok_def is_int32_is_int64
      split: option.splits) (simp_all add: is_int64_def)

text \<open>An order as \<open>BuyBread\<close> makes it, of breads that are there.\<close>

definition placed :: "db \<Rightarrow> pbBread list \<Rightarrow> string \<Rightarrow> BuyOrder \<Rightarrow> bool" where
  "placed s reqs u ord \<longleftrightarrow> BuyOrder_ok ord \<and> o_ID ord = 0 \<and> o_BuyOrderUUID ord = u
     \<and> o_CustomerID ord \<in> cu_id ` set (customer_t s) \<and> modest (o_Breads ord)
     \<and> map b_ID (o_Breads ord) = map bd_Id reqs \<and> map b_Quantity (o_Breads ord) = map bd_Quantity reqs
     \<and> (\<forall>b \<in> set (o_Breads ord). as_priced s b \<and> enough (stock s) b)"

lemma BuyBread_places:
  assumes "shop_ready (bk_db b)" and "amqp b = []" and "for_sale (bk_db b) (req_Breads req)"
    and "buyer ctx \<in> cu_id ` set (customer_t (bk_db b))"
    and "u = (if req_BuyOrderUuid req \<noteq> [] then req_BuyOrderUuid req else uuid)"
    and "case Preferences req of None \<Rightarrow> True | Some (p, _) \<Rightarrow> f64_ok p"
  shows "\<exists>r b' j ord. BuyBread uuid False ctx req b = (Inr r, b') \<and> bk_db b' = bk_db b
    \<and> sent b' = sent b @ [(''buy-bread-order'', j)] \<and> dec_BuyOrder j = Some ord \<and> placed (bk_db b) (req_Breads req) u ord"
proof -
  let ?s = "bk_db b" and ?n = "int64 (orderSequence b + 1)"
  let ?b = "b\<lparr>orderSequence := ?n\<rparr>"
  have inv: "db_inv ?s" "faults ?s = []" using assms(1) by (simp_all add: shop_ready_def)
  obtain xs where xs: "for_each add_bread (req_Breads req) [] ?b = (Inr xs, ?b)"
      "list_all2 (ordered_as ?s) (req_Breads req) xs"
    using order_breads_calm [of ?b "req_Breads req" "[]"] inv(2) by auto
  have sale: "distinct (map bd_Id (req_Breads req))" "req_Breads req \<noteq> []" "length (req_Breads req) \<le> 64"
      "\<forall>x \<in> set (req_Breads req). 0 < bd_Quantity x \<and> is_int32 (bd_Quantity x) \<and> (\<exists>q. stock ?s (bd_Id x) = Some q \<and> bd_Quantity x \<le> q)"
    using assms(3) by (simp_all add: for_sale_def)
  note r = ordered_ready [OF xs(2) assms(1) sale(4)]
  let ?ord = "buy_order uuid ctx req ?n (now ?s) xs"
  have ord: "o_Breads ?ord = xs" "o_BuyOrderUUID ?ord = u" "o_CustomerID ?ord = buyer ctx" "o_ID ?ord = 0"
    using assms(5) by (simp_all add: buy_order_def zero_BuyOrder_def)
  have cid: "is_int32 (buyer ctx)"
    using inv(1) assms(4) by (auto simp: db_inv_def accounts_inv_def customer_row_error_def split: if_splits)
  have xok: "\<forall>b \<in> set xs. is_int32 (b_ID b) \<and> is_int32 (b_Quantity b) \<and> f64_ok (b_Price b)"
    using r by (auto simp: enough_def as_priced_def)
  have ok: "BuyOrder_ok ?ord" using placed_order_ok [OF cid _ assms(6) xok] by simp
  obtain j where j: "enc_BuyOrder ?ord = Some j" "dec_BuyOrder j = Some ?ord" using dec_enc_BuyOrder [OF ok] by blast
  have "BuyBread uuid False ctx req b = (Inr (buy_response ?ord), ?b\<lparr>sent := sent b @ [(''buy-bread-order'', j)]\<rparr>)"
    using assms(2) xs(1) j(1) by (simp add: BuyBread_def seq_apply attempt_apply next_sequence_def Let_def)
  moreover have "modest xs"
    using r sale(1-3) by (auto simp: modest_def enough_def dest: arg_cong [where f = length])
  then have "placed ?s (req_Breads req) u ?ord" using ok ord r assms(4) by (simp add: placed_def)
  ultimately show ?thesis using j(2) by fastforce
qed

text \<open>What the server holds after it has taken the order in.\<close>

definition taken_in :: "db \<Rightarrow> BuyOrder \<Rightarrow> db \<Rightarrow> bool" where
  "taken_in s ord s1 \<longleftrightarrow> db_inv s1
     \<and> (\<exists>q rs ds. s1 = s\<lparr>seqs := (seqs s)(BuySeq := q), buy_order_t := rs, order_details_t := ds\<rparr>)
     \<and> (\<exists>o2 ys. order_added o2 (to_numeric s) (buy_order_t s) (order_details_t s) (seqs s BuySeq) ys s1
          \<and> o_BuyOrderUUID o2 = o_BuyOrderUUID ord \<and> map b_ID ys = map b_ID (o_Breads ord)
          \<and> map b_Quantity ys = map b_Quantity (o_Breads ord) \<and> map b_Price ys = map b_Price (o_Breads ord))"

lemma broker_takes:
  assumes "shop_ready s" and "placed s reqs u ord" and "fits 255 u" and "u \<notin> bo_uuid ` set (buy_order_t s)"
    and "dec_BuyOrder j = Some ord" and "quiet w" and "server_db w = s"
  shows "\<exists>s1. processOneOrder j newBrokerClient [] w = (Ack, [ord\<lparr>o_ID := seqs s BuySeq\<rparr>], w\<lparr>server_db := s1\<rparr>)
    \<and> taken_in s ord s1"
proof -
  have ord: "o_ID ord = 0" "o_BuyOrderUUID ord = u" "o_CustomerID ord \<in> cu_id ` set (customer_t s)"
      "\<forall>b \<in> set (o_Breads ord). as_priced s b \<and> enough (stock s) b" "distinct (map b_ID (o_Breads ord))"
    using assms(2) unfolding placed_def modest_def by blast+
  obtain s1 where s1: "ReportOrder (dataToProtoBuyOrder ord) s = (Inr \<lparr>Accepted = True, OrderId = seqs s BuySeq, Message = ''accepted''\<rparr>, s1)"
      "db_inv s1 \<Longrightarrow> taken_in s ord s1"
    using ReportOrder_calm [OF assms(1) ord(3) _ _ ord(4,5)] assms(3,4) ord(2) unfolding taken_in_def by blast
  have "db_inv s1"
    using keepsD [OF keeps_ReportOrder, of s "dataToProtoBuyOrder ord"] assms(1) s1(1) by (simp add: shop_ready_def)
  then show ?thesis
    using client_calm(1) [OF assms(6), of "dataToProtoBuyOrder ord"] s1 assms(5,7) ord(1)
    by (intro exI [of _ s1]) (simp add: processOneOrder_def newBrokerClient_def buffer_add_def)
qed

lemma settlement_read:
  assumes "BuyOrder_ok ord" and "modest (o_Breads ord)" and "\<forall>b \<in> set (o_Breads ord). is_int32 (b_ID b)"
    and "o_BuyOrderUUID ord \<noteq> []"
  shows "\<exists>k. enc_publishResult (settlement_of ord) = Some k \<and> decode_delivery (Some k) = Some ord"
proof -
  obtain c where c: "total_cost (o_Breads ord) 0 = Fin c" "rnd64 c = Fin c" "\<bar>c\<bar> < 2 ^ 128 - 2 ^ 103"
    using modest_cost [OF assms(2)] by blast
  have "f64_ok (Fin c)" by (simp add: f64_ok_def c(2))
  then have ok: "publishResult_ok (settlement_of ord)"
    using assms(1-3) c(1)
    by (auto simp: publishResult_ok_def settlement_of_def matchingItemsToDataOrderItems_def processed_def
        OrderItem_ok_def make_item_def is_int32_is_int64 modest_def)
  obtain k where k: "enc_publishResult (settlement_of ord) = Some k" using dec_enc_publishResult [OF ok] by blast
  then show ?thesis using settlement_reads_result [OF ok _ _ c(3)] c(1) assms(4) by (simp add: settlement_of_def)
qed

lemma batch_settles:
  assumes "shop_ready s" and "placed s reqs u ord" and "taken_in s ord s1" and "quiet w" and "u \<noteq> []"
  shows "\<exists>k B X q. processMatchingBatch [ord\<lparr>o_ID := seqs s BuySeq\<rparr>] channel_Publish newBrokerClient (w\<lparr>server_db := s1\<rparr>)
      = w\<lparr>server_db := s1\<lparr>bread_t := B, buy_order_t := set_status (processed ord) (buy_order_t s1), outbox_t := X, seqs := q\<rparr>,
          published := published w @ [(''bread-bought'', k)]\<rparr>
    \<and> decode_delivery (Some k) = Some (ord\<lparr>o_ID := seqs s BuySeq\<rparr>)
    \<and> stock (s1\<lparr>bread_t := B\<rparr>) = less_sold (o_Breads ord) (stock s)"
proof -
  let ?ord = "ord\<lparr>o_ID := seqs s BuySeq\<rparr>" and ?w = "w\<lparr>server_db := s1\<rparr>"
  have ord: "modest (o_Breads ord)" "\<forall>b \<in> set (o_Breads ord). enough (stock s) b" "o_BuyOrderUUID ord = u" "BuyOrder_ok ?ord"
    using assms(1,2) by (auto simp: placed_def BuyOrder_ok_def shop_ready_def next_order_fits_def is_int32_is_int64)
  have s1: "db_inv s1" "faults s1 = []" "stock s1 = stock s" "next_outbox_fits s1"
    using assms(1,3) by (auto simp: taken_in_def shop_ready_def next_outbox_fits_def stock_def)
  obtain k where k: "enc_publishResult (settlement_of ?ord) = Some k" "decode_delivery (Some k) = Some ?ord"
    using settlement_read [of ?ord] ord assms(5) by (auto simp: enough_def)
  have p: "processed ?ord = processed ord" by (simp add: processed_def)
  have "quiet ?w" using assms(4) by simp
  then show ?thesis
    using batch_calm [of ?w ?ord k] s1 ord k unfolding p by fastforce
qed

lemma order_settled:
  assumes "shop_ready s" and "placed s reqs u ord" and "taken_in s ord s1" and "u \<notin> bo_uuid ` set (buy_order_t s)"
    and "buy_order_t t = set_status (processed ord) (buy_order_t s1)" and "order_details_t t = order_details_t s1"
  shows "order_total (seqs s BuySeq) t = Amount (cost_in_cents s reqs)"
    and "map bo_status (filter (\<lambda>r. bo_uuid r = u) (buy_order_t t)) = [''processed'']"
proof -
  obtain o2 ys where added: "order_added o2 (to_numeric s) (buy_order_t s) (order_details_t s) (seqs s BuySeq) ys s1"
      "o_BuyOrderUUID o2 = u" "map b_ID ys = map bd_Id reqs" "map b_Quantity ys = map bd_Quantity reqs"
      "map b_Price ys = map b_Price (o_Breads ord)"
    using assms(2,3) by (auto simp: taken_in_def placed_def)
  have price: "to_numeric s 10 (b_Price b) = Some (Amount (cents s (b_ID b)))" if b: "b \<in> set ys" for b
  proof -
    obtain m where m: "m < length ys" "ys ! m = b" using b by (auto simp: in_set_conv_nth)
    let ?x = "o_Breads ord ! m"
    have "length ys = length (o_Breads ord)" using added(5) by (metis length_map)
    then have "b_ID ?x = b_ID b" "b_Price ?x = b_Price b" "?x \<in> set (o_Breads ord)"
      using m added(3,5) assms(2) unfolding placed_def by (metis nth_map, metis nth_map, simp)
    then show ?thesis using assms(2) unfolding placed_def as_priced_def by metis
  qed
  have "map (\<lambda>b. cents s (b_ID b) * b_Quantity b) ys = map (\<lambda>x. cents s (bd_Id x) * bd_Quantity x) reqs"
    using added(3,4)
  proof (induction ys arbitrary: reqs)
    case (Cons b ys)
    then show ?case by (cases reqs) auto
  qed simp
  then show "order_total (seqs s BuySeq) t = Amount (cost_in_cents s reqs)"
    using order_total_added [OF _ added(1) assms(5,6), of "\<lambda>b. cents s (b_ID b)"] price assms(1)
    by (simp add: cost_in_cents_def shop_ready_def)
  have "filter (\<lambda>r. bo_uuid r = u) (set_status (processed ord) (buy_order_t s)) = []"
    using assms(4) set_status_keys(2) [of "processed ord" "buy_order_t s"]
    unfolding filter_empty_conv by (metis imageI set_map)
  then show "map bo_status (filter (\<lambda>r. bo_uuid r = u) (buy_order_t t)) = [''processed'']"
    using assms(2,5) added(1,2) by (simp add: order_added_def set_status_def update_where_def processed_def placed_def)
qed

text \<open>
  C3: A whole order, from the customer to its settlement. Let the schema hold and every price be
  one of the column that the driver reads back as it is, let the database, RabbitMQ and the
  network meet no fault, the breakers be closed and the identifiers not be used up; let the order
  have between 1 and 64 breads, none named twice, each with a positive quantity of at most what is
  on the shelves, a customer who is known, a new UUID of 1 to 255 characters and a bid that JSON
  can carry. Then \<open>BuyBread\<close> publishes one message; the broker acknowledges it and
  buffers one order; the batch of that order publishes one settlement, which the dispatcher reads
  as that order, with its UUID; the stream waiting for it answers with the price in the catalogue
  of all that was ordered; and in the database the order is processed, and exactly the breads
  ordered are gone.
\<close>

theorem order_comes_back_settled:
  assumes "shop_ready (bk_db b)" and "amqp b = []" and "for_sale (bk_db b) (req_Breads req)"
    and "buyer ctx \<in> cu_id ` set (customer_t (bk_db b))"
    and "u = (if req_BuyOrderUuid req \<noteq> [] then req_BuyOrderUuid req else uuid)" and "u \<noteq> []" and "fits 255 u"
    and "u \<notin> bo_uuid ` set (buy_order_t (bk_db b))"
    and "case Preferences req of None \<Rightarrow> True | Some (p, _) \<Rightarrow> f64_ok p"
    and "quiet w" and "server_db w = bk_db b"
  shows "\<exists>r b' j ord w1 w2 k. BuyBread uuid False ctx req b = (Inr r, b') \<and> bk_db b' = bk_db b
    \<and> sent b' = sent b @ [(''buy-bread-order'', j)]
    \<and> processOneOrder j newBrokerClient [] w = (Ack, [ord], w1)
    \<and> processMatchingBatch [ord] channel_Publish newBrokerClient w1 = w2
    \<and> published w2 = published w @ [(''bread-bought'', k)]
    \<and> decode_delivery (Some k) = Some ord \<and> o_BuyOrderUUID ord = u
    \<and> BuyBreadStream u (Settlement ord) (server_db w2)
        = (Inr (settled_response ord (f64_of_numeric (Amount (cost_in_cents (bk_db b) (req_Breads req))))), server_db w2)
    \<and> map bo_status (filter (\<lambda>r. bo_uuid r = u) (buy_order_t (server_db w2))) = [''processed'']
    \<and> (\<forall>x \<in> set (req_Breads req). stock (server_db w2) (bd_Id x)
          = map_option (\<lambda>q. q - bd_Quantity x) (stock (bk_db b) (bd_Id x)))
    \<and> (\<forall>i. i \<notin> bd_Id ` set (req_Breads req) \<longrightarrow> stock (server_db w2) i = stock (bk_db b) i)"
proof -
  let ?s = "bk_db b"
  obtain r b' j ord where buy: "BuyBread uuid False ctx req b = (Inr r, b')" "bk_db b' = ?s"
      "sent b' = sent b @ [(''buy-bread-order'', j)]" "dec_BuyOrder j = Some ord" "placed ?s (req_Breads req) u ord"
    using BuyBread_places [OF assms(1-5,9)] by blast
  let ?ord = "ord\<lparr>o_ID := seqs ?s BuySeq\<rparr>"
  obtain s1 where s1: "processOneOrder j newBrokerClient [] w = (Ack, [?ord], w\<lparr>server_db := s1\<rparr>)" "taken_in ?s ord s1"
    using broker_takes [OF assms(1) buy(5) assms(7,8) buy(4) assms(10,11)] by blast
  obtain k B X q where batch: "processMatchingBatch [?ord] channel_Publish newBrokerClient (w\<lparr>server_db := s1\<rparr>)
      = w\<lparr>server_db := s1\<lparr>bread_t := B, buy_order_t := set_status (processed ord) (buy_order_t s1), outbox_t := X, seqs := q\<rparr>,
          published := published w @ [(''bread-bought'', k)]\<rparr>"
      "decode_delivery (Some k) = Some ?ord" "stock (s1\<lparr>bread_t := B\<rparr>) = less_sold (o_Breads ord) (stock ?s)"
    using batch_settles [OF assms(1) buy(5) s1(2) assms(10,6)] by blast
  let ?w2 = "processMatchingBatch [?ord] channel_Publish newBrokerClient (w\<lparr>server_db := s1\<rparr>)"
  have tables: "buy_order_t (server_db ?w2) = set_status (processed ord) (buy_order_t s1)"
      "order_details_t (server_db ?w2) = order_details_t s1" "faults (server_db ?w2) = []"
      "stock (server_db ?w2) = less_sold (o_Breads ord) (stock ?s)"
    using batch(1,3) s1(2) assms(1) by (auto simp: taken_in_def shop_ready_def stock_def)
  note done_order = order_settled [OF assms(1) buy(5) s1(2) assms(8) tables(1,2)]
  have ids: "map b_ID (o_Breads ord) = map bd_Id (req_Breads req)" "map b_Quantity (o_Breads ord) = map bd_Quantity (req_Breads req)"
    and d: "distinct (map bd_Id (req_Breads req))" and u: "o_BuyOrderUUID ?ord = u"
    using buy(5) assms(3) by (simp_all add: placed_def for_sale_def)
  have stream: "BuyBreadStream u (Settlement ?ord) (server_db ?w2)
      = (Inr (settled_response ?ord (f64_of_numeric (Amount (cost_in_cents ?s (req_Breads req))))), server_db ?w2)"
    by (rule settled_stream) (use tables(3) done_order(1) in simp_all)
  have pub: "published ?w2 = published w @ [(''bread-bought'', k)]" using batch(1) by simp
  have sold: "\<forall>x \<in> set (req_Breads req). stock (server_db ?w2) (bd_Id x) = map_option (\<lambda>q. q - bd_Quantity x) (stock ?s (bd_Id x))"
    and kept: "\<forall>i. i \<notin> bd_Id ` set (req_Breads req) \<longrightarrow> stock (server_db ?w2) i = stock ?s i"
    unfolding tables(4) using less_sold_breads [OF d ids] by blast+
  show ?thesis
    by (intro exI conjI, rule buy(1), rule buy(2), rule buy(3), rule s1(1), rule refl, rule pub, rule batch(2), rule u,
        rule stream, rule done_order(2), rule sold, rule kept)
qed

definition quiet_market :: bakery where
  "quiet_market = sample_bakery\<lparr>amqp := []\<rparr>"

definition two_loaves_request :: BreadRequest where
  "two_loaves_request = sample_request\<lparr>req_Breads := [pb_of 1 2]\<rparr>"

theorem order_comes_back_settled_witness:
  "\<exists>j ord w1. sent (snd (BuyBread ''v'' False (headers []) two_loaves_request quiet_market)) = [(''buy-bread-order'', j)]
    \<and> processOneOrder j newBrokerClient [] broker_ready = (Ack, [ord], w1)
    \<and> stock (server_db (processMatchingBatch [ord] channel_Publish newBrokerClient w1)) 1 = Some 3"
proof -
  have db: "bk_db quiet_market = sample_db" "amqp quiet_market = []" "sent quiet_market = []"
      "server_db broker_ready = sample_db"
    by (simp_all add: quiet_market_def sample_bakery_def broker_ready_def new_broker_def)
  have ready: "shop_ready sample_db"
  proof -
    have "db_inv sample_db" "faults sample_db = []" by code_simp+
    moreover have "priced sample_db"
      by (simp add: priced_def sample_db_def sample_bread_def empty_db_def)
    moreover have "next_order_fits sample_db" "next_outbox_fits sample_db"
      by (simp_all add: next_order_fits_def next_outbox_fits_def sample_db_def empty_db_def is_int32_def)
    ultimately show ?thesis by (simp add: shop_ready_def)
  qed
  have sale: "quiet broker_ready" "stock sample_db 1 = Some 5" "buyer (headers []) \<in> cu_id ` set (customer_t sample_db)"
      "buy_order_t sample_db = []"
    by code_simp+
  have req: "req_BuyOrderUuid two_loaves_request = ''u7''" "Preferences two_loaves_request = None"
      "map bd_Id (req_Breads two_loaves_request) = [1]" "map bd_Quantity (req_Breads two_loaves_request) = [2]"
    by (simp_all add: two_loaves_request_def sample_request_def pb_of_def)
  have sold: "for_sale sample_db (req_Breads two_loaves_request)"
    using sale(2) by (simp add: for_sale_def two_loaves_request_def pb_of_def is_int32_def)
  obtain r b' j ord w1 w2 where "BuyBread ''v'' False (headers []) two_loaves_request quiet_market = (Inr r, b')"
      "sent b' = [(''buy-bread-order'', j)]" "processOneOrder j newBrokerClient [] broker_ready = (Ack, [ord], w1)"
      "processMatchingBatch [ord] channel_Publish newBrokerClient w1 = w2"
      "\<forall>x \<in> set (req_Breads two_loaves_request). stock (server_db w2) (bd_Id x) = map_option (\<lambda>q. q - bd_Quantity x) (stock sample_db (bd_Id x))"
    using order_comes_back_settled [of quiet_market two_loaves_request "headers []" "''u7''" "''v''" broker_ready]
    using db ready sale sold req by (auto simp: fits_def)
  then show ?thesis using sale(2) by (auto simp: two_loaves_request_def pb_of_def)
qed

end
