(* ===== verification/ServerProcess.thy ===== *)
theory ServerProcess
  imports Replenish
begin

text \<open>
  The server as a process: its start (\<open>server/main.go\<close>, \<open>init\<close> of \<open>rabbitBakery.go\<close>) and the
  connections of its two consumers, the listener on bread-made (\<open>rabbitBakery.go\<close>) and the settlement
  dispatcher on bread-bought (\<open>settlement_dispatcher.go\<close>), which are opened again and again.
\<close>

section \<open>The database\<close>

text \<open>What an attempt to open the database meets; \<open>openDB\<close> pings what it has opened.\<close>

datatype db_attempt = OpenFails | PingFails | Answers

definition openDB :: "db_attempt \<Rightarrow> unit option" where
  "openDB a = (case a of OpenFails \<Rightarrow> None | PingFails \<Rightarrow> None | Answers \<Rightarrow> Some ())"

text \<open>
  The counter \<open>counts\<close> is a global of the process, never reset; \<open>tries\<close> and \<open>slept\<close> (nanoseconds) are
  what the loop has done. The counter is compared after every increment, so that it stays below 12.
\<close>

record dialling =
  counts :: int
  tries :: nat
  slept :: int

function connectToDB :: "(nat \<Rightarrow> db_attempt) \<Rightarrow> dialling \<Rightarrow> bool \<times> dialling" where
  "connectToDB attempts d =
     (let d1 = d\<lparr>tries := tries d + 1\<rparr>
      in case openDB (attempts (tries d)) of
           Some connection \<Rightarrow> (True, d1)
         | None \<Rightarrow>
             (let d2 = d1\<lparr>counts := counts d1 + 1\<rparr>
              in if 10 < counts d2 then (False, d2)
                 else connectToDB attempts (d2\<lparr>slept := slept d2 + 5 * 1000000000\<rparr>)))"
  by pat_completeness auto
termination by (relation "measure (\<lambda>(attempts, d). nat (11 - counts d))") auto

declare connectToDB.simps [simp del]

lemma connectToDB_tries:
  assumes "connectToDB attempts d = (ok, d')" and "counts d \<le> 10"
  shows "\<exists>n. tries d' = tries d + Suc n \<and> int n \<le> 10 - counts d \<and> slept d' = slept d + int n * 5000000000
    \<and> (\<forall>k < n. attempts (tries d + k) \<noteq> Answers)
    \<and> (if ok then attempts (tries d + n) = Answers \<and> counts d' = counts d + int n
       else attempts (tries d + n) \<noteq> Answers \<and> int n = 10 - counts d \<and> counts d' = 11)"
  using assms
proof (induction attempts d rule: connectToDB.induct)
  case (1 attempts d)
  show ?case
  proof (cases "attempts (tries d) = Answers")
    case True
    then show ?thesis using 1(2,3) by (auto simp: connectToDB.simps [of attempts d] openDB_def)
  next
    case False
    then have none: "openDB (attempts (tries d)) = None" by (cases "attempts (tries d)") (simp_all add: openDB_def)
    let ?d = "d\<lparr>tries := tries d + 1, counts := counts d + 1\<rparr>"
    show ?thesis
    proof (cases "10 < counts d + 1")
      case True
      then show ?thesis using 1(2,3) none False
        by (intro exI [of _ 0]) (auto simp: connectToDB.simps [of attempts d])
    next
      case more: False
      let ?e = "?d\<lparr>slept := slept d + 5000000000\<rparr>"
      have run: "connectToDB attempts ?e = (ok, d')"
        using 1(2) none more by (simp add: connectToDB.simps [of attempts d])
      have "\<exists>n. tries d' = Suc (tries d) + Suc n \<and> int n \<le> 9 - counts d
          \<and> slept d' = slept d + 5000000000 + int n * 5000000000
          \<and> (\<forall>k < n. attempts (Suc (tries d) + k) \<noteq> Answers)
          \<and> (if ok then attempts (Suc (tries d) + n) = Answers \<and> counts d' = counts d + 1 + int n
             else attempts (Suc (tries d) + n) \<noteq> Answers \<and> int n = 9 - counts d \<and> counts d' = 11)"
        using 1(1) [OF refl none refl] more run by (simp cong: if_cong)
      then obtain n where n: "tries d' = Suc (tries d) + Suc n" "int n \<le> 9 - counts d"
          "slept d' = slept d + 5000000000 + int n * 5000000000" "\<forall>k < n. attempts (Suc (tries d) + k) \<noteq> Answers"
          "if ok then attempts (Suc (tries d) + n) = Answers \<and> counts d' = counts d + 1 + int n
           else attempts (Suc (tries d) + n) \<noteq> Answers \<and> int n = 9 - counts d \<and> counts d' = 11"
        by blast
      have "\<forall>k < Suc n. attempts (tries d + k) \<noteq> Answers"
        using n(4) False by (simp add: All_less_Suc2)
      then show ?thesis using n(1-3,5)
        by (intro exI [of _ "Suc n"]) (simp add: algebra_simps split: if_splits)
    qed
  qed
qed

definition new_dialling :: dialling where
  "new_dialling = \<lparr>counts = 0, tries = 0, slept = 0\<rparr>"

text \<open>
  C39: \<open>connectToDB\<close> returns: it tries at most eleven times, one more than its log says, waits five
  seconds after each failure but the last, and gives up exactly when the first eleven attempts
  fail; otherwise it stops at the first one that succeeds.
\<close>

theorem connectToDB_bounded:
  "case connectToDB attempts new_dialling of (ok, d) \<Rightarrow>
     0 < tries d \<and> tries d \<le> 11 \<and> slept d = (int (tries d) - 1) * 5000000000
     \<and> ok = (\<exists>k < 11. attempts k = Answers)
     \<and> (if ok then tries d = Suc (LEAST k. attempts k = Answers) else tries d = 11)"
proof -
  obtain ok d where run: "connectToDB attempts new_dialling = (ok, d)" by fastforce
  obtain n where n: "tries d = Suc n" "int n \<le> 10" "slept d = int n * 5000000000"
      "\<forall>k < n. attempts k \<noteq> Answers"
      "if ok then attempts n = Answers else attempts n \<noteq> Answers \<and> int n = 10"
    using connectToDB_tries [OF run] by (auto simp: new_dialling_def split: if_splits)
  have "(LEAST k. attempts k = Answers) = n" if "attempts n = Answers"
    using that n(4) by (intro Least_equality) (auto simp: not_less [symmetric])
  moreover have "attempts k \<noteq> Answers" if "\<not> ok" "k < 11" for k
    using n(4,5) that by (cases "k = 10") (auto simp: less_Suc_eq)
  moreover have "n < 11" using n(2) by linarith
  ultimately show ?thesis using n(1,3,5) unfolding run prod.case by (cases ok) auto
qed

section \<open>The start\<close>

text \<open>
  \<open>init\<close> declares the one queue the server owns. A failure to connect is logged, and the server
  starts without it; only a declaration that fails ends the process (\<open>log.Fatalf\<close>). It is run once.
\<close>

definition init :: "(bakery, code, string list) proc" where
  "init = attempt amqp_op (\<lambda>err. ret []) (\<lambda>_.
          attempt amqp_op (\<lambda>err. ret []) (\<lambda>_.
          seq amqp_op (\<lambda>_. ret [''bread-made''])))"

text \<open>How \<open>main\<close> begins: the exits that end the process, or a server with the queues it declared.\<close>

datatype start = ListenFatal | DatabasePanic | DeclareFatal | Serving "string list"

definition server_main :: "bool \<Rightarrow> (nat \<Rightarrow> db_attempt) \<Rightarrow> bakery \<Rightarrow> start \<times> bakery" where
  "server_main listens attempts b =
     (if \<not> listens then (ListenFatal, b)
      else if \<not> fst (connectToDB attempts new_dialling) then (DatabasePanic, b)
      else (case init b of
              (Inl err, b1) \<Rightarrow> (DeclareFatal, b1)
            | (Inr queues, b1) \<Rightarrow> (Serving queues, b1)))"

section \<open>The consumers\<close>

text \<open>
  Consuming from a queue that was never declared is an error of RabbitMQ (404, NOT_FOUND), and so is a
  fault of the connection.
\<close>

definition Consume :: "string \<Rightarrow> string set \<Rightarrow> (bakery, code, unit) proc" where
  "Consume queue declared = (if queue \<in> declared then amqp_op else seq amqp_op (\<lambda>_. fail Unknown))"

text \<open>
  One round of \<open>listenForBreadMade\<close> up to its deliveries: connection, channel, QoS, consumer. After a
  failure, and after the deliveries have ended, it sleeps ten seconds and begins again.
\<close>

definition listener_connects :: "string set \<Rightarrow> (bakery, code, unit) proc" where
  "listener_connects declared =
     seq amqp_op (\<lambda>_. seq amqp_op (\<lambda>_. seq amqp_op (\<lambda>_. Consume ''bread-made'' declared)))"

text \<open>\<open>runOnce\<close> of the dispatcher, likewise; \<open>loop\<close> sleeps five seconds after an error only.\<close>

definition runOnce_connects :: "string set \<Rightarrow> (bakery, code, unit) proc" where
  "runOnce_connects declared = seq amqp_op (\<lambda>_. seq amqp_op (\<lambda>_. Consume ''bread-bought'' declared))"

definition dispatcher_pause :: "code + unit \<Rightarrow> int" where
  "dispatcher_pause r = (case r of Inl err \<Rightarrow> 5 * 1000000000 | Inr u \<Rightarrow> 0)"

lemma init_declares:
  assumes "init b = (r, b')"
  shows "bk_db b' = bk_db b" and "r = Inr queues \<Longrightarrow> queues = [] \<or> queues = [''bread-made'']"
proof -
  have "keeps (\<lambda>x. bk_db x = bk_db b) init" unfolding init_def
    by (intro keeps_intros keeps_amqp_op [where I = "\<lambda>s. s = bk_db b"])
  from keepsD [OF this refl] show "bk_db b' = bk_db b" by (simp add: assms)
  show "r = Inr queues \<Longrightarrow> queues = [] \<or> queues = [''bread-made'']"
    using assms by (auto simp: init_def attempt_apply seq_apply split: prod.splits sum.splits)
qed

lemma seq_fails: "(\<And>a c. isl (fst (k a c))) \<Longrightarrow> isl (fst (seq m k b))"
  by (cases "m b"; cases "fst (m b)") (simp_all add: seq_apply)

lemma Consume_undeclared: "queue \<notin> declared \<Longrightarrow> isl (fst (Consume queue declared b))"
  by (simp add: Consume_def seq_fails fail_def)

lemma listener_undeclared: "''bread-made'' \<notin> declared \<Longrightarrow> isl (fst (listener_connects declared b))"
  unfolding listener_connects_def by (intro seq_fails Consume_undeclared)

end
