(* ===== verification/System.thy ===== *)
theory System
  imports ServerProcess BrokerProcess Bakery Database
begin

text \<open>
  The processes together, over one database and the queues of RabbitMQ: customers who buy
  (\<open>server/gRPCBakery.go\<close>), the broker (\<open>broker/main.go\<close>, \<open>broker/matching.go\<close>), the stock check and the
  listener of the server (\<open>server/rabbitBakery.go\<close>), the makers (\<open>makers/main.go\<close>) and everybody else who
  uses the database, administrators included. A step is one operation of one of them, under any
  faults: one item of an order for the broker, the read or the write of the stock for the listener.
\<close>

section \<open>The market\<close>

text \<open>
  What the listener has in hand between the two statements of \<open>AdjustBreadQuantity\<close>: the confirmation,
  the bread, the quantity it has read, and the one it is going to write.
\<close>

record pending_write =
  pw_body :: json
  pw_bread :: int
  pw_read :: int
  pw_new :: int
  pw_flag :: bool

text \<open>
  A queue that was not declared is \<open>None\<close>. The database is the one the broker's world holds. The last
  three fields are not in the code: the bodies that the listener was given from bread-made; the
  database before and after every operation of the rest of the program and of the administrators; and
  for every bread the units that left the stock between a read of the listener and its write, which
  overwrites it.
\<close>

record market =
  mk_broker :: broker_service
  mk_sequence :: int
  queues :: "string \<Rightarrow> json list option"
  listening :: bool
  held :: "pending_write option"
  mk_publisher :: Publisher
  baked :: "json list"
  changes :: "(db \<times> db) list"
  overwritten :: "int \<Rightarrow> int"

definition market_db :: "market \<Rightarrow> db" where
  "market_db m = server_db (bworld (mk_broker m))"

definition with_world :: "broker_world \<Rightarrow> market \<Rightarrow> market" where
  "with_world w m = m\<lparr>mk_broker := (mk_broker m)\<lparr>bworld := w\<rparr>\<rparr>"

definition with_db :: "db \<Rightarrow> market \<Rightarrow> market" where
  "with_db s m = with_world ((bworld (mk_broker m))\<lparr>server_db := s\<rparr>) m"

text \<open>The units of a bread in stock; a bread that is not there has none.\<close>

definition units :: "db \<Rightarrow> int \<Rightarrow> int" where
  "units s i = (case stock s i of None \<Rightarrow> 0 | Some q \<Rightarrow> q)"

definition noting_change :: "market \<Rightarrow> market \<Rightarrow> market" where
  "noting_change m m' = m'\<lparr>changes := changes m @ [(market_db m, market_db m')]\<rparr>"

text \<open>The units those operations put into the stock, less those they took out.\<close>

definition put_in :: "market \<Rightarrow> int \<Rightarrow> int" where
  "put_in m i = sum_list (map (\<lambda>(s, t). units t i - units s i) (changes m))"

text \<open>
  The default exchange: a message goes to the end of the queue its key names, and is dropped, without
  an error to the publisher, when there is none (\<open>mandatory\<close> is false everywhere).
\<close>

fun route :: "(string \<times> json) list \<Rightarrow> (string \<Rightarrow> json list option) \<Rightarrow> (string \<Rightarrow> json list option)" where
  "route [] Q = Q"
| "route ((key, body) # msgs) Q = route msgs (Q(key := map_option (\<lambda>js. js @ [body]) (Q key)))"

definition queued :: "string \<Rightarrow> json \<Rightarrow> (string \<Rightarrow> json list option) \<Rightarrow> bool" where
  "queued q j Q \<longleftrightarrow> (case Q q of None \<Rightarrow> False | Some js \<Rightarrow> j \<in> set js)"

definition answered :: "string \<Rightarrow> json \<Rightarrow> (string \<Rightarrow> json list option) \<Rightarrow> (string \<Rightarrow> json list option)" where
  "answered q j Q = Q(q := map_option (remove1 j) (Q q))"

definition declare_queue :: "string \<Rightarrow> (string \<Rightarrow> json list option) \<Rightarrow> (string \<Rightarrow> json list option)" where
  "declare_queue q Q = (case Q q of None \<Rightarrow> Q(q \<mapsto> []) | Some js \<Rightarrow> Q)"

text \<open>An operation of the server, with the faults that its operations on RabbitMQ meet.\<close>

definition at_server :: "fault list \<Rightarrow> (bakery, 'e, 'a) proc \<Rightarrow> market \<Rightarrow> market" where
  "at_server gs f m =
     (let b = snd (f \<lparr>bk_db = market_db m, amqp = gs, sent = [], orderSequence = mk_sequence m\<rparr>)
      in (with_db (bk_db b) m)\<lparr>mk_sequence := orderSequence b, queues := route (sent b) (queues m)\<rparr>)"

section \<open>Its steps\<close>

text \<open>
  A delivery stays on its queue when it is put back, and when its acknowledgement is lost.
\<close>

definition take_order :: "bool \<Rightarrow> json \<Rightarrow> market \<Rightarrow> market" where
  "take_order acked j m =
     (case processOneOrder j newBrokerClient (buffer (mk_broker m)) (bworld (mk_broker m)) of
        (a, orders, w) \<Rightarrow> m\<lparr>mk_broker := intake j (mk_broker m),
          queues := (if a = NackRequeue \<or> \<not> acked then queues m else answered ''buy-bread-order'' j (queues m))\<rparr>)"

text \<open>What the matching loop publishes in its next step goes to the queues.\<close>

definition match_order :: "market \<Rightarrow> market" where
  "match_order m =
     (let b = match_next (mk_broker m); w = bworld b
      in m\<lparr>mk_broker := b\<lparr>bworld := w\<lparr>published := []\<rparr>\<rparr>, queues := route (published w) (queues m)\<rparr>)"

text \<open>The items of all results so far, and of the order that is being matched.\<close>

definition reported_items :: "broker_service \<Rightarrow> MatchingItemResult list" where
  "reported_items b = concat (map mr_Items (results b))
     @ (case engine_at b of AtItem order breads a orders rs \<Rightarrow> items a | _ \<Rightarrow> [])"

definition bake :: "bool list \<Rightarrow> json \<Rightarrow> market \<Rightarrow> market" where
  "bake fs j m =
     (let w = snd (processSingleMessage (Some j) (NewMakersService (Some (mk_publisher m))\<lparr>op_fails := fs\<rparr>));
          Q = (if MakerAcked \<in> set (maker_answers w) then answered ''make-bread-order'' j (queues m) else queues m)
      in m\<lparr>queues := route (map (Pair ''bread-made'') (confirmed w)) Q\<rparr>)"

text \<open>
  The listener with a confirmation (\<open>listenForBreadMade\<close>), up to the \<open>SELECT\<close> of \<open>AdjustBreadQuantity\<close> and what
  it computes from it; and its \<open>UPDATE\<close>, after which the confirmation is acknowledged or put back.
\<close>

definition take_bread :: "bool \<Rightarrow> json \<Rightarrow> market \<Rightarrow> market" where
  "take_bread acked j m =
     (let m1 = m\<lparr>baked := baked m @ [j]\<rparr>
      in case dec_made j of
           None \<Rightarrow> m1\<lparr>queues := (if acked then answered ''bread-made'' j (queues m) else queues m)\<rparr>
         | Some msg \<Rightarrow>
             (case adjust_read (made_BreadID msg) (market_db m) of
                (Inl err, s) \<Rightarrow> with_db s m1
              | (Inr currentQuantity, s) \<Rightarrow>
                  (case adjust_new currentQuantity (made_Quantity msg) of
                     Inl err \<Rightarrow> with_db s m1
                   | Inr (newQuantity, flag) \<Rightarrow> (with_db s m1)\<lparr>held := Some \<lparr>pw_body = j, pw_bread = made_BreadID msg,
                        pw_read = currentQuantity, pw_new = newQuantity, pw_flag = flag\<rparr>\<rparr>)))"

definition write_bread :: "bool \<Rightarrow> market \<Rightarrow> market" where
  "write_bread acked m =
     (case held m of
        None \<Rightarrow> m
      | Some p \<Rightarrow>
          (case adjust_write (pw_bread p) (pw_new p) (pw_flag p) (market_db m) of
             (r, s) \<Rightarrow> (with_db s m)\<lparr>held := None,
               overwritten := (overwritten m)(pw_bread p :=
                 overwritten m (pw_bread p) + max 0 (pw_read p - units (market_db m) (pw_bread p))),
               queues := (if isl r \<or> \<not> acked then queues m else answered ''bread-made'' (pw_body p) (queues m))\<rparr>))"

definition known_queues :: "(string \<Rightarrow> json list option) \<Rightarrow> string set" where
  "known_queues Q = {q. Q q \<noteq> None}"

text \<open>
  RabbitMQ delivers any message of a queue, since those that were put back are delivered again. The
  broker declares its queues, and the makers theirs, whenever they connect; the server has declared
  its own at its start or not at all. The listener is one goroutine, so that it neither takes a
  confirmation nor connects again before it has written. \<open>database\<close> is every method on the database, by
  whoever calls it.
\<close>

inductive market_step :: "market \<Rightarrow> market \<Rightarrow> bool" where
  buy: "market_step m (at_server gs (BuyBread uuid cancelled ctx req) m)"
| order: "consumer (mk_broker m) = Consuming \<Longrightarrow> queued ''buy-bread-order'' j (queues m)
    \<Longrightarrow> market_step m (take_order acked j m)"
| batch: "matching (mk_broker m) \<Longrightarrow> engine_at (mk_broker m) = Idle \<Longrightarrow> buffer (mk_broker m) \<noteq> []
    \<Longrightarrow> market_step m (m\<lparr>mk_broker := start_batch (mk_broker m)\<rparr>)"
| matches_next: "engine_at (mk_broker m) \<noteq> Idle \<Longrightarrow> market_step m (match_order m)"
| broker_moves: "broker_step (mk_broker m) b \<Longrightarrow> bworld b = bworld (mk_broker m) \<Longrightarrow> taken b = taken (mk_broker m)
    \<Longrightarrow> engine_at b = engine_at (mk_broker m) \<Longrightarrow> results b = results (mk_broker m)
    \<Longrightarrow> market_step m (m\<lparr>mk_broker := b\<rparr>)"
| check: "market_step m (noting_change m (at_server gs checkBread m))"
| bakes: "queued ''make-bread-order'' j (queues m) \<Longrightarrow> market_step m (bake fs j m)"
| listener_up: "held m = None \<Longrightarrow> \<not> isl (fst (listener_connects (known_queues (queues m)) b))
    \<Longrightarrow> market_step m (m\<lparr>listening := True\<rparr>)"
| listener_down: "market_step m (m\<lparr>listening := False\<rparr>)"
| bread: "listening m \<Longrightarrow> held m = None \<Longrightarrow> queued ''bread-made'' j (queues m) \<Longrightarrow> market_step m (take_bread acked j m)"
| writes: "market_step m (write_bread acked m)"
| settlement: "market_step m (m\<lparr>queues := answered ''bread-bought'' j (queues m)\<rparr>)"
| declares: "q \<in> set (''make-bread-order'' # broker_queues) \<Longrightarrow> market_step m (m\<lparr>queues := declare_queue q (queues m)\<rparr>)"
| database: "db_step (market_db m) s \<Longrightarrow> market_step m (noting_change m (with_db s m))"
| world: "server_db w = market_db m \<Longrightarrow> published w = published (bworld (mk_broker m))
    \<Longrightarrow> market_step m (with_world w m)"

text \<open>
  The market when the server has started (\<open>server_main\<close>): over the database it found and the durable
  queues, with their messages, that earlier runs have left, with the queues it has declared itself, a
  broker that has or has not reached RabbitMQ and makers with the given publisher.
\<close>

definition open_market ::
  "(string \<Rightarrow> json list option) \<Rightarrow> string list \<Rightarrow> db \<Rightarrow> bool \<Rightarrow> Publisher \<Rightarrow> market" where
  "open_market old qs s up p = \<lparr>mk_broker = startMatchingEngine up (new_broker s), mk_sequence = 0,
     queues = fold declare_queue qs old, listening = False, held = None, mk_publisher = p,
     baked = [], changes = [], overwritten = (\<lambda>_. 0)\<rparr>"

text \<open>Read and write without anything in between are \<open>listenForBreadMade\<close>.\<close>

lemma market_db_with [simp]:
  "market_db (with_db s m) = s" "market_db (with_world w m) = server_db w"
  "market_db (m\<lparr>queues := Q\<rparr>) = market_db m" "market_db (m\<lparr>baked := bs\<rparr>) = market_db m"
  "market_db (m\<lparr>held := h\<rparr>) = market_db m" "market_db (m\<lparr>overwritten := f\<rparr>) = market_db m"
  "market_db (m\<lparr>changes := g\<rparr>) = market_db m" "market_db (m\<lparr>listening := l\<rparr>) = market_db m"
  by (simp_all add: market_db_def with_db_def with_world_def)

lemma bread_undisturbed:
  assumes "held m = None" and "listenForBreadMade (Some j) (market_db m) = (a, s)"
  shows "market_db (write_bread True (take_bread True j m)) = s \<and> held (write_bread True (take_bread True j m)) = None
    \<and> queues (write_bread True (take_bread True j m))
      = (if a = MadeRequeued then queues m else answered ''bread-made'' j (queues m))"
  using assms
  by (auto simp: listenForBreadMade_def take_bread_def write_bread_def AdjustBreadQuantity_def seq_apply fail_def Let_def
      with_db_def with_world_def market_db_def split: option.splits prod.splits sum.splits)

section \<open>Queues\<close>

lemma queued_route: "queued q j (route msgs Q) \<Longrightarrow> queued q j Q \<or> (q, j) \<in> set msgs"
  by (induction msgs Q rule: route.induct) (auto simp: queued_def split: if_splits option.splits)

lemma queued_answered: "queued q j (answered q' j' Q) \<Longrightarrow> queued q j Q"
  by (auto simp: queued_def answered_def split: if_splits option.splits dest: set_remove1_subset [THEN subsetD])

lemma queued_declare: "queued q j (declare_queue q' Q) \<Longrightarrow> queued q j Q"
  by (auto simp: queued_def declare_queue_def split: if_splits option.splits)

lemma route_None [simp]: "route msgs Q q = None \<longleftrightarrow> Q q = None"
  by (induction msgs Q rule: route.induct) (simp_all del: fun_upd_apply, simp add: fun_upd_def)

lemma answered_None [simp]: "answered q' j Q q = None \<longleftrightarrow> Q q = None"
  by (simp add: answered_def)

section \<open>What the steps leave alone\<close>

lemma keeps_conj: "keeps I m \<Longrightarrow> keeps K m \<Longrightarrow> keeps (\<lambda>s. I s \<and> K s) m"
  by (simp add: keeps_def)

lemma table_pred_of_stock [simp]: "table_pred (\<lambda>s. P (stock s))"
  by (simp add: table_pred_def stock_def)

lemma keeps_stock_GetBreadByID: "keeps (\<lambda>s. P (stock s)) (GetBreadByID i)"
  unfolding GetBreadByID_def by (intro keeps_intros) simp_all

lemma keeps_stock_ReportOrder: "keeps (\<lambda>s. P (stock s)) (ReportOrder req)"
  unfolding ReportOrder_def InsertBuyOrder_def insert_order_header_def insert_order_detail_def
    GetBuyOrderByUUID_def load_order_def Let_def
  by (intro keeps_intros) (simp_all, simp_all add: stock_def)

lemma keeps_at_server:
  assumes "keeps (\<lambda>b. I (bk_db b)) f" and "I (market_db m)"
  shows "I (market_db (at_server gs f m))"
  using keepsD [OF assms(1), of "\<lparr>bk_db = market_db m, amqp = gs, sent = [], orderSequence = mk_sequence m\<rparr>"] assms(2)
  by (simp add: at_server_def Let_def market_db_def with_db_def with_world_def)

lemma keeps_BuyBread:
  assumes "\<And>i. keeps I (GetBreadByID i)"
  shows "keeps (\<lambda>b. I (bk_db b)) (BuyBread uuid cancelled ctx req)"
proof -
  have seq: "keeps (\<lambda>b. I (bk_db b)) next_sequence" by (simp add: keeps_def next_sequence_def Let_def)
  show ?thesis unfolding BuyBread_def add_bread_def order_bread_def Let_def
    by (intro keeps_intros seq keeps_bk_lift assms)
qed

lemma keeps_checkBread:
  assumes "keeps I GetAvailableBread" and "\<And>b. keeps I (InsertBread b)" and "\<And>m. keeps I (InsertBreadMaker m)"
    and "\<And>p. keeps I (InsertPendingMakeOrder p)"
  shows "keeps (\<lambda>b. I (bk_db b)) checkBread"
  unfolding checkBread_def initializeBakery_def replenish_def request_bread_def
  by (intro keeps_intros keeps_bk_lift assms)

text \<open>Where an order goes.\<close>

definition orders_only :: "bakery \<Rightarrow> bool" where
  "orders_only b \<longleftrightarrow> (\<forall>(q, j) \<in> set (sent b). q = ''buy-bread-order'')"

lemma keeps_orders_only: "keeps orders_only (BuyBread uuid cancelled ctx req)"
proof -
  have "keeps orders_only next_sequence" by (simp add: keeps_def next_sequence_def Let_def orders_only_def)
  moreover have "keeps orders_only amqp_op" by (simp add: keeps_def orders_only_def)
  moreover have "keeps orders_only (Publish ''buy-bread-order'' j)" for j
    by (auto simp: keeps_def orders_only_def Publish_def Let_def split: list.split fault.split)
  moreover have "keeps orders_only (bk_lift f)" for f :: "(db, 'e, 'a) proc"
    by (simp add: keeps_def orders_only_def)
  ultimately show ?thesis unfolding BuyBread_def add_bread_def order_bread_def with_channel_def Let_def
    by (intro keeps_intros)
qed

section \<open>A batch through either channel\<close>

interpretation any_channel: matching_engine newBrokerClient on_hand sound "match_publisher up" for up
proof unfold_locales
  fix w :: broker_world and k j
  show "sound w \<Longrightarrow> sound (snd (match_publisher up k j w))"
      "sound w \<Longrightarrow> on_hand (snd (match_publisher up k j w)) = on_hand w"
    by (simp_all add: match_publisher_def sound_def on_hand_def)
qed (rule engine.report_good)

text \<open>What the batch publishes, it publishes on bread-bought.\<close>

definition elsewhere :: "broker_world \<Rightarrow> (string \<times> json) list" where
  "elsewhere w = filter (\<lambda>(k, j). k \<noteq> ''bread-bought'') (published w)"

interpretation settling: observed_engine newBrokerClient "match_publisher up" elsewhere for up
proof
  show "elsewhere (snd (bc_ReserveInventory newBrokerClient req w)) = elsewhere w" for req w
    by (auto simp: elsewhere_def newBrokerClient_def client_ReserveInventory_def split: prod.split dest: client_call_published)
  show "elsewhere (snd (bc_ReportMatchingResults newBrokerClient rs w)) = elsewhere w" for rs w
    by (auto simp: elsewhere_def newBrokerClient_def client_ReportMatchingResults_def split: prod.split dest: client_call_published)
  show "elsewhere (snd (match_publisher up ''bread-bought'' body w)) = elsewhere w" for body w
    by (auto simp: elsewhere_def match_publisher_def channel_Publish_def split: list.split bool.split)
qed

lemma conclude_good:
  assumes "sound w" and "conclude_order order a (match_publisher up) w = (r, w')"
  shows "sound w' \<and> on_hand w' = on_hand w \<and> mr_Items r = items a"
  using assms any_channel.pub_good any_channel.pub_avail
  by (auto simp: conclude_order_def Let_def split: option.splits)

lemma match_next_takes:
  assumes "sound (bworld b)"
  shows "sound (bworld (match_next b)) \<and> takes_all (on_hand (bworld b))
    (\<lambda>i. sold (reported_items (match_next b)) i - sold (reported_items b) i) (on_hand (bworld (match_next b)))"
proof (cases "engine_at b")
  case (AtOrder orders rs)
  show ?thesis
  proof (cases orders)
    case Nil
    have "sound (snd (bc_ReportMatchingResults newBrokerClient rs (bworld b)))
        \<and> on_hand (snd (bc_ReportMatchingResults newBrokerClient rs (bworld b))) = on_hand (bworld b)"
      using any_channel.report_good [OF assms, of rs] by (metis prod.collapse)
    then show ?thesis using AtOrder Nil assms by (simp add: match_next_def reported_items_def)
  qed (use AtOrder assms in \<open>simp add: match_next_def reported_items_def zero_match_def\<close>)
next
  case (AtItem order breads a orders rs)
  show ?thesis
  proof (cases breads)
    case Nil
    obtain r w where r: "conclude_order order a (match_publisher (channel_open b)) (bworld b) = (r, w)" by fastforce
    from conclude_good [OF assms this] show ?thesis
      using AtItem Nil r by (simp add: match_next_def reported_items_def)
  next
    case (Cons bread rest)
    obtain a' w where r: "match_item newBrokerClient order bread a (bworld b) = (a', w)" by fastforce
    from engine.match_item_step [OF assms this] obtain x where "sound w" "items a' = items a @ [x]"
        "takes_all (on_hand (bworld b)) (sold [x]) (on_hand w)"
      by blast
    then show ?thesis using AtItem Cons r by (simp add: match_next_def reported_items_def)
  qed
qed (use assms in \<open>simp add: match_next_def\<close>)

lemma match_next_elsewhere: "elsewhere (bworld (match_next b)) = elsewhere (bworld b)"
  using settling.match_item_obs settling.conclude_obs settling.results_obs
  by (auto simp: match_next_def case_prod_beta split: engine_pc.split list.split)

section \<open>The books\<close>

text \<open>A request for fifty of some bread, and a confirmation of fifty of a given one.\<close>

definition asks_fifty :: "json \<Rightarrow> bool" where
  "asks_fifty j \<longleftrightarrow> (\<exists>m. processOrder (Some j) = Some m \<and> made_Quantity m = 50 \<and> is_int64 (made_BreadID m))"

definition made_for :: "int \<Rightarrow> json \<Rightarrow> bool" where
  "made_for i j \<longleftrightarrow> dec_made j = Some \<lparr>made_BreadID = i, made_Quantity = 50\<rparr>"

text \<open>The units for which the listener was given confirmations, and those it is about to write.\<close>

definition delivered_for :: "int \<Rightarrow> market \<Rightarrow> int" where
  "delivered_for i m = 50 * int (length (filter (made_for i) (baked m)))"

definition awaiting :: "int \<Rightarrow> market \<Rightarrow> int" where
  "awaiting i m = (case held m of None \<Rightarrow> 0 | Some p \<Rightarrow> if pw_bread p = i then 50 else 0)"

definition belongs :: "string \<Rightarrow> json \<Rightarrow> bool" where
  "belongs q j \<longleftrightarrow> (q = ''make-bread-order'' \<longrightarrow> asks_fifty j) \<and> (q = ''bread-made'' \<longrightarrow> (\<exists>i. made_for i j))"

definition held_ok :: "pending_write option \<Rightarrow> bool" where
  "held_ok h \<longleftrightarrow> (case h of None \<Rightarrow> True | Some p \<Rightarrow> pw_new p = min 100 (pw_read p + 50) \<and> 0 \<le> pw_read p)"

definition market_ok :: "market \<Rightarrow> bool" where
  "market_ok m \<longleftrightarrow> db_inv (market_db m) \<and> published (bworld (mk_broker m)) = []
     \<and> (\<forall>q j. queued q j (queues m) \<longrightarrow> belongs q j) \<and> (\<forall>j \<in> set (baked m). \<exists>i. made_for i j) \<and> held_ok (held m)"

lemma market_okI:
  assumes "market_ok m" and "db_inv (market_db m')" and "published (bworld (mk_broker m')) = []"
    and "\<And>q j. queued q j (queues m') \<Longrightarrow> queued q j (queues m) \<or> belongs q j"
    and "\<And>j. j \<in> set (baked m') \<Longrightarrow> j \<in> set (baked m) \<or> (\<exists>i. made_for i j)"
    and "held m' = held m \<or> held_ok (held m')"
  shows "market_ok m'"
  using assms unfolding market_ok_def by metis

text \<open>The books: what is in stock, sold and awaited is covered by what came in.\<close>

definition balance :: "int \<Rightarrow> market \<Rightarrow> int" where
  "balance i m = delivered_for i m + put_in m i + overwritten m i
     - units (market_db m) i - sold (reported_items (mk_broker m)) i - awaiting i m"

definition balanced :: "(int \<Rightarrow> int) \<Rightarrow> market \<Rightarrow> bool" where
  "balanced st m \<longleftrightarrow> (\<forall>i. 0 \<le> st i + balance i m)"

lemma balancedI: "balanced st m \<Longrightarrow> (\<And>i. balance i m \<le> balance i m') \<Longrightarrow> balanced st m'"
  unfolding balanced_def by (metis add_left_mono order_trans)

lemma balanced_same: "balanced st m \<Longrightarrow> (\<And>i. balance i m' = balance i m) \<Longrightarrow> balanced st m'"
  by (simp add: balanced_def)

text \<open>A step that only moves messages, to queues where they belong.\<close>

definition passes_on :: "market \<Rightarrow> market \<Rightarrow> bool" where
  "passes_on m m' \<longleftrightarrow> market_db m' = market_db m \<and> published (bworld (mk_broker m')) = published (bworld (mk_broker m))
     \<and> reported_items (mk_broker m') = reported_items (mk_broker m) \<and> baked m' = baked m \<and> held m' = held m
     \<and> changes m' = changes m \<and> overwritten m' = overwritten m
     \<and> (\<forall>q j. queued q j (queues m') \<longrightarrow> queued q j (queues m))"

lemma passes_on_ok: "passes_on m m' \<Longrightarrow> market_ok m \<Longrightarrow> market_ok m'"
  by (simp add: passes_on_def market_ok_def)

lemma passes_on_balanced: "passes_on m m' \<Longrightarrow> balanced st m' = balanced st m"
  by (simp add: passes_on_def balanced_def balance_def delivered_for_def awaiting_def put_in_def)

lemma broker_moves_passes:
  assumes "bworld b = bworld (mk_broker m)" and "engine_at b = engine_at (mk_broker m)" and "results b = results (mk_broker m)"
  shows "passes_on m (m\<lparr>mk_broker := b\<rparr>)"
  using assms by (simp add: passes_on_def market_db_def reported_items_def)

lemma batch_passes: "engine_at (mk_broker m) = Idle \<Longrightarrow> passes_on m (m\<lparr>mk_broker := start_batch (mk_broker m)\<rparr>)"
  by (simp add: passes_on_def market_db_def reported_items_def start_batch_fields)

text \<open>What an operation of the server may do to the market.\<close>

lemma at_server_fields [simp]:
  "published (bworld (mk_broker (at_server gs f m))) = published (bworld (mk_broker m))"
  "reported_items (mk_broker (at_server gs f m)) = reported_items (mk_broker m)" "baked (at_server gs f m) = baked m"
  "held (at_server gs f m) = held m" "changes (at_server gs f m) = changes m" "overwritten (at_server gs f m) = overwritten m"
  by (simp_all add: at_server_def Let_def with_db_def with_world_def reported_items_def)

lemma noting_change_fields [simp]:
  "mk_broker (noting_change m m') = mk_broker m'" "queues (noting_change m m') = queues m'"
  "baked (noting_change m m') = baked m'" "held (noting_change m m') = held m'"
  "overwritten (noting_change m m') = overwritten m'" "market_db (noting_change m m') = market_db m'"
  "put_in (noting_change m m') i = put_in m i + units (market_db m') i - units (market_db m) i"
  by (simp_all add: noting_change_def market_db_def put_in_def)

lemma noting_change_balance:
  assumes "reported_items (mk_broker m') = reported_items (mk_broker m)" and "baked m' = baked m" and "held m' = held m"
    and "overwritten m' = overwritten m"
  shows "balance i (noting_change m m') = balance i m"
  using assms by (simp add: balance_def delivered_for_def awaiting_def)

lemma units_stock: "stock s = stock t \<Longrightarrow> units s = units t"
  by (simp add: units_def fun_eq_iff)

lemma queued_at_server:
  "queued q j (queues (at_server gs f m)) \<Longrightarrow> queued q j (queues m)
    \<or> (q, j) \<in> set (sent (snd (f \<lparr>bk_db = market_db m, amqp = gs, sent = [], orderSequence = mk_sequence m\<rparr>)))"
  by (auto simp: at_server_def Let_def with_db_def with_world_def dest: queued_route)

lemma buy_step:
  assumes "market_ok m"
  shows "market_ok (at_server gs (BuyBread uuid cancelled ctx req) m)"
    and "balanced st m \<Longrightarrow> balanced st (at_server gs (BuyBread uuid cancelled ctx req) m)"
proof -
  let ?m = "at_server gs (BuyBread uuid cancelled ctx req) m"
  have inv: "db_inv (market_db ?m)"
    by (rule keeps_at_server [where I = db_inv, OF keeps_BuyBread])
      (use assms keeps_inventory in \<open>simp_all add: market_ok_def\<close>)
  have "stock (market_db ?m) = stock (market_db m)"
    by (rule keeps_at_server [where I = "\<lambda>s. stock s = stock (market_db m)", OF keeps_BuyBread])
      (rule keeps_stock_GetBreadByID, rule refl)
  then have st: "units (market_db ?m) = units (market_db m)" by (rule units_stock)
  have "q = ''buy-bread-order''" if "(q, j) \<in> set (sent (snd (BuyBread uuid cancelled ctx req
      \<lparr>bk_db = market_db m, amqp = gs, sent = [], orderSequence = mk_sequence m\<rparr>)))" for q j
    using keepsD [OF keeps_orders_only, of "\<lparr>bk_db = market_db m, amqp = gs, sent = [], orderSequence = mk_sequence m\<rparr>"] that
    by (force simp: orders_only_def)
  then have q: "queued q j (queues ?m) \<Longrightarrow> queued q j (queues m) \<or> belongs q j" for q j
    using queued_at_server [of q j gs "BuyBread uuid cancelled ctx req" m] by (auto simp: belongs_def)
  show "market_ok ?m" by (rule market_okI [OF assms inv]) (use assms q in \<open>simp_all add: market_ok_def\<close>)
  show "balanced st m \<Longrightarrow> balanced st ?m"
    by (erule balanced_same) (simp add: balance_def st delivered_for_def awaiting_def put_in_def)
qed

lemma check_step:
  assumes "market_ok m"
  shows "market_ok (noting_change m (at_server gs checkBread m))"
    and "balanced st m \<Longrightarrow> balanced st (noting_change m (at_server gs checkBread m))"
proof -
  let ?m = "at_server gs checkBread m"
  let ?b = "\<lparr>bk_db = market_db m, amqp = gs, sent = [], orderSequence = mk_sequence m\<rparr>"
  have m: "db_inv (market_db m)" using assms by (simp add: market_ok_def)
  have inv: "db_inv (market_db ?m)"
    by (rule keeps_at_server [where I = db_inv, OF keeps_checkBread m])
      (rule keeps_inventory keeps_orders keeps_accounts)+
  obtain bs js where sent: "sent (snd (checkBread ?b)) = map (Pair ''make-bread-order'') js"
      "subseq bs (low_stock (market_db m))" "list_all2 (\<lambda>x j. enc_make_bread x = Some j) bs js"
    using checkBread_asked [of ?b] by auto
  have "asks_fifty j" if j: "j \<in> set js" for j
  proof -
    obtain x where x: "x \<in> set bs" "enc_make_bread x = Some j"
      using list_all2_right [OF sent(3) j] by blast
    then have "is_int64 (b_ID x)" "f64_ok (b_Price x)"
      using low_stock_rows(2) [OF db_inv_bread [OF m] sent(2) x(1)] by auto
    then show ?thesis using enc_make_bread_asks [OF x(2)] by (auto simp: asks_for_def asks_fifty_def)
  qed
  then have q: "queued q j (queues ?m) \<Longrightarrow> queued q j (queues m) \<or> belongs q j" for q j
    using queued_at_server [of q j gs checkBread m] sent(1) by (auto simp: belongs_def)
  show "market_ok (noting_change m ?m)"
    by (rule market_okI [OF assms]) (use assms q inv in \<open>simp_all add: market_ok_def\<close>)
  show "balanced st m \<Longrightarrow> balanced st (noting_change m ?m)"
    by (erule balanced_same, rule noting_change_balance) simp_all
qed

lemma order_step:
  assumes "market_ok m"
  shows "market_ok (take_order acked j m)" and "balanced st m \<Longrightarrow> balanced st (take_order acked j m)"
proof -
  obtain a orders w where run: "processOneOrder j newBrokerClient (buffer (mk_broker m)) (bworld (mk_broker m)) = (a, orders, w)"
    by (metis prod_cases3)
  let ?m = "take_order acked j m"
  have w: "bworld (mk_broker ?m) = w" using run by (simp add: take_order_def intake_def)
  have "(db_inv (server_db w) \<and> stock (server_db w) = stock (market_db m)) \<and> published w = published (bworld (mk_broker m))"
  proof (cases "dec_BuyOrder j")
    case None
    then show ?thesis using run assms by (auto simp: processOneOrder_def market_ok_def market_db_def)
  next
    case (Some ord)
    let ?J = "\<lambda>s. db_inv s \<and> stock s = stock (market_db m)"
    obtain x cb v where call: "client_call (ReportOrder (dataToProtoBuyOrder ord)) (reportOrderCB (bworld (mk_broker m)))
        (bworld (mk_broker m)) = (x, cb, v)" by (metis prod_cases3)
    have "?J (server_db v) \<and> (\<forall>y. x = Inr y \<longrightarrow> True)"
    proof (rule client_call_rule [where J = ?J, OF _ _ call])
      fix s r t assume "?J s" "ReportOrder (dataToProtoBuyOrder ord) s = (r, t)"
      then show "?J t \<and> (\<forall>y. r = Inr y \<longrightarrow> True)"
        using keepsD [OF keeps_conj [OF keeps_ReportOrder keeps_stock_ReportOrder [where P = "\<lambda>x. x = stock (market_db m)"]],
            of s "dataToProtoBuyOrder ord"] by simp
    next
      show "?J (server_db (bworld (mk_broker m)))" using assms by (simp add: market_ok_def market_db_def)
    qed
    moreover have "published v = published (bworld (mk_broker m))" using call by (rule client_call_published)
    ultimately show ?thesis using run call Some
      by (auto simp: processOneOrder_def newBrokerClient_def client_ReportOrder_def Let_def split: sum.splits if_splits)
  qed
  note books = this
  have q: "queued k i (queues ?m) \<Longrightarrow> queued k i (queues m)" for k i
    using run by (auto simp: take_order_def dest: queued_answered split: if_splits)
  have rest: "reported_items (mk_broker ?m) = reported_items (mk_broker m)" "baked ?m = baked m" "held ?m = held m"
      "changes ?m = changes m" "overwritten ?m = overwritten m"
    using run by (simp_all add: take_order_def reported_items_def intake_fields)
  show "market_ok ?m" by (rule market_okI [OF assms]) (use assms books q rest w in \<open>auto simp: market_ok_def market_db_def\<close>)
  have "units (market_db ?m) = units (market_db m)"
    by (rule units_stock) (use books w in \<open>simp add: market_db_def\<close>)
  then show "balanced st m \<Longrightarrow> balanced st ?m"
    by (elim balanced_same) (simp add: balance_def rest delivered_for_def awaiting_def put_in_def)
qed

lemma takes_all_units:
  assumes "takes_all (stock s) f (stock t)"
  shows "units t i \<le> units s i - f i"
  using spec [OF assms [unfolded takes_all_def], of i] by (auto simp: units_def split: option.splits)

lemma match_step:
  assumes "market_ok m"
  shows "market_ok (match_order m)" and "balanced st m \<Longrightarrow> balanced st (match_order m)"
proof -
  let ?b = "mk_broker m" and ?m = "match_order m"
  have "sound (bworld ?b)" using assms by (simp add: sound_def market_ok_def market_db_def)
  note t = match_next_takes [OF this]
  have db: "market_db ?m = server_db (bworld (match_next ?b))" by (simp add: match_order_def Let_def market_db_def)
  have "\<forall>(k, j) \<in> set (published (bworld (match_next ?b))). k = ''bread-bought''"
    using assms match_next_elsewhere [of ?b] by (auto simp: elsewhere_def market_ok_def filter_empty_conv)
  then have q: "queued k j (queues ?m) \<Longrightarrow> queued k j (queues m) \<or> belongs k j" for k j
    by (auto simp: match_order_def Let_def belongs_def dest!: queued_route)
  have rest: "published (bworld (mk_broker ?m)) = []" "baked ?m = baked m" "held ?m = held m" "changes ?m = changes m"
      "overwritten ?m = overwritten m" "reported_items (mk_broker ?m) = reported_items (match_next ?b)"
    by (simp_all add: match_order_def Let_def reported_items_def)
  show "market_ok ?m" by (rule market_okI [OF assms]) (use t db q rest in \<open>auto simp: sound_def\<close>)
  have "units (market_db ?m) i + sold (reported_items (match_next ?b)) i
      \<le> units (market_db m) i + sold (reported_items ?b) i" for i
    using takes_all_units [OF conjunct2 [OF t, unfolded on_hand_def], of i] unfolding db
    by (simp add: market_db_def)
  then have "balance i m \<le> balance i ?m" for i
    by (simp add: balance_def rest delivered_for_def awaiting_def put_in_def algebra_simps)
  then show "balanced st m \<Longrightarrow> balanced st ?m" by (elim balancedI)
qed

lemma enc_made_made_for: "is_int64 i \<Longrightarrow> made_for i (enc_made \<lparr>made_BreadID = i, made_Quantity = 50\<rparr>)"
  by (simp add: made_for_def dec_made_def enc_made_def jfield_def dec_enc_int is_int64_def)

lemma bake_step:
  assumes "market_ok m" and "queued ''make-bread-order'' j (queues m)"
  shows "market_ok (bake fs j m)" and "balanced st (bake fs j m) = balanced st m"
proof -
  let ?m = "bake fs j m" and ?new = "NewMakersService (Some (mk_publisher m))\<lparr>op_fails := fs\<rparr>"
  let ?w = "snd (processSingleMessage (Some j) ?new)"
  have "asks_fifty j" using assms by (simp add: market_ok_def belongs_def)
  then obtain i where i: "processOrder (Some j) = Some \<lparr>made_BreadID = i, made_Quantity = 50\<rparr>" "is_int64 i"
    unfolding asks_fifty_def by (metis breadMadeMessage.surjective old.unit.exhaust)
  have "honest (publisher (NewMakersService (Some (mk_publisher m)))) {c. made_for i c} ?w"
    by (rule keepsD [OF keeps_processSingleMessage honest_new]) (use i enc_made_made_for in auto)
  then have "\<forall>c \<in> set (confirmed ?w). made_for i c" by (auto simp: honest_def)
  then have q: "queued k c (queues ?m) \<Longrightarrow> queued k c (queues m) \<or> belongs k c" for k c
    by (auto simp: bake_def Let_def belongs_def dest!: queued_route dest: queued_answered split: if_splits)
  have rest: "mk_broker ?m = mk_broker m" "baked ?m = baked m" "held ?m = held m" "changes ?m = changes m"
      "overwritten ?m = overwritten m"
    by (simp_all add: bake_def Let_def)
  show "market_ok ?m" by (rule market_okI [OF assms(1)]) (use assms(1) q rest in \<open>auto simp: market_ok_def market_db_def\<close>)
  show "balanced st ?m = balanced st m" by (simp add: balanced_def balance_def awaiting_def market_db_def delivered_for_def put_in_def rest)
qed

text \<open>The two statements of \<open>AdjustBreadQuantity\<close>, on the stock.\<close>

lemma adjust_read_stock:
  assumes "adjust_read i s = (r, t)"
  shows "stock t = stock s" and "r = Inr q \<Longrightarrow> stock s i = Some q"
proof -
  have "triple (\<lambda>x. stock x = stock s) (query_row (select_quantity i))
      (\<lambda>q x. stock x = stock s \<and> stock s i = Some q) (\<lambda>e x. stock x = stock s)"
    by (rule triple_weaken [OF select_quantity_triple]) auto
  note tr = tripleD [OF this refl, folded adjust_read_def, unfolded assms]
  show "stock t = stock s" using tr by (cases r) auto
  show "r = Inr q \<Longrightarrow> stock s i = Some q" using tr by auto
qed

lemma keeps_adjust_read: "keeps db_inv (adjust_read i)"
  unfolding adjust_read_def by (intro keeps_intros) simp_all

lemma bread_step:
  assumes "market_ok m" and "queued ''bread-made'' j (queues m)" and "held m = None"
  shows "market_ok (take_bread acked j m)" and "balanced st m \<Longrightarrow> balanced st (take_bread acked j m)"
proof -
  let ?m = "take_bread acked j m"
  have "belongs ''bread-made'' j" using assms by (simp add: market_ok_def)
  then obtain i where "made_for i j" by (auto simp: belongs_def)
  then have i: "dec_made j = Some \<lparr>made_BreadID = i, made_Quantity = 50\<rparr>" by (simp add: made_for_def)
  have inv: "db_inv (market_db m)" using assms(1) by (simp add: market_ok_def)
  obtain x s where run: "adjust_read i (market_db m) = (x, s)" by fastforce
  have s: "stock s = stock (market_db m)" "db_inv s"
    using adjust_read_stock(1) [OF run] keepsD [OF keeps_adjust_read inv, of i] run by simp_all
  have new: "held_ok (held ?m) \<and> (\<forall>p. held ?m = Some p \<longrightarrow> pw_bread p = i)"
  proof (cases "\<exists>q. x = Inr q \<and> \<not> isl (adjust_new q 50)")
    case True
    then obtain q n c where q: "x = Inr q" "adjust_new q 50 = Inr (n, c)"
      by (metis prod.exhaust sum.collapse(2))
    then have "stock (market_db m) i = Some q" using adjust_read_stock(2) [OF run] by simp
    then have "0 \<le> q" "restocked (stock (market_db m)) \<lparr>made_BreadID = i, made_Quantity = 50\<rparr> ((stock (market_db m))(i \<mapsto> n))"
      using stock_nonneg [OF db_inv_bread [OF inv]] adjust_restocks [OF db_inv_bread [OF inv], of "\<lparr>made_BreadID = i, made_Quantity = 50\<rparr>" q n c] q(2)
      by (auto simp: is_int64_def)
    then have "n = min 100 (q + 50)" "0 \<le> q"
      using \<open>stock (market_db m) i = Some q\<close> by (auto simp: restocked_def dest: fun_cong [of _ _ i])
    then show ?thesis using i run q by (simp add: take_bread_def held_ok_def)
  next
    case False
    then have "x = Inr q \<Longrightarrow> \<exists>e. adjust_new q 50 = Inl e" for q by (cases "adjust_new q 50") auto
    then have "held ?m = None"
      using i run assms(3) by (cases x) (force simp: take_bread_def with_db_def with_world_def Let_def)+
    then show ?thesis by (simp add: held_ok_def)
  qed
  have rest: "market_db ?m = s" "published (bworld (mk_broker ?m)) = published (bworld (mk_broker m))"
      "reported_items (mk_broker ?m) = reported_items (mk_broker m)" "baked ?m = baked m @ [j]" "queues ?m = queues m"
      "changes ?m = changes m" "overwritten ?m = overwritten m"
    using i run by (auto simp: take_bread_def Let_def market_db_def with_db_def with_world_def reported_items_def split: sum.split)
  show "market_ok ?m"
    by (rule market_okI [OF assms(1)]) (use assms(1) rest i s new in \<open>auto simp: market_ok_def made_for_def\<close>)
  have "delivered_for k ?m = delivered_for k m + (if k = i then 50 else 0)" for k
    using i by (simp add: delivered_for_def rest made_for_def)
  moreover have "awaiting k ?m \<le> (if k = i then 50 else 0)" "awaiting k m = 0" for k
    using new assms(3) by (simp_all add: awaiting_def split: option.split)
  moreover have "units s = units (market_db m)" by (rule units_stock) (rule s)
  ultimately show "balanced st m \<Longrightarrow> balanced st ?m"
    by (elim balancedI) (simp add: balance_def put_in_def rest)
qed

text \<open>Whatever the update does, it does to one bread.\<close>

lemma adjust_write_stock:
  assumes "adjust_write i n flag s = (r, t)"
  shows "stock t = stock s \<or> stock t = (stock s)(i \<mapsto> n) \<and> stock s i \<noteq> None"
proof -
  let ?I = "\<lambda>x. stock x = stock s \<or> stock x = (stock s)(i \<mapsto> n) \<and> stock s i \<noteq> None"
  have upd: "stock (x\<lparr>bread_t := update_where (\<lambda>r. br_id r = i) (\<lambda>r. r\<lparr>br_quantity := n\<rparr>) (bread_t x)\<rparr>)
      = (if stock x i = None then stock x else (stock x)(i \<mapsto> n))" for x :: db
    using quantity_of_update [of "\<lambda>r. r\<lparr>br_quantity := n\<rparr>" i "bread_t x"]
    by (auto simp: stock_def quantity_of_def fun_eq_iff map_option_case split: option.split)
  have "keeps ?I (adjust_write i n flag)"
    unfolding adjust_write_def sql_update_bread_def
    by (intro keeps_intros) (auto simp: upd table_pred_def, simp_all add: stock_def)
  from keepsD [OF this, of s] show ?thesis using assms by simp
qed

lemma write_step:
  assumes "market_ok m"
  shows "market_ok (write_bread acked m)" and "balanced st m \<Longrightarrow> balanced st (write_bread acked m)"
proof -
  let ?m = "write_bread acked m"
  have "market_ok ?m \<and> (balanced st m \<longrightarrow> balanced st ?m)"
  proof (cases "held m")
    case (Some p)
    let ?i = "pw_bread p" and ?n = "pw_new p"
    have inv: "db_inv (market_db m)" and n: "?n = min 100 (pw_read p + 50)" "0 \<le> pw_read p"
      using assms Some by (simp_all add: market_ok_def held_ok_def)
    obtain r s where run: "adjust_write ?i ?n (pw_flag p) (market_db m) = (r, s)" by fastforce
    have inv': "db_inv s" using keepsD [OF keeps_adjust_write inv, of ?i ?n "pw_flag p"] run by simp
    have rest: "market_db ?m = s" "published (bworld (mk_broker ?m)) = published (bworld (mk_broker m))"
        "reported_items (mk_broker ?m) = reported_items (mk_broker m)" "baked ?m = baked m" "held ?m = None"
        "changes ?m = changes m" "overwritten ?m = (overwritten m)(?i := overwritten m ?i + max 0 (pw_read p - units (market_db m) ?i))"
        "queues ?m = (if isl r \<or> \<not> acked then queues m else answered ''bread-made'' (pw_body p) (queues m))"
      using Some run by (simp_all add: write_bread_def market_db_def with_db_def with_world_def reported_items_def)
    have q: "queued k c (queues ?m) \<Longrightarrow> queued k c (queues m)" for k c
      by (auto simp: rest dest: queued_answered split: if_splits)
    have ok: "market_ok ?m"
      by (rule market_okI [OF assms]) (use assms rest q inv' in \<open>auto simp: market_ok_def held_ok_def\<close>)
    have le: "units s k \<le> units (market_db m) k + (if k = ?i then 50 + max 0 (pw_read p - units (market_db m) k) else 0)" for k
      using adjust_write_stock [OF run] n by (auto simp: units_def)
    have "balance k m \<le> balance k ?m" for k
      using Some le [of k] by (auto simp: balance_def rest delivered_for_def awaiting_def put_in_def)
    then show ?thesis using ok by (auto elim: balancedI)
  qed (use assms in \<open>simp add: write_bread_def\<close>)
  then show "market_ok ?m" "balanced st m \<Longrightarrow> balanced st ?m" by blast+
qed

lemma queued_passes:
  "passes_on m (m\<lparr>queues := answered q j (queues m)\<rparr>)" "passes_on m (m\<lparr>queues := declare_queue q (queues m)\<rparr>)"
  "passes_on m (m\<lparr>listening := l\<rparr>)"
  by (auto simp: passes_on_def market_db_def dest: queued_answered queued_declare)

lemma market_step_ok:
  assumes "market_step m m'" and "market_ok m"
  shows "market_ok m' \<and> (balanced st m \<longrightarrow> balanced st m')"
  using assms
proof (induction rule: market_step.induct)
  case (database m s)
  let ?m = "noting_change m (with_db s m)"
  have s: "db_inv s" using db_step_inv [OF database(1)] database(2) by (simp add: market_ok_def)
  have rest: "queues (with_db s m) = queues m" "baked (with_db s m) = baked m" "held (with_db s m) = held m"
      "overwritten (with_db s m) = overwritten m" "reported_items (mk_broker (with_db s m)) = reported_items (mk_broker m)"
      "published (bworld (mk_broker (with_db s m))) = published (bworld (mk_broker m))"
    by (simp_all add: with_db_def with_world_def reported_items_def)
  have "market_ok ?m"
    by (rule market_okI [OF database(2)]) (use s rest database(2) in \<open>simp_all add: market_ok_def\<close>)
  moreover have "balance i ?m = balance i m" for i by (rule noting_change_balance) (simp_all add: rest)
  ultimately show ?case by (auto simp: balanced_def)
next
  case (world w m)
  then have "passes_on m (with_world w m)" by (simp add: passes_on_def with_world_def market_db_def reported_items_def)
  then show ?case using world(3) passes_on_ok passes_on_balanced by blast
next
  case (broker_moves m b)
  then show ?case using broker_moves_passes passes_on_ok passes_on_balanced by blast
next
  case (batch m)
  then show ?case using batch_passes passes_on_ok passes_on_balanced by blast
next
  case (buy m gs uuid cancelled ctx req)
  then show ?case using buy_step by blast
next
  case (order m j acked)
  then show ?case using order_step by blast
next
  case (bakes j m fs)
  then show ?case using bake_step by blast
next
  case (bread m j acked)
  then show ?case using bread_step by blast
next
  case (writes m acked)
  then show ?case using write_step by blast
next
  case (matches_next m)
  then show ?case using match_step by blast
next
  case (check m gs)
  then show ?case using check_step by blast
qed (use passes_on_ok passes_on_balanced queued_passes in blast)+

text \<open>What earlier runs of the same programs leave on the queues.\<close>

definition well_formed :: "(string \<Rightarrow> json list option) \<Rightarrow> bool" where
  "well_formed Q \<longleftrightarrow> (\<forall>q j. queued q j Q \<longrightarrow> belongs q j)"

lemma queued_declares: "queued q j (fold declare_queue qs Q) \<Longrightarrow> queued q j Q"
  by (induction qs arbitrary: Q) (auto dest: queued_declare)

lemma open_market_ok:
  assumes "db_inv s" and "well_formed old"
  shows "market_ok (open_market old qs s up p)" and "balanced (units s) (open_market old qs s up p)"
proof -
  have db: "market_db (open_market old qs s up p) = s"
    by (simp add: market_db_def open_market_def startMatchingEngine_def new_broker_def)
  have "queued q j (queues (open_market old qs s up p)) \<Longrightarrow> belongs q j" for q j
    using assms(2) queued_declares [of q j qs old] by (simp add: open_market_def well_formed_def)
  then show "market_ok (open_market old qs s up p)"
    using assms(1) db
    by (simp add: market_ok_def) (simp add: open_market_def startMatchingEngine_def new_broker_def held_ok_def)
  show "balanced (units s) (open_market old qs s up p)"
    by (simp add: balanced_def balance_def db)
      (simp add: open_market_def startMatchingEngine_def delivered_for_def awaiting_def reported_items_def put_in_def)
qed

lemma market_reachable:
  assumes "market_step\<^sup>*\<^sup>* (open_market old qs s up p) m" and "db_inv s" and "well_formed old"
  shows "market_ok m \<and> balanced (units s) m"
  using assms(1)
proof (induction rule: rtranclp_induct)
  case base
  show ?case using open_market_ok [OF assms(2,3)] by blast
next
  case (step m m')
  then show ?case using market_step_ok by blast
qed

section \<open>What the whole market promises\<close>

lemma server_main_serves:
  assumes "server_main listens attempts b = (Serving qs, b1)"
  shows "bk_db b1 = bk_db b"
  using assms init_declares(1) by (auto simp: server_main_def split: if_splits prod.splits sum.splits)

lemma units_nonneg: "db_inv s \<Longrightarrow> 0 \<le> units s i"
  using stock_nonneg [OF db_inv_bread] by (auto simp: units_def split: option.split)

text \<open>
  C4: No bread out of nowhere: from the start of the server, over any database that satisfies the schema and
  any well-formed messages left on the queues, however customers, broker, server, makers, administrators
  and the rest are interleaved, between the two statements of \<open>AdjustBreadQuantity\<close> and between the items
  of an order too, and whatever is lost between them: for every bread the units in stock and the units
  reported as sold are together at most what was there at the start, fifty for each confirmation that
  the server was given, what administrators and the rest of the program put in (less what they took
  out), and what left the stock between a read of the listener and its write, which overwrites it.
  The stock is never negative, and every confirmation is one of fifty of some bread.
\<close>

theorem market_sells_what_it_has:
  assumes "server_main True attempts b = (Serving qs, b1)" and "db_inv (bk_db b)" and "well_formed old"
    and "market_step\<^sup>*\<^sup>* (open_market old qs (bk_db b1) up p) m"
  shows "0 \<le> units (market_db m) i
    \<and> units (market_db m) i + sold (reported_items (mk_broker m)) i
      \<le> units (bk_db b) i + 50 * int (length (filter (made_for i) (baked m))) + put_in m i + overwritten m i
    \<and> list_all (\<lambda>j. \<exists>k. made_for k j) (baked m)"
proof -
  have m: "market_ok m" "balanced (units (bk_db b)) m"
    using market_reachable [OF assms(4) _ assms(3)] assms(2) server_main_serves [OF assms(1)] by auto
  have "0 \<le> awaiting i m" by (simp add: awaiting_def split: option.split)
  then have "units (market_db m) i + sold (reported_items (mk_broker m)) i
      \<le> units (bk_db b) i + delivered_for i m + put_in m i + overwritten m i"
    using spec [OF m(2) [unfolded balanced_def], of i] by (simp add: balance_def)
  moreover have "0 \<le> units (market_db m) i" using units_nonneg m(1) by (simp add: market_ok_def)
  ultimately show ?thesis using m(1) by (simp add: delivered_for_def market_ok_def list_all_iff)
qed

section \<open>The lost update\<close>

lemma adjust_write_calm:
  assumes "bread_inv s" and "faults s = []" and "stock s i = Some q" and "0 \<le> n" and "n \<le> 100"
  shows "\<exists>t. adjust_write i n c s = (Inr c, t) \<and> stock t = (stock s)(i \<mapsto> n)"
proof -
  obtain r where r: "find (\<lambda>r. br_id r = i) (bread_t s) = Some r"
    using assms(3) by (auto simp: stock_def quantity_of_def)
  then have "bread_row_error r = None" using assms(1) by (auto simp: bread_inv_def dest: find_SomeD)
  then have ok: "bread_row_error (r\<lparr>br_quantity := n\<rparr>) = None" "is_int32 n"
    using assms(4,5) by (auto simp: bread_row_error_None is_int32_def)
  then obtain t where t: "adjust_write i n c s = (Inr c, t)"
    using r assms(2)
    by (simp add: adjust_write_def seq_apply attempt_apply no_fault_simps
        param_int4_def check_def sql_update_bread_def guarded_def update_error_def select_rows_eq [OF assms(1)])
  then show ?thesis
    using tripleD_Inr [OF adjust_write_triple [of "stock s" i q n c] _ t] assms(3) by blast
qed

lemma held_read:
  assumes "made_for i j" and "held m = None" and "held (take_bread acked j m) = Some p"
  shows "pw_bread p = i \<and> stock (market_db m) i = Some (pw_read p)"
proof -
  have i: "dec_made j = Some \<lparr>made_BreadID = i, made_Quantity = 50\<rparr>" using assms(1) by (simp add: made_for_def)
  obtain x s where run: "adjust_read i (market_db m) = (x, s)" by fastforce
  from adjust_read_stock(2) [OF run] show ?thesis
    using assms(2,3) i run
    by (cases x) (auto simp: take_bread_def Let_def with_db_def with_world_def split: sum.splits)
qed


section \<open>A server without its queue\<close>

text \<open>Without its queue the server hears nothing of the makers.\<close>

definition deaf :: "market \<Rightarrow> bool" where
  "deaf m \<longleftrightarrow> queues m ''bread-made'' = None \<and> \<not> listening m \<and> held m = None \<and> baked m = [] \<and> overwritten m = (\<lambda>_. 0)"

lemma deaf_step: "market_step m m' \<Longrightarrow> deaf m \<Longrightarrow> deaf m'"
proof (induction rule: market_step.induct)
  case (listener_up m b)
  then show ?case using listener_undeclared [of "known_queues (queues m)" b] by (simp add: deaf_def known_queues_def)
next
  case (declares q m)
  then show ?case by (auto simp: deaf_def declare_queue_def broker_queues_def split: option.split)
qed (simp_all add: deaf_def take_order_def match_order_def bake_def write_bread_def with_db_def with_world_def
    noting_change_def at_server_def Let_def split: prod.split)

text \<open>A maker without faults acknowledges every request for fifty; here nobody gets the confirmation.\<close>

lemma bake_unheard:
  assumes "asks_fifty j" and "queues m ''bread-made'' = None"
  shows "queues (bake [] j m) = answered ''make-bread-order'' j (queues m)"
proof -
  let ?w = "snd (processSingleMessage (Some j) (NewMakersService (Some (mk_publisher m))\<lparr>op_fails := []\<rparr>))"
  obtain c where "processOrder (Some j) = Some c" using assms(1) by (auto simp: asks_fifty_def)
  then have acked: "MakerAcked \<in> set (maker_answers ?w)"
    by (cases "mk_publisher m")
      (simp_all add: processSingleMessage_def attempt_apply publishConfirmation_def PublishConfirm_def ackDelivery_def
        maker_op_def NewMakersService_def)
  have "route (map (Pair ''bread-made'') cs) Q = Q" if "Q ''bread-made'' = None" for cs Q
    using that by (induction cs) (simp_all, simp add: fun_upd_idem)
  then show ?thesis using acked assms(2) by (simp add: bake_def Let_def)
qed

text \<open>
  C38: A server that could not reach RabbitMQ in the moment of its start never restocks, unless an earlier run
  has left its durable queue: if there was none it is never declared any more and the listener
  never gets to consume; a maker that works without faults acknowledges a request and takes it from
  its queue, but the confirmation reaches no queue at all; and for every bread the units in stock
  and sold are at most those at the start and those that others put in past the makers.
\<close>

theorem undeclared_queue_starves:
  assumes "server_main True attempts b = (Serving [], b1)" and "db_inv (bk_db b)" and "well_formed old"
    and "old ''bread-made'' = None" and "market_step\<^sup>*\<^sup>* (open_market old [] (bk_db b1) up p) m"
  shows "queues m ''bread-made'' = None \<and> \<not> listening m
    \<and> (\<forall>j. queued ''make-bread-order'' j (queues m) \<longrightarrow>
          queues (bake [] j m) = answered ''make-bread-order'' j (queues m))
    \<and> units (market_db m) i + sold (reported_items (mk_broker m)) i \<le> units (bk_db b) i + put_in m i"
proof -
  have d: "deaf m" using assms(5)
  proof (induction rule: rtranclp_induct)
    case base
    show ?case using assms(4) by (simp add: deaf_def open_market_def)
  next
    case (step m m')
    then show ?case using deaf_step by blast
  qed
  have m: "market_ok m" "balanced (units (bk_db b)) m"
    using market_reachable [OF assms(5) _ assms(3)] assms(2) server_main_serves [OF assms(1)] by auto
  have "queues (bake [] j m) = answered ''make-bread-order'' j (queues m)" if "queued ''make-bread-order'' j (queues m)" for j
    using bake_unheard m(1) d that by (simp add: market_ok_def belongs_def deaf_def)
  moreover have "units (market_db m) i + sold (reported_items (mk_broker m)) i \<le> units (bk_db b) i + put_in m i"
    using spec [OF m(2) [unfolded balanced_def], of i] d
    by (simp add: balance_def deaf_def delivered_for_def awaiting_def put_in_def)
  ultimately show ?thesis using d by (simp add: deaf_def)
qed

section \<open>A run\<close>

text \<open>
  From the same opening: the server asks for bread, a maker makes it, the server takes it; and a customer
  buys two of what was there.
\<close>

definition opened :: market where
  "opened = open_market (\<lambda>_. None) [''bread-made''] sample_db True RabbitMQPublisher"

definition stock_check :: "market \<Rightarrow> market" where
  "stock_check m = noting_change m (at_server [] checkBread m)"

definition with_queue :: "string \<Rightarrow> market \<Rightarrow> market" where
  "with_queue q m = m\<lparr>queues := declare_queue q (queues m)\<rparr>"

definition asked_for :: market where
  "asked_for = stock_check (with_queue ''make-bread-order'' opened)"

definition request_out :: json where
  "request_out = hd (the (queues asked_for ''make-bread-order''))"

definition made :: market where
  "made = (bake [] request_out asked_for)\<lparr>listening := True\<rparr>"

definition confirmation_out :: json where
  "confirmation_out = hd (the (queues made ''bread-made''))"

definition in_hand :: market where
  "in_hand = take_bread True confirmation_out made"

definition restocked_market :: market where
  "restocked_market = write_bread True in_hand"

definition bought :: market where
  "bought = at_server [] (BuyBread ''v'' False (headers []) (sample_request\<lparr>req_Breads := [pb_of 1 2]\<rparr>))
     (with_queue ''buy-bread-order'' opened)"

definition order_out :: json where
  "order_out = hd (the (queues bought ''buy-bread-order''))"

definition consuming :: "market \<Rightarrow> market" where
  "consuming m = m\<lparr>mk_broker := (mk_broker m)\<lparr>consumer := Consuming\<rparr>\<rparr>"

definition order_in :: market where
  "order_in = take_order True order_out (consuming bought)"

definition in_batch :: "market \<Rightarrow> market" where
  "in_batch m = m\<lparr>mk_broker := start_batch (mk_broker m)\<rparr>"

definition two_sold :: market where
  "two_sold = match_order (match_order (match_order (match_order (in_batch order_in))))"

lemma request_queued: "queued ''make-bread-order'' request_out (queues asked_for)"
  by code_simp

lemma confirmation_queued: "queued ''bread-made'' confirmation_out (queues made)"
  by code_simp

lemma order_queued: "queued ''buy-bread-order'' order_out (queues bought)"
  by code_simp

lemma order_buffered: "buffer (mk_broker order_in) \<noteq> []"
  by code_simp

lemma order_fields:
  "consumer (mk_broker bought) = Reconnecting" "\<not> stopped (mk_broker bought)"
  "matching (mk_broker order_in)" "engine_at (mk_broker order_in) = Idle"
  by (simp_all add: order_in_def take_order_def consuming_def bought_def with_queue_def intake_fields split: prod.split)
    (simp_all add: at_server_def Let_def with_db_def with_world_def opened_def open_market_def startMatchingEngine_def)

lemmas run_facts = request_queued confirmation_queued order_queued order_fields order_buffered

lemma opened_makes: "market_step\<^sup>*\<^sup>* opened made"
proof -
  let ?m = "with_queue ''make-bread-order'' opened" and ?n = "bake [] request_out asked_for"
  have "''bread-made'' \<in> known_queues (queues ?n)"
    using run_facts(2) by (auto simp: made_def queued_def known_queues_def split: option.splits)
  then have up: "\<not> isl (fst (listener_connects (known_queues (queues ?n)) low_bakery))"
    by (simp add: listener_connects_def Consume_def seq_apply amqp_op_def low_bakery_def)
  have h: "held ?n = None"
    by (simp add: bake_def Let_def asked_for_def stock_check_def) (simp add: with_queue_def opened_def open_market_def)
  have "market_step opened ?m" unfolding with_queue_def by (rule declares) simp
  moreover have "market_step ?m asked_for" unfolding asked_for_def stock_check_def by (rule check)
  moreover have "market_step asked_for ?n" by (rule bakes [OF run_facts(1)])
  moreover have "market_step ?n made" unfolding made_def using h up by (rule listener_up)
  ultimately show ?thesis by (meson rtranclp.rtrancl_into_rtrancl rtranclp.rtrancl_refl)
qed

lemma made_fields: "held made = None" "listening made"
  by (simp_all add: made_def bake_def Let_def asked_for_def stock_check_def) (simp add: with_queue_def opened_def open_market_def)

lemma opened_takes: "market_step\<^sup>*\<^sup>* opened in_hand"
  using opened_makes bread [OF made_fields(2,1) run_facts(2), of True]
  unfolding in_hand_def by (rule rtranclp.rtrancl_into_rtrancl)

lemma opened_restocks: "market_step\<^sup>*\<^sup>* opened restocked_market"
  using opened_takes writes [of in_hand True] unfolding restocked_market_def by (rule rtranclp.rtrancl_into_rtrancl)

lemma matching_steps:
  assumes "engine_at (mk_broker m) = AtOrder [ord] []" and "length (o_Breads ord) = 1"
  shows "market_step\<^sup>*\<^sup>* m (match_order (match_order (match_order (match_order m))))"
proof -
  obtain b where b: "o_Breads ord = [b]" using assms(2) by (cases "o_Breads ord") auto
  have 1: "engine_at (mk_broker (match_order m)) = AtItem ord [b] zero_match [] []"
    using assms(1) b by (simp add: match_order_def match_next_def Let_def)
  then have 2: "\<exists>a. engine_at (mk_broker (match_order (match_order m))) = AtItem ord [] a [] []"
    by (simp add: match_order_def [of "match_order m"] match_next_def Let_def split: prod.split)
  then have 3: "\<exists>r. engine_at (mk_broker (match_order (match_order (match_order m)))) = AtOrder [] [r]"
    by (auto simp: match_order_def [of "match_order (match_order m)"] match_next_def Let_def split: prod.split)
  have "market_step m (match_order m)" by (rule matches_next) (simp add: assms(1))
  moreover have "market_step (match_order m) (match_order (match_order m))" by (rule matches_next) (simp add: 1)
  moreover have "market_step (match_order (match_order m)) (match_order (match_order (match_order m)))"
    by (rule matches_next) (use 2 in auto)
  moreover have "market_step (match_order (match_order (match_order m))) (match_order (match_order (match_order (match_order m))))"
    by (rule matches_next) (use 3 in auto)
  ultimately show ?thesis by (meson rtranclp.rtrancl_into_rtrancl rtranclp.rtrancl_refl)
qed

lemma batch_facts: "map (\<lambda>ord. length (o_Breads ord)) (go_sort priority_less (buffer (mk_broker order_in))) = [1]"
  by code_simp

lemma opened_sells: "market_step\<^sup>*\<^sup>* opened two_sold"
proof -
  let ?m = "with_queue ''buy-bread-order'' opened"
  obtain ord where ord: "go_sort priority_less (buffer (mk_broker order_in)) = [ord]" "length (o_Breads ord) = 1"
    using batch_facts by (cases "go_sort priority_less (buffer (mk_broker order_in))") auto
  have "market_step opened ?m" unfolding with_queue_def by (rule declares) (simp add: broker_queues_def)
  moreover have "market_step ?m bought" unfolding bought_def by (rule buy)
  moreover have "market_step bought (consuming bought)" unfolding consuming_def
    by (rule broker_moves, rule reconnect) (use run_facts(4,5) in simp_all)
  moreover have "market_step (consuming bought) order_in" unfolding order_in_def
    by (rule order) (use run_facts(3) in \<open>simp_all add: consuming_def\<close>)
  moreover have "market_step order_in (in_batch order_in)" unfolding in_batch_def by (rule batch [OF run_facts(6-8)])
  ultimately have "market_step\<^sup>*\<^sup>* opened (in_batch order_in)"
    by (meson rtranclp.rtrancl_into_rtrancl rtranclp.rtrancl_refl)
  moreover have "market_step\<^sup>*\<^sup>* (in_batch order_in) two_sold" unfolding two_sold_def
    by (rule matching_steps [of _ ord]) (use ord in \<open>simp_all add: in_batch_def start_batch_fields\<close>)
  ultimately show ?thesis by (rule rtranclp_trans)
qed

lemma started:
  "server_main True (\<lambda>_. Answers) low_bakery = (Serving [''bread-made''], low_bakery)" "bk_db low_bakery = sample_db"
  "db_inv sample_db" "units sample_db 1 = 5" "well_formed (\<lambda>_. None)"
proof -
  show "server_main True (\<lambda>_. Answers) low_bakery = (Serving [''bread-made''], low_bakery)" "bk_db low_bakery = sample_db"
    by (simp_all add: server_main_def connectToDB.simps openDB_def new_dialling_def init_def attempt_apply seq_apply
        amqp_op_def low_bakery_def)
  show "db_inv sample_db" "units sample_db 1 = 5" by code_simp+
  show "well_formed (\<lambda>_. None)" by (simp add: well_formed_def queued_def)
qed

lemma checked_books:
  "units (market_db (at_server [] checkBread (with_queue ''make-bread-order'' opened))) 1 = 5"
  "units (market_db (with_queue ''make-bread-order'' opened)) 1 = 5"
  by code_simp+

lemma restocked_units: "units (market_db restocked_market) 1 = 55"
  by code_simp

lemma restocked_baked: "length (filter (made_for 1) (baked restocked_market)) = 1"
  by code_simp

lemma in_hand_units: "units (market_db in_hand) 1 = 5"
  by code_simp

lemma in_hand_held: "map_option (\<lambda>w. (pw_bread w, pw_read w, pw_new w)) (held in_hand) = Some (1, 5, 55)"
  by code_simp

lemma two_sold_units: "units (market_db two_sold) 1 = 3"
  by code_simp

lemma two_sold_items: "sold (reported_items (mk_broker two_sold)) 1 = 2"
  by code_simp

lemmas run_books = restocked_units restocked_baked in_hand_units two_sold_units two_sold_items

lemma made_books: "put_in made 1 = 0" "overwritten made = (\<lambda>_. 0)" "reported_items (mk_broker made) = []"
proof -
  have "put_in (with_queue ''make-bread-order'' opened) 1 = 0"
    by (simp add: put_in_def with_queue_def opened_def open_market_def)
  then have "put_in asked_for 1 = 0" using checked_books by (simp add: asked_for_def stock_check_def)
  moreover have "changes made = changes asked_for" by (simp add: made_def bake_def Let_def)
  ultimately show "put_in made 1 = 0" by (simp add: put_in_def)
  show "overwritten made = (\<lambda>_. 0)" "reported_items (mk_broker made) = []"
    by (simp_all add: made_def bake_def Let_def asked_for_def stock_check_def)
      (simp_all add: with_queue_def opened_def open_market_def startMatchingEngine_def reported_items_def)
qed

lemma restocked_books:
  "put_in restocked_market 1 = 0" "overwritten restocked_market 1 = 0" "reported_items (mk_broker restocked_market) = []"
proof -
  obtain w where w: "held in_hand = Some w" "pw_read w = 5" "pw_bread w = 1" using in_hand_held by auto
  have "changes in_hand = changes made" "overwritten in_hand = overwritten made"
      "reported_items (mk_broker in_hand) = reported_items (mk_broker made)"
    by (auto simp: in_hand_def take_bread_def Let_def with_db_def with_world_def reported_items_def split: option.split prod.split sum.split)
  moreover have "changes restocked_market = changes in_hand"
      "reported_items (mk_broker restocked_market) = reported_items (mk_broker in_hand)"
    by (simp_all add: restocked_market_def write_bread_def with_db_def with_world_def reported_items_def split: prod.split option.split)
  ultimately show "put_in restocked_market 1 = 0" "overwritten restocked_market 1 = 0" "reported_items (mk_broker restocked_market) = []"
    using made_books run_books(3) w
    by (auto simp: put_in_def) (simp add: restocked_market_def write_bread_def split: prod.split)
qed

lemma two_sold_books: "baked two_sold = []" "changes two_sold = []" "overwritten two_sold = (\<lambda>_. 0)"
  by (simp_all add: two_sold_def match_order_def Let_def in_batch_def order_in_def take_order_def consuming_def bought_def
      with_queue_def split: prod.split)
    (simp_all add: opened_def open_market_def)

theorem market_sells_what_it_has_witness:
  "units (market_db restocked_market) 1 = 55 \<and> units (market_db restocked_market) 1 \<le> 5 + 50 * 1
    \<and> sold (reported_items (mk_broker two_sold)) 1 = 2 \<and> units (market_db two_sold) 1 + 2 \<le> 5"
proof -
  have runs: "market_step\<^sup>*\<^sup>* (open_market (\<lambda>_. None) [''bread-made''] (bk_db low_bakery) True RabbitMQPublisher) restocked_market"
      "market_step\<^sup>*\<^sup>* (open_market (\<lambda>_. None) [''bread-made''] (bk_db low_bakery) True RabbitMQPublisher) two_sold"
    using opened_restocks opened_sells by (simp_all add: opened_def started(2))
  have "db_inv (bk_db low_bakery)" using started by simp
  from market_sells_what_it_has [OF started(1) this started(5) runs(1), of 1]
    market_sells_what_it_has [OF started(1) this started(5) runs(2), of 1]
  show ?thesis using run_books restocked_books two_sold_books started(2,4) by (simp add: put_in_def)
qed

text \<open>The listener has read that there are five; two are sold before it writes.\<close>

definition sell_two :: "market \<Rightarrow> market" where
  "sell_two m = noting_change m (with_db (snd (FulfillOrderItem 1 2 (market_db m))) m)"

lemma stale_facts:
  "made_for 1 confirmation_out" "stock (market_db made) 1 = Some 5"
  "stock (market_db (sell_two in_hand)) 1 = Some 3" "faults (market_db (sell_two in_hand)) = []"
  by code_simp+


text \<open>The same opening, but for RabbitMQ, which could not be reached when the server started.\<close>

definition refused :: bakery where
  "refused = low_bakery\<lparr>amqp := [LostRequest]\<rparr>"

definition still_deaf :: market where
  "still_deaf = stock_check (with_queue ''make-bread-order'' (open_market (\<lambda>_. None) [] sample_db True RabbitMQPublisher))"

definition request_deaf :: json where
  "request_deaf = hd (the (queues still_deaf ''make-bread-order''))"

theorem undeclared_queue_starves_witness:
  "queues still_deaf ''bread-made'' = None \<and> length (the (queues still_deaf ''make-bread-order'')) = 2
    \<and> queues (bake [] request_deaf still_deaf) = answered ''make-bread-order'' request_deaf (queues still_deaf)
    \<and> units (market_db still_deaf) 1 \<le> 5"
proof -
  have start: "server_main True (\<lambda>_. Answers) refused = (Serving [], low_bakery)" "bk_db refused = sample_db"
    by (simp_all add: server_main_def connectToDB.simps openDB_def new_dialling_def init_def attempt_apply seq_apply
        amqp_op_def refused_def low_bakery_def)
  let ?m0 = "open_market (\<lambda>_. None) [] sample_db True RabbitMQPublisher"
  have "market_step ?m0 (with_queue ''make-bread-order'' ?m0)" unfolding with_queue_def by (rule declares) simp
  moreover have "market_step (with_queue ''make-bread-order'' ?m0) still_deaf"
    unfolding still_deaf_def stock_check_def by (rule check)
  ultimately have "market_step\<^sup>*\<^sup>* (open_market (\<lambda>_. None) [] (bk_db low_bakery) True RabbitMQPublisher) still_deaf"
    unfolding started(2) by (meson rtranclp.rtrancl_into_rtrancl rtranclp.rtrancl_refl)
  note claim = undeclared_queue_starves [OF start(1) _ started(5) refl this, of 1, unfolded start(2), OF started(3)]
  have facts: "queued ''make-bread-order'' request_deaf (queues still_deaf)"
      "length (the (queues still_deaf ''make-bread-order'')) = 2"
      "units (market_db (at_server [] checkBread (with_queue ''make-bread-order'' ?m0))) 1 = 5"
      "units (market_db (with_queue ''make-bread-order'' ?m0)) 1 = 5"
    by code_simp+
  have "put_in (with_queue ''make-bread-order'' ?m0) 1 = 0" by (simp add: put_in_def with_queue_def open_market_def)
  then have "put_in still_deaf 1 = 0" using facts(3,4) by (simp add: still_deaf_def stock_check_def)
  moreover
  have "reported_items (mk_broker still_deaf) = []"
    by (simp add: still_deaf_def stock_check_def) (simp add: with_queue_def open_market_def startMatchingEngine_def reported_items_def)
  ultimately show ?thesis using claim facts(1,2) started(4) by simp
qed

end
