(* ===== verification/Notify.thy ===== *)
theory Notify
  imports Bakery
begin

text \<open>
  Waiting for an order in the database: the trigger of \<open>bakery.sql\<close> that notifies of a new status, and
  \<open>WaitForOrderNotification\<close> of \<open>data/models.go\<close>, which listens and polls.
\<close>

section \<open>The trigger\<close>

text \<open>
  After an update of \<open>buy_order\<close>: the UUIDs of the rows whose status has changed, in order. The rows are
  those of the update, before and after it.
\<close>

definition notify_order_status_change :: "buy_order_row list \<Rightarrow> buy_order_row list \<Rightarrow> string list" where
  "notify_order_status_change old new =
     map (\<lambda>(r, r'). bo_uuid r') (filter (\<lambda>(r, r'). bo_status r' \<noteq> bo_status r) (zip old new))"

section \<open>The wait\<close>

text \<open>
  What the \<open>select\<close> takes next: the context's end, a notification that arrives on the connection, the
  end of the listening goroutine, or the ticker, with the database it finds. An error of \<open>LISTEN\<close>
  closes the connection, so that its goroutine ends at once with an error.
\<close>

datatype listen_start = ConnectFails | ListenFails | Listens

datatype wait_event = ContextEnds | Notification string | ListenBroken | Ticks db

datatype wait_result = NoDSN | ContextError | Notified

fun wait_loop :: "string \<Rightarrow> bool \<Rightarrow> wait_event list \<Rightarrow> wait_result option" where
  "wait_loop uuid listening [] = None"
| "wait_loop uuid listening (ContextEnds # events) = Some ContextError"
| "wait_loop uuid listening (Notification payload # events) =
     (if listening \<and> payload = uuid then Some Notified else wait_loop uuid listening events)"
| "wait_loop uuid listening (ListenBroken # events) = wait_loop uuid False events"
| "wait_loop uuid listening (Ticks s # events) =
     (case fst (GetBuyOrderByUUID uuid s) of
        Inl err \<Rightarrow> wait_loop uuid listening events
      | Inr order \<Rightarrow> if o_Status order = ''Processed'' \<or> o_Status order = ''Failed'' then Some Notified
          else wait_loop uuid listening events)"

definition WaitForOrderNotification ::
  "string \<Rightarrow> listen_start \<Rightarrow> string \<Rightarrow> wait_event list \<Rightarrow> wait_result option" where
  "WaitForOrderNotification dsn start uuid events =
     (if dsn = [] then Some NoDSN else wait_loop uuid (start = Listens) events)"

section \<open>What ends it\<close>

text \<open>The events on which the wait ends: polling is not among them.\<close>

fun ends_wait :: "string \<Rightarrow> bool \<Rightarrow> wait_event list \<Rightarrow> wait_result option" where
  "ends_wait uuid listening [] = None"
| "ends_wait uuid listening (ContextEnds # events) = Some ContextError"
| "ends_wait uuid listening (Notification payload # events) =
     (if listening \<and> payload = uuid then Some Notified else ends_wait uuid listening events)"
| "ends_wait uuid listening (ListenBroken # events) = ends_wait uuid False events"
| "ends_wait uuid listening (Ticks s # events) = ends_wait uuid listening events"

definition ticks_sound :: "wait_event list \<Rightarrow> bool" where
  "ticks_sound events \<longleftrightarrow> list_all (\<lambda>e. case e of Ticks s \<Rightarrow> db_inv s | _ \<Rightarrow> True) events"

text \<open>
  The poll that the comment calls a guaranteed fallback never ends the wait, in any database that
  satisfies its constraints: it compares with statuses that no order can have. What is not
  notified of is waited for until the context ends.
\<close>

theorem polling_never_ends_wait:
  assumes "ticks_sound events" and "dsn \<noteq> []"
  shows "WaitForOrderNotification dsn start uuid events = ends_wait uuid (start = Listens) events"
proof -
  have "wait_loop uuid l events = ends_wait uuid l events" for l
    using assms(1)
  proof (induction uuid l events rule: ends_wait.induct)
    case (5 uuid l s events)
    then have "db_inv s" "wait_loop uuid l events = ends_wait uuid l events" by (simp_all add: ticks_sound_def)
    then show ?case using found_status [of s uuid] by (auto split: sum.split)
  qed (simp_all add: ticks_sound_def)
  then show ?thesis using assms(2) by (simp add: WaitForOrderNotification_def)
qed

text \<open>The settlement of an order notifies of it, once; storing the same status again does not.\<close>

lemma set_status_notifies:
  assumes "distinct (map bo_uuid rs)"
  shows "notify_order_status_change rs (update_where (\<lambda>r. bo_uuid r = u) (\<lambda>r. r\<lparr>bo_status := st\<rparr>) rs)
    = (if \<exists>r \<in> set rs. bo_uuid r = u \<and> bo_status r \<noteq> st then [u] else [])"
  using assms
proof (induction rs)
  case (Cons r rs)
  have none: "notify_order_status_change rs (update_where (\<lambda>r. bo_uuid r = u) (\<lambda>r. r\<lparr>bo_status := st\<rparr>) rs) = []"
    if "u \<notin> bo_uuid ` set rs"
    using Cons.IH Cons.prems that by (auto split: if_splits)
  show ?case
  proof (cases "bo_uuid r = u")
    case True
    then have u: "u \<notin> bo_uuid ` set rs" using Cons.prems by auto
    then have "\<forall>x \<in> set rs. bo_uuid x \<noteq> u" by auto
    then show ?thesis using none [OF u] True
      by (auto simp: notify_order_status_change_def update_where_def)
  next
    case False
    then show ?thesis using Cons.IH Cons.prems
      by (auto simp: notify_order_status_change_def update_where_def)
  qed
qed (simp add: notify_order_status_change_def update_where_def)

end
