(* ===== verification/Site.thy ===== *)
theory Site
  imports Portal Shop
begin

text \<open>
  The start of the front end (\<open>frontend/cmd/web/main.go\<close>): where its templates are looked for, which are
  parsed under which names, and what must be there for it to serve.
\<close>

section \<open>Templates\<close>

text \<open>
  The files that exist, what parsing a list of them gives (\<open>None\<close> is an error; a template is known by
  the error its execution ends in, if any), and the environment.
\<close>

record site =
  file_exists :: "string \<Rightarrow> bool"
  ParseFiles :: "string list \<Rightarrow> string option option"
  csrf_key :: string
  dial_fails :: bool

text \<open>
  \<open>filepath.Join(".", path)\<close> cleans the path; of what the cleaning does, the paths here have a leading
  \<open>./\<close> to lose and nothing else.
\<close>

definition getTemplatePath :: "(string \<Rightarrow> bool) \<Rightarrow> string \<Rightarrow> string" where
  "getTemplatePath ex relativePath =
     (if ex relativePath then relativePath
      else (let trimmedPath = (if has_prefix ''./cmd/web/'' relativePath
                               then ''./'' @ TrimPrefix ''./cmd/web/'' relativePath else relativePath)
            in if ex trimmedPath then trimmedPath else TrimPrefix ''./'' relativePath))"

text \<open>
  What is parsed, in this order: the names a template gets and its files. The range over the map of the
  public pages has no order; it makes no difference, since their names differ.
\<close>

definition base_with :: "string \<Rightarrow> string \<Rightarrow> string list \<times> string list" where
  "base_with area t = ([area @ t], [''./cmd/web/templates/'' @ area @ ''base.html'', ''./cmd/web/templates/'' @ area @ t])"

definition dashboard_of :: "string \<Rightarrow> string list \<times> string list" where
  "dashboard_of area = ([area @ ''base.html'', area @ ''dashboard.html''],
     [''./cmd/web/templates/'' @ area @ ''base.html'', ''./cmd/web/templates/'' @ area @ ''dashboard.html''])"

definition alone :: "string \<Rightarrow> string \<Rightarrow> string list \<times> string list" where
  "alone name path = ([name], [''./cmd/web/templates/'' @ path])"

definition adminContentTemplates :: "string list" where
  "adminContentTemplates = [''bread/list.html'', ''bread/form.html'', ''orders/list.html'', ''customers/list.html'',
     ''customers/detail.html'', ''makers/list.html'', ''makers/detail.html'', ''alerts.html'']"

definition portalContentTemplates :: "string list" where
  "portalContentTemplates = [''orders.html'', ''order_detail.html'', ''invoices.html'', ''invoice_detail.html'']"

definition publicTemplates :: "(string \<times> string) list" where
  "publicTemplates = [(''index'', ''index.html''), (''order-details'', ''order-details.html''), (''service'', ''service.html''),
     (''product'', ''product.html''), (''team'', ''team.html''), (''testimonial'', ''testimonial.html''),
     (''contact'', ''contact.html''), (''404'', ''404.html'')]"

definition site_templates :: "(string list \<times> string list) list" where
  "site_templates =
     map (base_with ''admin/'') adminContentTemplates @ [dashboard_of ''admin/'', alone ''admin/login.html'' ''admin/login.html'']
     @ map (base_with ''portal/'') portalContentTemplates @ [dashboard_of ''portal/'', alone ''portal/login.html'' ''portal/login.html'']
     @ map (\<lambda>(key, path). alone key path) publicTemplates"

text \<open>The first that cannot be parsed ends the process (\<open>None\<close>).\<close>

fun load_templates :: "site \<Rightarrow> (string list \<times> string list) list \<Rightarrow> (string \<Rightarrow> string option option)
    \<Rightarrow> (string \<Rightarrow> string option option) option" where
  "load_templates S [] m = Some m"
| "load_templates S ((names, files) # rest) m =
     (case ParseFiles S (map (getTemplatePath (file_exists S)) files) of
        None \<Rightarrow> None
      | Some tmpl \<Rightarrow> load_templates S rest (\<lambda>n. if n \<in> set names then Some tmpl else m n))"

definition initTemplates :: "site \<Rightarrow> (string \<Rightarrow> string option option) option" where
  "initTemplates S = load_templates S site_templates (\<lambda>n. None)"

section \<open>The start\<close>

text \<open>
  \<open>main\<close> up to \<open>ListenAndServe\<close>: templates, connection, CSRF key; each missing one ends the process.
\<close>

definition web_main :: "site \<Rightarrow> auth_env \<Rightarrow> string \<Rightarrow> web_env option" where
  "web_main S E addr =
     (case initTemplates S of
        None \<Rightarrow> None
      | Some ts \<Rightarrow>
          if dial_fails S then None
          else if csrf_key S = [] then None
          else Some \<lparr>wauth = E, templates = ts, web_addr = addr\<rparr>)"

section \<open>Every page has its template\<close>

lemma load_templates_has:
  "load_templates S ts m = Some m' \<Longrightarrow> n \<in> \<Union> (set ` set (map fst ts)) \<or> m n \<noteq> None \<Longrightarrow> m' n \<noteq> None"
proof (induction S ts m rule: load_templates.induct)
  case (2 S names files rest m)
  then show ?case by (auto split: option.splits if_splits)
qed simp

definition page_names :: "string list" where
  "page_names = [''admin/base.html'', ''admin/bread/list.html'', ''admin/bread/form.html'', ''admin/orders/list.html'',
     ''admin/customers/list.html'', ''admin/customers/detail.html'', ''admin/makers/list.html'',
     ''admin/makers/detail.html'', ''admin/alerts.html'', ''admin/login.html'', ''portal/base.html'', ''portal/orders.html'',
     ''portal/order_detail.html'', ''portal/invoices.html'', ''portal/invoice_detail.html'', ''portal/login.html'',
     ''index'', ''order-details'', ''service'', ''product'', ''team'', ''testimonial'', ''contact'', ''404'']"

lemma page_names_parsed: "n \<in> set page_names \<Longrightarrow> n \<in> \<Union> (set ` set (map fst site_templates))"
proof -
  have "set page_names \<subseteq> set (concat (map fst site_templates))" by code_simp
  then show "n \<in> set page_names \<Longrightarrow> n \<in> \<Union> (set ` set (map fst site_templates))" by auto
qed

lemma web_main_templates:
  assumes "web_main S E addr = Some W" and "n \<in> set page_names"
  shows "templates W n \<noteq> None"
proof -
  obtain ts where ts: "initTemplates S = Some ts" "templates W = ts"
    using assms(1) by (auto simp: web_main_def split: option.splits if_splits)
  show ?thesis
    using load_templates_has [OF ts(1) [unfolded initTemplates_def], of n] page_names_parsed [OF assms(2)] ts(2) by simp
qed

end
