(* ===== verification/MakersProcess.thy ===== *)
theory MakersProcess
  imports Makers
begin

text \<open>
  The process of the makers (\<open>main\<close>, \<open>Start\<close>, \<open>Stop\<close> and \<open>runConsumerLoop\<close> of \<open>makers/main.go\<close>) as a step
  relation: the consuming goroutine and the main one, which waits for a signal and then for the other.
\<close>

section \<open>The two goroutines\<close>

text \<open>
  The consumer is in \<open>consumeMessages\<close> before its loop, in the loop, in one of the two \<open>select\<close>s of
  \<open>runConsumerLoop\<close>, or has returned. Main is at \<open><-sigCh\<close>, at \<open>Stop\<close>, at \<open>cancel\<close>, at \<open>wg.Wait\<close>, or
  at its end.
\<close>

datatype maker_pc = MakerConnecting | MakerConsuming | MakerWaiting | MakerReturned

datatype maker_main_pc = AwaitsSignal | CallsStop | CallsCancel | AwaitsConsumer | MainEnded

record maker_process =
  msvc :: MakersService
  mpc :: maker_pc
  stop_closed :: bool
  ctx_cancelled :: bool
  main_at :: maker_main_pc

text \<open>
  The number of workers: what \<open>Sscanf\<close> reads of \<open>MAKERS_WORKERS\<close>, \<open>None\<close> when it is unset or no number;
  \<open>Sscanf\<close> then leaves the 1.
\<close>

definition maker_workers :: "int option \<Rightarrow> int" where
  "maker_workers scanned = (case scanned of None \<Rightarrow> 1 | Some n \<Rightarrow> if n < 1 then 1 else n)"

text \<open>\<open>main\<close> up to \<open><-sigCh\<close>: a service without a publisher, started. The list says which operations will fail.\<close>

definition maker_started :: "Publisher option \<Rightarrow> bool list \<Rightarrow> maker_process" where
  "maker_started p fails = \<lparr>msvc = NewMakersService p\<lparr>op_fails := fails\<rparr>, mpc = MakerConnecting,
     stop_closed = False, ctx_cancelled = False, main_at = AwaitsSignal\<rparr>"

definition makers_main :: "bool list \<Rightarrow> maker_process" where
  "makers_main = maker_started None"

definition maker_Stop :: "maker_process \<Rightarrow> maker_process" where
  "maker_Stop s = (if stop_closed s then s else s\<lparr>stop_closed := True\<rparr>)"

datatype maker_event = Connects | Delivery "json option" | ConnectionLost | TimerFires | LeavesLoop
  | SignalArrives | Stops | Cancels | MainReturns

text \<open>
  The range over the deliveries looks at the context after a delivery only, and never at \<open>stopCh\<close>;
  both are looked at while the loop waits to reconnect.
\<close>

inductive maker_step :: "maker_event \<Rightarrow> maker_process \<Rightarrow> maker_process \<Rightarrow> bool" where
  connects: "mpc s = MakerConnecting \<Longrightarrow> consumeMessages [] (msvc s) = (r, w)
     \<Longrightarrow> maker_step Connects s (s\<lparr>msvc := w, mpc := (case r of Inl e \<Rightarrow> MakerWaiting | Inr _ \<Rightarrow> MakerConsuming)\<rparr>)"
| delivery: "mpc s = MakerConsuming
     \<Longrightarrow> maker_step (Delivery d) s (s\<lparr>msvc := snd (processSingleMessage d (msvc s)),
           mpc := (if ctx_cancelled s then MakerWaiting else MakerConsuming)\<rparr>)"
| lost: "mpc s = MakerConsuming \<Longrightarrow> maker_step ConnectionLost s (s\<lparr>mpc := MakerWaiting\<rparr>)"
| timer: "mpc s = MakerWaiting \<Longrightarrow> maker_step TimerFires s (s\<lparr>mpc := MakerConnecting\<rparr>)"
| leaves: "mpc s = MakerWaiting \<Longrightarrow> stop_closed s \<or> ctx_cancelled s
     \<Longrightarrow> maker_step LeavesLoop s (s\<lparr>mpc := MakerReturned\<rparr>)"
| signal: "main_at s = AwaitsSignal \<Longrightarrow> maker_step SignalArrives s (s\<lparr>main_at := CallsStop\<rparr>)"
| stops: "main_at s = CallsStop \<Longrightarrow> maker_step Stops s ((maker_Stop s)\<lparr>main_at := CallsCancel\<rparr>)"
| cancels: "main_at s = CallsCancel \<Longrightarrow> maker_step Cancels s (s\<lparr>ctx_cancelled := True, main_at := AwaitsConsumer\<rparr>)"
| returns: "main_at s = AwaitsConsumer \<Longrightarrow> mpc s = MakerReturned \<Longrightarrow> maker_step MainReturns s (s\<lparr>main_at := MainEnded\<rparr>)"

inductive_cases maker_stepE: "maker_step e s s'"

inductive maker_run :: "maker_process \<Rightarrow> maker_event list \<Rightarrow> maker_process \<Rightarrow> bool" where
  stay: "maker_run s [] s"
| more: "maker_run s es t \<Longrightarrow> maker_step e t u \<Longrightarrow> maker_run s (es @ [e]) u"

lemma maker_run_trans: "maker_run t es u \<Longrightarrow> maker_run s fs t \<Longrightarrow> maker_run s (fs @ es) u"
proof (induction rule: maker_run.induct)
  case (more t es u e v)
  then show ?case using maker_run.more [of s "fs @ es" u e v] by simp
qed simp

lemma maker_run_step: "maker_step e s t \<Longrightarrow> maker_run t es u \<Longrightarrow> maker_run s (e # es) u"
  using maker_run_trans [of t es u s "[e]"] more [OF stay, of e s t] by simp

section \<open>The process does what the loop does\<close>

lemma deliveries_snoc:
  "snd (deliveries (map (\<lambda>d. (d, False)) ds @ [(d, c)]) w)
    = snd (processSingleMessage d (snd (deliveries (map (\<lambda>d. (d, False)) ds) w)))"
proof (induction ds arbitrary: w)
  case (Cons x xs)
  then show ?case by (cases "processSingleMessage x w") (auto simp: Let_def attempt_apply split: sum.split)
qed (auto simp: Let_def attempt_apply fail_def ret_def split: prod.split sum.split)

lemma deliveries_ok: "fst (deliveries (map (\<lambda>d. (d, False)) ds) w) = Inr ()"
proof (induction ds arbitrary: w)
  case (Cons x xs)
  then show ?case by (cases "processSingleMessage x w") (auto simp: Let_def attempt_apply split: sum.split)
qed (simp add: ret_def)

text \<open>A connection that is made, and what is then delivered on it.\<close>

lemma consume_deliveries:
  "consumeMessages [] w = (Inr (), v) \<Longrightarrow> consumeMessages ds w = deliveries ds v"
  by (auto simp: consumeMessages_def seq_apply ret_def split: sum.splits prod.splits)

lemma consume_fails: "consumeMessages [] w = (Inl e, v) \<Longrightarrow> consumeMessages ds w = (Inl e, v)"
  by (auto simp: consumeMessages_def seq_apply ret_def split: sum.splits prod.splits)

lemma rounds_snoc:
  "snd (runConsumerLoop (map (\<lambda>ds. (ds, False)) rs @ [(ds, c)]) w)
    = snd (consumeMessages ds (snd (runConsumerLoop (map (\<lambda>ds. (ds, False)) rs) w)))"
proof (induction rs arbitrary: w)
  case (Cons x xs)
  then show ?case by (cases "consumeMessages x w") (auto simp: Let_def attempt_apply split: sum.split)
qed (auto simp: Let_def attempt_apply ret_def split: prod.split sum.split)

text \<open>
  What the consumer has done so far: rounds of \<open>runConsumerLoop\<close>, and the deliveries of a connection
  that was made after them.
\<close>

definition rounds_of :: "(json option \<times> bool) list list \<Rightarrow> ((json option \<times> bool) list \<times> bool) list" where
  "rounds_of rs = map (\<lambda>ds. (ds, False)) rs"

definition as_loop :: "MakersService \<Rightarrow> maker_process \<Rightarrow> bool" where
  "as_loop w s \<longleftrightarrow>
     (if mpc s = MakerConsuming
      then \<exists>rs v ds. consumeMessages [] (snd (runConsumerLoop (rounds_of rs) w)) = (Inr (), v)
             \<and> msvc s = snd (deliveries (map (\<lambda>d. (d, False)) ds) v)
      else \<exists>rs. msvc s = snd (runConsumerLoop (rounds_of rs) w))"

lemma as_loop_consumingI:
  assumes "consumeMessages [] (snd (runConsumerLoop (rounds_of rs) w)) = (Inr (), v)"
    and "msvc s = snd (deliveries (map (\<lambda>d. (d, False)) ds) v)" and "mpc s = MakerConsuming"
  shows "as_loop w s"
  using assms unfolding as_loop_def by (metis (no_types, lifting))

lemma as_loop_ends:
  assumes "as_loop w s" and "mpc s = MakerConsuming"
  shows "\<exists>rs. msvc s = snd (runConsumerLoop (rounds_of rs) w)"
    and "\<exists>rs. snd (processSingleMessage d (msvc s)) = snd (runConsumerLoop (rounds_of rs) w)"
proof -
  obtain rs v ds where *: "consumeMessages [] (snd (runConsumerLoop (rounds_of rs) w)) = (Inr (), v)"
    "msvc s = snd (deliveries (map (\<lambda>d. (d, False)) ds) v)"
    using assms by (auto simp: as_loop_def)
  have "snd (runConsumerLoop (rounds_of (rs @ [xs])) w) = snd (deliveries xs v)" for xs
    using rounds_snoc [of rs xs False w] consume_deliveries [OF *(1)] by (simp add: rounds_of_def)
  note r = this [of "map (\<lambda>d. (d, False)) ds"] this [of "map (\<lambda>d. (d, False)) ds @ [(d, True)]"]
  show "\<exists>rs. msvc s = snd (runConsumerLoop (rounds_of rs) w)"
    and "\<exists>rs. snd (processSingleMessage d (msvc s)) = snd (runConsumerLoop (rounds_of rs) w)"
    using r *(2) deliveries_snoc [of ds d True v] by metis+
qed

lemma as_loop_step:
  assumes "maker_step e s s'" and "as_loop w s"
  shows "as_loop w s'"
  using assms(1)
proof cases
  case (connects r v)
  then obtain rs where rs: "msvc s = snd (runConsumerLoop (rounds_of rs) w)"
    using assms(2) by (auto simp: as_loop_def)
  show ?thesis
  proof (cases r)
    case (Inl err)
    then have "v = snd (runConsumerLoop (rounds_of (rs @ [[]])) w)"
      using rounds_snoc [of rs "[]" False w] connects(4) rs by (simp add: rounds_of_def)
    then show ?thesis using Inl connects(2) by (auto simp: as_loop_def)
  next
    case (Inr u)
    then have "consumeMessages [] (snd (runConsumerLoop (rounds_of rs) w)) = (Inr (), v)" using connects(4) rs by simp
    moreover have "msvc s' = snd (deliveries (map (\<lambda>d. (d, False)) []) v)" "mpc s' = MakerConsuming"
      using Inr connects(2) by (simp_all add: ret_def)
    ultimately show ?thesis by (rule as_loop_consumingI)
  qed
next
  case (delivery d)
  show ?thesis
  proof (cases "ctx_cancelled s")
    case True
    then show ?thesis using delivery as_loop_ends(2) [OF assms(2) delivery(3)] by (auto simp: as_loop_def)
  next
    case False
    obtain rs v ds where *: "consumeMessages [] (snd (runConsumerLoop (rounds_of rs) w)) = (Inr (), v)"
      "msvc s = snd (deliveries (map (\<lambda>d. (d, False)) ds) v)"
      using assms(2) delivery(3) by (auto simp: as_loop_def)
    have "msvc s' = snd (deliveries (map (\<lambda>d. (d, False)) (ds @ [d])) v)" "mpc s' = MakerConsuming"
      using deliveries_snoc [of ds d False v] *(2) False delivery(2) by simp_all
    with *(1) show ?thesis by (rule as_loop_consumingI)
  qed
next
  case lost
  then show ?thesis using as_loop_ends(1) [OF assms(2) lost(3)] by (auto simp: as_loop_def)
qed (use assms(2) in \<open>auto simp: as_loop_def maker_Stop_def split: if_splits\<close>)

lemma as_loop_run: "maker_run s es s' \<Longrightarrow> as_loop (msvc s) s \<Longrightarrow> as_loop (msvc s) s'"
  by (induction rule: maker_run.induct) (auto dest: as_loop_step)

lemma as_loop_started: "as_loop (msvc (maker_started p f)) (maker_started p f)"
  by (auto simp: as_loop_def maker_started_def rounds_of_def ret_def intro: exI [of _ "[]"])

text \<open>
  The steps of the process are those of the loop: in whichever order the consumer, the signal and the
  world move, whatever fails, what the service has confirmed and answered is what
  \<open>runConsumerLoop\<close> does on some rounds of deliveries.
\<close>

theorem maker_process_refines_loop:
  assumes "maker_run (maker_started p fails) es s"
  shows "\<exists>rounds. msvc s = snd (runConsumerLoop rounds (NewMakersService p\<lparr>op_fails := fails\<rparr>))"
proof -
  have "as_loop (msvc (maker_started p fails)) s" by (rule as_loop_run [OF assms as_loop_started])
  then have "\<exists>rs. msvc s = snd (runConsumerLoop (rounds_of rs) (msvc (maker_started p fails)))"
    using as_loop_ends(1) by (cases "mpc s = MakerConsuming") (auto simp: as_loop_def)
  then show ?thesis by (auto simp: maker_started_def)
qed

section \<open>Stopping\<close>

text \<open>While nothing is delivered and the connection lasts, the consumer stays where it is.\<close>

lemma quiet_run:
  assumes "maker_run s es s'" and "mpc s = MakerConsuming" and "main_at s = AwaitsSignal"
    and "\<forall>e \<in> set es. e \<noteq> ConnectionLost \<and> (\<forall>d. e \<noteq> Delivery d)"
  shows "mpc s' = MakerConsuming \<and> main_at s' \<noteq> MainEnded \<and> (main_at s' = AwaitsConsumer \<longrightarrow> ctx_cancelled s')"
  using assms
proof (induction rule: maker_run.induct)
  case (more s es t e u)
  then have "mpc t = MakerConsuming \<and> main_at t \<noteq> MainEnded \<and> (main_at t = AwaitsConsumer \<longrightarrow> ctx_cancelled t)"
    by auto
  then show ?case using more(2) more.prems(3) by (auto elim!: maker_stepE simp: maker_Stop_def)
qed simp

text \<open>A delivery after \<open>cancel\<close> is the last.\<close>

lemma last_delivery:
  assumes "mpc s = MakerConsuming" and "main_at s = AwaitsConsumer" and "ctx_cancelled s"
  shows "\<exists>t. maker_run s [Delivery d, LeavesLoop, MainReturns] t
    \<and> main_at t = MainEnded \<and> msvc t = snd (processSingleMessage d (msvc s))"
proof -
  let ?w = "snd (processSingleMessage d (msvc s))"
  let ?s1 = "s\<lparr>msvc := ?w, mpc := MakerWaiting\<rparr>" and ?s2 = "s\<lparr>msvc := ?w, mpc := MakerReturned\<rparr>"
  have "maker_step (Delivery d) s ?s1" using delivery [of s d] assms by simp
  moreover have "maker_step LeavesLoop ?s1 ?s2" using leaves [of ?s1] assms by simp
  moreover have "maker_step MainReturns ?s2 (?s2\<lparr>main_at := MainEnded\<rparr>)" using returns [of ?s2] assms by simp
  ultimately have "maker_run s [Delivery d, LeavesLoop, MainReturns] (?s2\<lparr>main_at := MainEnded\<rparr>)"
    by (intro maker_run_step [OF _ maker_run_step [OF _ maker_run_step [OF _ stay]]])
  then show ?thesis by (intro exI conjI) auto
qed

text \<open>
  C40: On a quiet queue the signal does not stop the makers: while nothing is delivered and the connection
  lasts, main has not ended; and once it waits for its consumer, no step is left to the process but
  those of the world. A delivery is the way out: it is still processed and answered, and then both
  goroutines end.
\<close>

theorem idle_makers_do_not_stop:
  assumes "maker_run s es s'" and "mpc s = MakerConsuming" and "main_at s = AwaitsSignal"
    and "\<forall>e \<in> set es. e \<noteq> ConnectionLost \<and> (\<forall>d. e \<noteq> Delivery d)"
  shows "main_at s' \<noteq> MainEnded
    \<and> (main_at s' = AwaitsConsumer \<longrightarrow>
         (\<forall>e t. maker_step e s' t \<longrightarrow> e = ConnectionLost \<or> (\<exists>d. e = Delivery d))
         \<and> (\<forall>d. \<exists>t. maker_run s' [Delivery d, LeavesLoop, MainReturns] t
               \<and> main_at t = MainEnded \<and> msvc t = snd (processSingleMessage d (msvc s'))))"
  using quiet_run [OF assms] last_delivery [of s'] by (auto elim!: maker_stepE)

text \<open>Main connects, hears of the signal and waits.\<close>

definition makers_signalled :: maker_process where
  "makers_signalled = (makers_main [])\<lparr>mpc := MakerConsuming, stop_closed := True, ctx_cancelled := True,
     main_at := AwaitsConsumer\<rparr>"

lemma makers_connect: "maker_step Connects (makers_main []) ((makers_main [])\<lparr>mpc := MakerConsuming\<rparr>)"
proof -
  have "consumeMessages [] (msvc (makers_main [])) = (Inr (), msvc (makers_main []))" by code_simp
  from connects [OF _ this] show ?thesis by (simp add: makers_main_def maker_started_def)
qed

lemma makers_stop: "maker_run ((makers_main [])\<lparr>mpc := MakerConsuming\<rparr>) [SignalArrives, Stops, Cancels] makers_signalled"
proof -
  let ?s = "(makers_main [])\<lparr>mpc := MakerConsuming\<rparr>"
  let ?s1 = "?s\<lparr>main_at := CallsStop\<rparr>" and ?s2 = "?s\<lparr>stop_closed := True, main_at := CallsCancel\<rparr>"
  have "maker_step SignalArrives ?s ?s1" using signal [of ?s] by (simp add: makers_main_def maker_started_def)
  moreover have "maker_step Stops ?s1 ?s2"
    using stops [of ?s1] by (simp add: makers_main_def maker_started_def maker_Stop_def)
  moreover have "maker_step Cancels ?s2 makers_signalled"
    using cancels [of ?s2] by (simp add: makers_main_def maker_started_def makers_signalled_def)
  ultimately show ?thesis by (intro maker_run_step [OF _ maker_run_step [OF _ maker_run_step [OF _ stay]]])
qed

theorem maker_process_refines_loop_witness:
  "\<exists>rounds. msvc makers_signalled = snd (runConsumerLoop rounds (NewMakersService None\<lparr>op_fails := []\<rparr>))"
proof -
  have "maker_run (makers_main []) (Connects # [SignalArrives, Stops, Cancels]) makers_signalled"
    by (rule maker_run_step [OF makers_connect makers_stop])
  then show ?thesis unfolding makers_main_def by (rule maker_process_refines_loop)
qed

theorem idle_makers_do_not_stop_witness:
  "main_at makers_signalled = AwaitsConsumer \<and> main_at makers_signalled \<noteq> MainEnded
    \<and> (\<exists>t. maker_run makers_signalled [Delivery None, LeavesLoop, MainReturns] t \<and> main_at t = MainEnded)"
proof -
  have m: "main_at makers_signalled = AwaitsConsumer" by (simp add: makers_signalled_def)
  have "mpc ((makers_main [])\<lparr>mpc := MakerConsuming\<rparr>) = MakerConsuming"
    "main_at ((makers_main [])\<lparr>mpc := MakerConsuming\<rparr>) = AwaitsSignal"
    by (simp_all add: makers_main_def maker_started_def)
  from idle_makers_do_not_stop [OF makers_stop this] show ?thesis using m by auto
qed

end
