(* ===== verification/Spec2Isabelle.thy ===== *)
theory Spec2Isabelle
  imports Access Admin Shop Buyers Market System Notify Site MakersProcess
begin

text \<open>
  bakery-go: a bakery run as an electronic market. A server (\<open>server/\<close>) owns a PostgreSQL database
  (\<open>data/\<close>, \<open>bakery.sql\<close>) and answers buyers and administrators over gRPC. An order travels over
  RabbitMQ: \<open>BuyBread\<close> publishes it on buy-bread-order; the broker (\<open>broker/\<close>) reports it to the
  server, buffers it, and serves a batch by priority, reserving bread through the server's
  BrokerService; the result goes out on bread-bought, where the settlement dispatcher hands it to
  the stream that waits for it. Low stock is asked for on make-bread-order, confirmed by the makers
  (\<open>makers/\<close>) on bread-made, and added to the stock.

  The theories, bottom up.

  \<open>Prelude\<close>: Go's 64 and 32 bit integers as \<open>int\<close> with the wrap-around written out; procedures of a
  state that return an error or a value, their preservation of an invariant (\<open>keeps\<close>) and their
  triples; \<open>sort.Slice\<close>. \<open>Float64\<close>: binary64 with one rounding per operation; rounding is idempotent.
  \<open>Json\<close>: what \<open>encoding/json\<close> writes and reads, on trees.

  \<open>Schema\<close>, \<open>Constraints\<close>: the tables of \<open>bakery.sql\<close>, one record per row, with sequences, statements,
  transactions and a schedule of faults (a request lost, a reply lost, a result cut off); the
  constraints that reject a row, and \<open>db_inv\<close>, their conjunction. \<open>Inventory\<close>, \<open>Orders\<close>, \<open>Outbox\<close>,
  \<open>Accounts\<close>, \<open>Invoices\<close>: the methods of \<open>PostgresRepository\<close> (\<open>data/models.go\<close>), each keeping
  \<open>db_inv\<close>, with what they return and store. \<open>Database\<close>: any interleaving of them.

  \<open>Resilience\<close> (\<open>pkg/resilience\<close>): circuit breaker, retry, token bucket, rate limiter. \<open>Messages\<close>: the
  messages of the order path and their conversions. \<open>BrokerServer\<close> (\<open>server/broker_service.go\<close>),
  \<open>Matching\<close> (\<open>broker/matching.go\<close>), \<open>BrokerClient\<close> (\<open>broker/main.go\<close>): the matching engine is written
  against the interface of its client (locales \<open>matching_engine\<close>, \<open>reliable_engine\<close>), which the client
  with retries and the server's own handlers instantiate. \<open>Settlement\<close>
  (\<open>server/settlement_dispatcher.go\<close>): waiters, channels and the consumer as a step relation.
  \<open>Access\<close> (\<open>middleware.go\<close>, \<open>gRPCInterceptor.go\<close>, \<open>gRPCAuth.go\<close>): what every unary call passes. \<open>Wire\<close>,
  \<open>Bakery\<close> (\<open>gRPCBakery.go\<close>), \<open>Admin\<close> (\<open>gRPCAdmin.go\<close>, \<open>gRPCInvoice.go\<close>): the remaining handlers.
  \<open>Web\<close>, \<open>Portal\<close> (\<open>frontend/cmd/web/auth_handlers.go\<close>): the front end's sessions and the customers'
  portal, whose calls pass the server's interceptor. \<open>Backoffice\<close> (\<open>admin_handlers.go\<close>): the pages, forms
  and event streams of the administration; \<open>Shop\<close> (\<open>main.go\<close>, \<open>handlers.go\<close>): the public pages and streams
  and the services behind the handlers. A page is the record its template is executed on. \<open>Site\<close>: the start
  of the front end, and that every page finds its template. \<open>Notify\<close>: the trigger of \<open>bakery.sql\<close> and
  \<open>WaitForOrderNotification\<close>, whose polling never ends it.
  \<open>Buyers\<close> (\<open>buyers/main.go\<close>): the load generator, a buy cycle as a step relation over the program
  counters of its goroutines, where an unbuffered channel is a joint step. \<open>BrokerProcess\<close>
  (\<open>broker/main.go\<close>): the consumer and the matching loop of the broker as a step relation: a delivery is
  one step; a batch is drained in one, and then every item of every order, the end of an order and
  the report are steps of their own, which compose to \<open>processMatchingBatch\<close> (\<open>batch_run\<close>). The calls of one step,
  its retries included, are not interleaved with others.
  \<open>Calm\<close>, \<open>Market\<close>: the order path from \<open>BuyBread\<close> to the settlement as one composition: what it is when
  nothing fails, and which orders never leave it. \<open>ServerProcess\<close> (\<open>server/main.go\<close>): the start of the server
  and the connections of its consumers. \<open>System\<close>: all processes over one database and the queues of
  RabbitMQ, with what earlier runs left on them, as a step relation, in which the \<open>SELECT\<close> and the \<open>UPDATE\<close> of
  \<open>AdjustBreadQuantity\<close> are two steps of the listener (together \<open>listenForBreadMade\<close>: \<open>bread_undisturbed\<close>)
  and every method on the database, by whoever calls it, may come in between. It keeps books of
  where bread comes from: the stock of the start, confirmations, what others put in, and what a write
  of the listener brings back although it was sold, which is proved to happen.
  \<open>Makers\<close> (\<open>makers/main.go\<close>), \<open>Replenish\<close> (\<open>rabbitBakery.go\<close>): replenishment and its round trip.
  \<open>MakersProcess\<close>: the makers' two goroutines as a step relation, which refines the loop, and how it stops.

  What the lemmas show. The inventory: stock never negative, no batch ever takes more than there is,
  and what it reports as sold is what left the stock, whatever the network does, short of a retried
  reservation, which is shown to be able to deduct twice. Orders: stored once per UUID, whole or not
  at all, and read back as they were. Errors: each handler's branches are values, and the
  properties that speak of failures quantify over every schedule of faults. The paths that cannot
  work (completing an order, the fallback of a timed-out stream, the maker's confirmations as
  \<open>main\<close> builds them) are proved not to.

  Parameters: bcrypt, JWT signing and checking, the UUID generator, the driver's conversion of a
  double to a NUMERIC column and the clock are arguments or fields of the state. Loops that wait for
  the world (consumers, streams) are recursions over what the world delivers; the delivery loop of
  the dispatcher, bounded by its deadline, is a step relation with a measure. \<open>Retry_from\<close>, the loop of
  \<open>Retry\<close>, is a partial function, because its counter wraps for the largest \<open>int\<close>; for every smaller
  \<open>MaxRetries\<close> it is shown to return, with the result of \<open>retry_loop\<close> on \<open>MaxRetries + 1\<close> as fuel. Every other
  recursion is total, and no model runs out of fuel.

  Not modelled: the registration of gRPC services and its options, logging and metrics; the text of
  JSON and of protobuf; the text of the templates, the static files and the CSRF middleware of the front
  end; \<open>sort.Slice\<close> on ties of long slices (proved not to matter); the
  test support in \<open>testutils\<close>, which is mocks and containers.
\<close>

end
